theory Spec2Isabelle
  imports Main "HOL-Library.Word"
begin

unbundle bit_operations_syntax

section \<open>The enrollment engine of adcli (library/adenroll.c)\<close>

text \<open>
  The theory embeds the enrollment engine function by function. A C string that may be
  \<^verbatim>\<open>NULL\<close> is a \<open>string option\<close>; C strings hold no NUL character. The password is a
  list of octets. Memory allocation is taken to succeed, so the branches that only a failed
  \<^verbatim>\<open>malloc\<close>, \<^verbatim>\<open>strdup\<close> or \<^verbatim>\<open>asprintf\<close> reaches are left out; the logging calls
  (\<^verbatim>\<open>_adcli_info\<close>, \<^verbatim>\<open>_adcli_warn\<close>, \<^verbatim>\<open>_adcli_err\<close>) have no effect on the state
  modelled here and are left out as well.
\<close>

subsection \<open>Data model\<close>

text \<open>The result kinds of library/adutil.h.\<close>

datatype adcli_result =
    ADCLI_SUCCESS
  | ADCLI_ERR_UNEXPECTED
  | ADCLI_ERR_FAIL
  | ADCLI_ERR_DIRECTORY
  | ADCLI_ERR_CONFIG
  | ADCLI_ERR_CREDENTIALS

text \<open>
  A call either returns a result, or the process stops: a failed \<^verbatim>\<open>assert\<close> aborts it, and
  undefined behaviour (a \<^verbatim>\<open>NULL\<close> string handed to \<^verbatim>\<open>asprintf\<close> or \<^verbatim>\<open>strlen\<close>, an
  index outside an array) is modelled as the same stop.
\<close>

datatype outcome = Returned adcli_result | Aborted

type_synonym octets = "8 word list"
type_synonym krb5_kvno = "32 word"
type_synonym krb5_enctype = int
type_synonym krb5_error_code = int

text \<open>A \<^verbatim>\<open>krb5_data\<close> used as a salt; \<open>None\<close> is the one whose \<^verbatim>\<open>data\<close> is \<^verbatim>\<open>NULL\<close>.\<close>

type_synonym krb5_salt = "string option"

datatype krb5_principal = Principal (components: "string list") (realm: string)

text \<open>A keytab handle: resolved from a name, or the default keytab.\<close>

datatype krb5_keytab = Keytab string | Default_Keytab

record krb5_keytab_entry =
  principal :: krb5_principal
  vno :: krb5_kvno
  key_enctype :: krb5_enctype
  key_contents :: octets

record LDAPMod =
  mod_op :: "32 word"
  mod_type :: string
  mod_values :: "string list"

text \<open>
  The first entry of a search result: its DN and, per attribute, the values
  \<^verbatim>\<open>ldap_get_values_len\<close> yields (\<open>None\<close> for \<^verbatim>\<open>NULL\<close>). A result with no entry is \<open>None\<close>.
\<close>

record ldap_entry =
  entry_dn :: string
  entry_values :: "string \<Rightarrow> string list option"

type_synonym LDAPMessage = "ldap_entry option"

datatype adcli_login_type =
    ADCLI_LOGIN_UNKNOWN
  | ADCLI_LOGIN_COMPUTER_ACCOUNT
  | ADCLI_LOGIN_USER_ACCOUNT

text \<open>The two flags of \<^verbatim>\<open>adcli_enroll_flags\<close> that the engine tests.\<close>

record adcli_enroll_flags =
  ADCLI_ENROLL_NO_KEYTAB :: bool
  ADCLI_ENROLL_ALLOW_OVERWRITE :: bool

text \<open>What the engine reads from the connection through its getters.\<close>

record adcli_conn =
  conn_krb5_context :: bool
  conn_ldap_connection :: bool
  conn_login_ccache :: bool
  conn_host_fqdn :: "string option"
  conn_domain_realm :: string
  conn_naming_context :: "string option"
  conn_login_type :: adcli_login_type

text \<open>\<^verbatim>\<open>struct _adcli_enroll\<close>, without the reference count.\<close>

record adcli_enroll =
  host_fqdn :: "string option"
  host_fqdn_explicit :: bool
  computer_name :: "string option"
  computer_name_explicit :: bool
  computer_sam :: "string option"
  computer_password :: "octets option"
  computer_password_explicit :: bool
  reset_password :: bool
  computer_principal :: "krb5_principal option"
  preferred_ou :: "string option"
  preferred_ou_validated :: bool
  computer_container :: "string option"
  computer_dn :: "string option"
  computer_attributes :: "LDAPMessage option"
  service_names :: "string list option"
  service_principals :: "string list option"
  service_principals_explicit :: bool
  kvno :: krb5_kvno
  keytab_name :: "string option"
  keytab_name_is_krb5 :: bool
  keytab :: "krb5_keytab option"
  keytab_principals :: "krb5_principal list option"
  keytab_enctypes :: "krb5_enctype list option"
  keytab_enctypes_explicit :: bool

text \<open>
  The operations on the outside world that the engine issues, in the order it issues them.
\<close>

datatype event =
    LdapCompare string string string
  | LdapSearch string string "string list"
  | LdapAdd string "LDAPMod list"
  | LdapModify string "LDAPMod list"
  | Kpasswd octets krb5_error_code int
  | KeytabClear krb5_principal krb5_kvno
  | AsReq krb5_principal krb5_kvno krb5_enctype octets
  | KeytabAdd krb5_keytab_entry

text \<open>
  The external collaborators: the connection layer, the Kerberos and LDAP libraries, libc,
  and the helpers of the library that live outside adenroll.c. Each field is the answer the
  collaborator gives to a call; the theorems hold for every choice of answers.
\<close>

record world =
  adcli_conn_discover :: "adcli_conn \<Rightarrow> adcli_result \<times> adcli_conn"
  adcli_conn_connect :: "adcli_conn \<Rightarrow> adcli_result \<times> adcli_conn"
  krb5_parse_name :: "string \<Rightarrow> krb5_principal option"
  krb5_principal2salt :: "krb5_principal \<Rightarrow> string"
  adcli_krb5_w2k3_salt :: "krb5_principal \<Rightarrow> string option \<Rightarrow> string"
  krb5_c_string_to_key :: "krb5_enctype \<Rightarrow> octets \<Rightarrow> krb5_salt \<Rightarrow> octets"
  as_req_accepted :: "krb5_principal \<Rightarrow> krb5_kvno \<Rightarrow> krb5_enctype \<Rightarrow> octets \<Rightarrow> bool"
  krb5_kt_resolve :: "string \<Rightarrow> krb5_error_code"
  krb5_kt_default :: "krb5_error_code"
  krb5_kt_get_name :: "krb5_error_code \<times> string"
  adcli_krb5_keytab_clear_code :: "krb5_principal \<Rightarrow> krb5_error_code"
  krb5_kt_add_entry :: "krb5_keytab_entry \<Rightarrow> krb5_error_code"
  krb5_set_password_using_ccache :: "octets \<Rightarrow> krb5_principal \<Rightarrow> krb5_error_code \<times> int"
  adcli_kinit_computer_creds :: "krb5_error_code"
  krb5_change_password :: "octets \<Rightarrow> krb5_error_code \<times> int"
  ldap_compare_ext_s :: "string \<Rightarrow> string \<Rightarrow> string \<Rightarrow> int"
  ldap_search_ext_s :: "string \<Rightarrow> string \<Rightarrow> string list \<Rightarrow> int \<times> LDAPMessage"
  ldap_add_ext_s :: "string \<Rightarrow> LDAPMod list \<Rightarrow> int"
  ldap_modify_ext_s :: "string \<Rightarrow> LDAPMod list \<Rightarrow> int"
  adcli_ldap_have_mod :: "LDAPMod \<Rightarrow> string list \<Rightarrow> bool"
  adcli_krb5_parse_enctypes :: "string \<Rightarrow> krb5_enctype list option"
  adcli_krb5_format_enctypes :: "krb5_enctype list \<Rightarrow> string option"
  adcli_calc_reset_password :: "string \<Rightarrow> octets"
  strtoul :: "string \<Rightarrow> 64 word \<times> string"

text \<open>
  The state a call works on: the context, the connection it shares, the entries of the
  keytab file the context's handle refers to, the octets the random generator will deliver
  (a request beyond them is the generator's failure), and the log of operations issued.
\<close>

record sys =
  enroll :: adcli_enroll
  conn :: adcli_conn
  keytab_file :: "krb5_keytab_entry list"
  random_octets :: octets
  trace :: "event list"

definition emit :: "event \<Rightarrow> sys \<Rightarrow> sys" where
  "emit ev s = s\<lparr>trace := trace s @ [ev]\<rparr>"

text \<open>
  The idiom \<^verbatim>\<open>res = f (...); if (res != ADCLI_SUCCESS) return res;\<close> followed by the
  rest of the function.
\<close>

definition and_then ::
  "(sys \<Rightarrow> outcome \<times> sys) \<Rightarrow> (sys \<Rightarrow> outcome \<times> sys) \<Rightarrow> sys \<Rightarrow> outcome \<times> sys" where
  "and_then f g s =
     (case f s of
        (Returned ADCLI_SUCCESS, s') \<Rightarrow> g s'
      | (r, s') \<Rightarrow> (r, s'))"

text \<open>
  The idiom \<^verbatim>\<open>res = f (res, enroll);\<close> of the running result: the next stage receives
  the result so far. Nothing runs after the process has stopped.
\<close>

definition next_stage ::
  "(adcli_result \<Rightarrow> sys \<Rightarrow> outcome \<times> sys) \<Rightarrow> outcome \<times> sys \<Rightarrow> outcome \<times> sys" where
  "next_stage f rs =
     (case rs of
        (Returned res, s) \<Rightarrow> f res s
      | (Aborted, s) \<Rightarrow> (Aborted, s))"

subsection \<open>Helpers of the library outside adenroll.c\<close>

text \<open>
  Modelled from the spec: \<^verbatim>\<open>_adcli_str_up\<close> (library/adutil.c is not among the sources)
  uppercases the computer name in place; the letters a to z are mapped to A to Z and every
  other character is kept.
\<close>

definition char_up :: "char \<Rightarrow> char" where
  "char_up c =
     (if 97 \<le> (of_char c :: nat) \<and> (of_char c :: nat) \<le> 122
      then char_of ((of_char c :: nat) - 32) else c)"

definition adcli_str_up :: "string \<Rightarrow> string" where
  "adcli_str_up s = map char_up s"

text \<open>
  Modelled from the spec: \<^verbatim>\<open>_adcli_ldap_handle_failure\<close> (library/adldap.c is not among
  the sources) records the server's diagnostic on the connection and yields the error kind
  it is given as the default.
\<close>

definition adcli_ldap_handle_failure :: "adcli_result \<Rightarrow> adcli_result" where
  "adcli_ldap_handle_failure defres = defres"

text \<open>
  Modelled from the spec: \<^verbatim>\<open>_adcli_ldap_parse_value\<close>, \<^verbatim>\<open>_adcli_ldap_parse_values\<close> and
  \<^verbatim>\<open>_adcli_ldap_parse_dn\<close> (library/adldap.c) read the first entry of a result: the first
  value of an attribute, all its values, and the entry's DN; \<^verbatim>\<open>NULL\<close> when there is none.
\<close>

definition adcli_ldap_parse_values :: "LDAPMessage \<Rightarrow> string \<Rightarrow> string list option" where
  "adcli_ldap_parse_values results attr =
     (case results of None \<Rightarrow> None | Some entry \<Rightarrow> entry_values entry attr)"

definition adcli_ldap_parse_value :: "LDAPMessage \<Rightarrow> string \<Rightarrow> string option" where
  "adcli_ldap_parse_value results attr =
     (case adcli_ldap_parse_values results attr of
        None \<Rightarrow> None
      | Some [] \<Rightarrow> None
      | Some (v # _) \<Rightarrow> Some v)"

definition adcli_ldap_parse_dn :: "LDAPMessage \<Rightarrow> string option" where
  "adcli_ldap_parse_dn results =
     (case results of None \<Rightarrow> None | Some entry \<Rightarrow> Some (entry_dn entry))"

text \<open>
  Modelled from the spec: \<^verbatim>\<open>_adcli_ldap_prune_empty_mods\<close> (library/adldap.c) drops the
  mods that carry no value before an add.
\<close>

definition adcli_ldap_prune_empty_mods :: "LDAPMod list \<Rightarrow> LDAPMod list" where
  "adcli_ldap_prune_empty_mods mods = filter (\<lambda>m. mod_values m \<noteq> []) mods"

text \<open>The result codes of ldap.h that the engine tests.\<close>

definition LDAP_SUCCESS :: int where "LDAP_SUCCESS = 0"
definition LDAP_COMPARE_FALSE :: int where "LDAP_COMPARE_FALSE = 5"
definition LDAP_COMPARE_TRUE :: int where "LDAP_COMPARE_TRUE = 6"
definition LDAP_NO_SUCH_OBJECT :: int where "LDAP_NO_SUCH_OBJECT = 32"
definition LDAP_INSUFFICIENT_ACCESS :: int where "LDAP_INSUFFICIENT_ACCESS = 50"
definition LDAP_OBJECT_CLASS_VIOLATION :: int where "LDAP_OBJECT_CLASS_VIOLATION = 65"
definition LDAP_MOD_REPLACE :: "32 word" where "LDAP_MOD_REPLACE = 2"

subsection \<open>Parameter resolver\<close>

definition ensure_host_fqdn :: "adcli_result \<Rightarrow> sys \<Rightarrow> outcome \<times> sys" where
  "ensure_host_fqdn res s =
     (if res \<noteq> ADCLI_SUCCESS then (Returned res, s)
      else if host_fqdn (enroll s) \<noteq> None then (Returned ADCLI_SUCCESS, s)
      else if host_fqdn_explicit (enroll s) then (Returned ADCLI_SUCCESS, s)
      else (Returned ADCLI_SUCCESS,
            s\<lparr>enroll := (enroll s)\<lparr>host_fqdn := conn_host_fqdn (conn s)\<rparr>\<rparr>))"

text \<open>\<^verbatim>\<open>strchr\<close>: the offset of the first occurrence of a character, \<open>None\<close> for \<^verbatim>\<open>NULL\<close>.\<close>

definition strchr :: "string \<Rightarrow> char \<Rightarrow> nat option" where
  "strchr str c =
     (if c \<in> set str then Some (length (takeWhile (\<lambda>x. x \<noteq> c) str)) else None)"

definition ensure_computer_name :: "adcli_result \<Rightarrow> sys \<Rightarrow> outcome \<times> sys" where
  "ensure_computer_name res s =
     (if res \<noteq> ADCLI_SUCCESS then (Returned res, s)
      else if computer_name (enroll s) \<noteq> None then (Returned ADCLI_SUCCESS, s)
      else case host_fqdn (enroll s) of
        None \<Rightarrow> (Returned ADCLI_ERR_CONFIG, s)
      | Some fqdn \<Rightarrow>
          (case strchr fqdn (CHR ''.'') of
             None \<Rightarrow> (Returned ADCLI_ERR_CONFIG, s)
           | Some dot \<Rightarrow>
               if dot = 0 \<or> dot + 1 = length fqdn then (Returned ADCLI_ERR_CONFIG, s)
               else (Returned ADCLI_SUCCESS,
                     s\<lparr>enroll := (enroll s)\<lparr>computer_name :=
                          Some (adcli_str_up (take dot fqdn))\<rparr>\<rparr>)))"

definition krb5_set_principal_realm :: "krb5_principal \<Rightarrow> string \<Rightarrow> krb5_principal" where
  "krb5_set_principal_realm p r = Principal (components p) r"

text \<open>
  What \<^verbatim>\<open>%s\<close> of \<^verbatim>\<open>asprintf\<close> writes for a string argument: the string, and \<^verbatim>\<open>(null)\<close>
  for a \<^verbatim>\<open>NULL\<close> pointer, as the C library adcli is built against does.
\<close>

definition printf_s :: "string option \<Rightarrow> string" where
  "printf_s str = (case str of None \<Rightarrow> ''(null)'' | Some chars \<Rightarrow> chars)"

text \<open>
  \<^verbatim>\<open>ensure_computer_sam\<close> does not look at the running result it is given, and does not
  check that there is a computer name.
\<close>

definition ensure_computer_sam :: "world \<Rightarrow> adcli_result \<Rightarrow> sys \<Rightarrow> outcome \<times> sys" where
  "ensure_computer_sam w res s =
     (let sam = printf_s (computer_name (enroll s)) @ ''$'';
          s1 = s\<lparr>enroll := (enroll s)\<lparr>computer_sam := Some sam\<rparr>\<rparr>;
          s2 = s1\<lparr>enroll := (enroll s1)\<lparr>computer_principal := None\<rparr>\<rparr>
      in if \<not> conn_krb5_context (conn s1) then (Returned ADCLI_ERR_UNEXPECTED, s1)
         else (case krb5_parse_name w sam of
                 None \<Rightarrow> (Returned ADCLI_ERR_UNEXPECTED, s2)
               | Some p \<Rightarrow>
                   (Returned ADCLI_SUCCESS,
                    s2\<lparr>enroll := (enroll s2)\<lparr>computer_principal :=
                         Some (krb5_set_principal_realm p
                                 (conn_domain_realm (conn s2)))\<rparr>\<rparr>)))"

text \<open>
  \<^verbatim>\<open>password[i] >= 32 && password[i] <= 122\<close> on a \<^verbatim>\<open>char\<close>, which is signed on the
  platforms adcli builds for.
\<close>

definition valid_password_char :: "8 word \<Rightarrow> bool" where
  "valid_password_char c = (32 \<le> sint c \<and> sint c \<le> 122)"

text \<open>
  \<^verbatim>\<open>filter_password_chars\<close> compacts the buffer in place; \<open>i\<close> and \<open>j\<close> are its two
  indices. The result is the buffer and the number of characters kept.
\<close>

function filter_password_loop :: "octets \<Rightarrow> nat \<Rightarrow> nat \<Rightarrow> nat \<Rightarrow> octets \<times> nat" where
  "filter_password_loop password len i j =
     (if i < len then
        (if valid_password_char (password ! i)
         then filter_password_loop (password[j := password ! i]) len (i + 1) (j + 1)
         else filter_password_loop password len (i + 1) j)
      else (password, j))"
  by pat_completeness auto
termination
  by (relation "measure (\<lambda>(password, len, i, j). len - i)") auto

declare filter_password_loop.simps [simp del]

definition filter_password_chars :: "octets \<Rightarrow> nat \<Rightarrow> octets \<times> nat" where
  "filter_password_chars password len = filter_password_loop password len 0 0"

text \<open>
  \<^verbatim>\<open>krb5_c_random_make_octets\<close> fills a buffer of \<open>n\<close> octets from the generator, or fails.
\<close>

definition krb5_c_random_make_octets :: "nat \<Rightarrow> sys \<Rightarrow> (octets \<times> sys) option" where
  "krb5_c_random_make_octets n s =
     (if length (random_octets s) < n then None
      else Some (take n (random_octets s), s\<lparr>random_octets := drop n (random_octets s)\<rparr>))"

text \<open>
  What \<^verbatim>\<open>generate_host_password\<close> comes to: a buffer, the \<^verbatim>\<open>NULL\<close> it returns on a
  failure, or the stop at its \<^verbatim>\<open>assert (at <= length)\<close>.
\<close>

datatype host_password = Password octets | Password_NULL | Assertion_Failed

text \<open>
  The loop of \<^verbatim>\<open>generate_host_password\<close>: \<open>password\<close> is the whole buffer of
  \<open>len + 1\<close> octets and \<open>at\<close> the number of characters accepted so far. Each round asks
  for \<open>len - at\<close> octets, writes them at offset \<open>at\<close> and filters them there.
\<close>

function generate_host_password_loop ::
  "octets \<Rightarrow> nat \<Rightarrow> nat \<Rightarrow> sys \<Rightarrow> host_password \<times> sys" where
  "generate_host_password_loop password len at s =
     (if at \<noteq> len then
        (if len < at then (Assertion_Failed, s)
         else case krb5_c_random_make_octets (len - at) s of
           None \<Rightarrow> (Password_NULL, s)
         | Some (buffer, s') \<Rightarrow>
             (case filter_password_chars buffer (len - at) of
                (filtered, n) \<Rightarrow>
                  generate_host_password_loop
                    (take at password @ filtered @ drop len password) len (at + n) s'))
      else (Password (password[len := 0]), s))"
  by pat_completeness auto
termination
  by (relation "measure (\<lambda>(password, len, at, s). length (random_octets s))")
     (auto simp: krb5_c_random_make_octets_def split: if_splits)

declare generate_host_password_loop.simps [simp del]

text \<open>
  \<^verbatim>\<open>generate_host_password\<close>. The fresh buffer's contents do not matter, every cell is
  written before it is read.
\<close>

definition generate_host_password :: "nat \<Rightarrow> sys \<Rightarrow> host_password \<times> sys" where
  "generate_host_password len s =
     (if \<not> conn_krb5_context (conn s) then (Password_NULL, s)
      else generate_host_password_loop (replicate (len + 1) 0) len 0 s)"

text \<open>The C string held by a buffer: the octets before the first NUL.\<close>

definition c_string :: "octets \<Rightarrow> octets" where
  "c_string buffer = takeWhile (\<lambda>c. c \<noteq> 0) buffer"

definition ensure_computer_password :: "world \<Rightarrow> adcli_result \<Rightarrow> sys \<Rightarrow> outcome \<times> sys" where
  "ensure_computer_password w res s =
     (if res \<noteq> ADCLI_SUCCESS then (Returned res, s)
      else if computer_password (enroll s) \<noteq> None then (Returned ADCLI_SUCCESS, s)
      else if reset_password (enroll s) then
        (case computer_name (enroll s) of
           None \<Rightarrow> (Aborted, s)
         | Some name \<Rightarrow>
             (Returned ADCLI_SUCCESS,
              s\<lparr>enroll := (enroll s)\<lparr>computer_password :=
                   Some (adcli_calc_reset_password w name)\<rparr>\<rparr>))
      else
        (case generate_host_password 120 s of
           (Assertion_Failed, s') \<Rightarrow> (Aborted, s')
         | (Password_NULL, s') \<Rightarrow> (Returned ADCLI_ERR_UNEXPECTED, s')
         | (Password buffer, s') \<Rightarrow>
             (Returned ADCLI_SUCCESS,
              s'\<lparr>enroll := (enroll s')\<lparr>computer_password := Some (c_string buffer)\<rparr>\<rparr>)))"

definition ensure_service_names :: "adcli_result \<Rightarrow> sys \<Rightarrow> outcome \<times> sys" where
  "ensure_service_names res s =
     (if res \<noteq> ADCLI_SUCCESS then (Returned res, s)
      else if service_names (enroll s) \<noteq> None then (Returned ADCLI_SUCCESS, s)
      else (Returned ADCLI_SUCCESS,
            s\<lparr>enroll := (enroll s)\<lparr>service_names :=
                 Some [''HOST'', ''RestrictedKrbHost'']\<rparr>\<rparr>))"

text \<open>
  The first loop of \<^verbatim>\<open>ensure_service_principals\<close>: per service name the principal on
  the computer name, then the one on the host name when there is a host name.
\<close>

fun default_service_principals :: "string list \<Rightarrow> string \<Rightarrow> string option \<Rightarrow> string list" where
  "default_service_principals [] name fqdn = []"
| "default_service_principals (service # services) name fqdn =
     (service @ ''/'' @ name)
     # (case fqdn of None \<Rightarrow> [] | Some host \<Rightarrow> [service @ ''/'' @ host])
     @ default_service_principals services name fqdn"

text \<open>
  The second loop: parse each service principal and set its realm; \<open>filled\<close> are the
  entries of \<^verbatim>\<open>keytab_principals\<close> filled so far.
\<close>

fun parse_service_principals ::
  "world \<Rightarrow> string \<Rightarrow> string list \<Rightarrow> krb5_principal list \<Rightarrow> adcli_result \<times> krb5_principal list" where
  "parse_service_principals w rlm [] filled = (ADCLI_SUCCESS, filled)"
| "parse_service_principals w rlm (sp # sps) filled =
     (case krb5_parse_name w sp of
        None \<Rightarrow> (ADCLI_ERR_CONFIG, filled)
      | Some p \<Rightarrow>
          parse_service_principals w rlm sps (filled @ [krb5_set_principal_realm p rlm]))"

text \<open>
  \<^verbatim>\<open>ensure_service_principals\<close> asserts before it looks at the running result. An empty
  array of service names leaves \<^verbatim>\<open>service_principals\<close> at \<^verbatim>\<open>NULL\<close>.
\<close>

definition ensure_service_principals ::
  "world \<Rightarrow> adcli_result \<Rightarrow> sys \<Rightarrow> outcome \<times> sys" where
  "ensure_service_principals w res s =
     (case service_names (enroll s) of
        None \<Rightarrow> (Aborted, s)
      | Some names \<Rightarrow>
          if keytab_principals (enroll s) \<noteq> None then (Aborted, s)
          else if res \<noteq> ADCLI_SUCCESS then (Returned res, s)
          else
            (let built =
                   (case service_principals (enroll s) of
                      Some sps \<Rightarrow> Some sps
                    | None \<Rightarrow>
                        if names = [] then None
                        else Some (default_service_principals names
                                     (printf_s (computer_name (enroll s)))
                                     (host_fqdn (enroll s))));
                 s1 = s\<lparr>enroll := (enroll s)\<lparr>service_principals := built\<rparr>\<rparr>
             in case built of
                  None \<Rightarrow> (Returned ADCLI_ERR_UNEXPECTED, s1)
                | Some sps \<Rightarrow>
                    if \<not> conn_krb5_context (conn s1) then (Returned ADCLI_ERR_UNEXPECTED, s1)
                    else
                      (case computer_principal (enroll s1) of
                         None \<Rightarrow>
                           (Aborted, s1\<lparr>enroll := (enroll s1)\<lparr>keytab_principals := Some []\<rparr>\<rparr>)
                       | Some cp \<Rightarrow>
                           (case parse_service_principals w (conn_domain_realm (conn s1))
                                   sps [cp] of
                              (r, princs) \<Rightarrow>
                                (Returned r,
                                 s1\<lparr>enroll := (enroll s1)\<lparr>keytab_principals :=
                                      Some princs\<rparr>\<rparr>)))))"

definition ensure_host_keytab :: "world \<Rightarrow> adcli_result \<Rightarrow> sys \<Rightarrow> outcome \<times> sys" where
  "ensure_host_keytab w res s =
     (if res \<noteq> ADCLI_SUCCESS then (Returned res, s)
      else if keytab (enroll s) \<noteq> None then (Returned ADCLI_SUCCESS, s)
      else if \<not> conn_krb5_context (conn s) then (Returned ADCLI_ERR_UNEXPECTED, s)
      else case keytab_name (enroll s) of
        Some name \<Rightarrow>
          if krb5_kt_resolve w name \<noteq> 0 then (Returned ADCLI_ERR_FAIL, s)
          else (Returned ADCLI_SUCCESS, s\<lparr>enroll := (enroll s)\<lparr>keytab := Some (Keytab name)\<rparr>\<rparr>)
      | None \<Rightarrow>
          if krb5_kt_default w \<noteq> 0 then (Returned ADCLI_ERR_FAIL, s)
          else if fst (krb5_kt_get_name w) \<noteq> 0
          then (Returned ADCLI_ERR_UNEXPECTED,
                s\<lparr>enroll := (enroll s)\<lparr>keytab := Some Default_Keytab\<rparr>\<rparr>)
          else (Returned ADCLI_SUCCESS,
                s\<lparr>enroll := (enroll s)\<lparr>keytab := Some Default_Keytab,
                     keytab_name := Some (snd (krb5_kt_get_name w)),
                     keytab_name_is_krb5 := True\<rparr>\<rparr>))"

definition adcli_enroll_prepare :: "world \<Rightarrow> adcli_enroll_flags \<Rightarrow> sys \<Rightarrow> outcome \<times> sys" where
  "adcli_enroll_prepare w flags s =
     next_stage (ensure_service_principals w)
       (next_stage ensure_service_names
          ((if \<not> ADCLI_ENROLL_NO_KEYTAB flags then next_stage (ensure_host_keytab w)
            else (\<lambda>rs. rs))
             (next_stage (ensure_computer_password w)
                (next_stage (ensure_computer_sam w)
                   (next_stage ensure_computer_name
                      (ensure_host_fqdn ADCLI_SUCCESS s))))))"

subsection \<open>The context's constructor and setters\<close>

text \<open>\<^verbatim>\<open>adcli_enroll_new\<close>: \<^verbatim>\<open>calloc\<close> leaves every field zero.\<close>

definition adcli_enroll_new :: adcli_enroll where
  "adcli_enroll_new =
     \<lparr>host_fqdn = None, host_fqdn_explicit = False,
      computer_name = None, computer_name_explicit = False,
      computer_sam = None,
      computer_password = None, computer_password_explicit = False,
      reset_password = False, computer_principal = None,
      preferred_ou = None, preferred_ou_validated = False,
      computer_container = None, computer_dn = None, computer_attributes = None,
      service_names = None, service_principals = None,
      service_principals_explicit = False,
      kvno = 0, keytab_name = None, keytab_name_is_krb5 = False, keytab = None,
      keytab_principals = None, keytab_enctypes = None,
      keytab_enctypes_explicit = False\<rparr>"

definition adcli_enroll_set_host_fqdn :: "string option \<Rightarrow> adcli_enroll \<Rightarrow> adcli_enroll" where
  "adcli_enroll_set_host_fqdn v e = e\<lparr>host_fqdn := v, host_fqdn_explicit := True\<rparr>"

definition adcli_enroll_set_computer_name :: "string option \<Rightarrow> adcli_enroll \<Rightarrow> adcli_enroll" where
  "adcli_enroll_set_computer_name v e =
     e\<lparr>computer_name := v, computer_name_explicit := (v \<noteq> None)\<rparr>"


definition adcli_enroll_reset_computer_password :: "adcli_enroll \<Rightarrow> adcli_enroll" where
  "adcli_enroll_reset_computer_password e =
     e\<lparr>computer_password := None, computer_password_explicit := False,
       reset_password := True\<rparr>"


definition adcli_enroll_set_kvno :: "krb5_kvno \<Rightarrow> adcli_enroll \<Rightarrow> adcli_enroll" where
  "adcli_enroll_set_kvno v e = e\<lparr>kvno := v\<rparr>"

definition adcli_enroll_set_keytab_enctypes ::
  "krb5_enctype list option \<Rightarrow> adcli_enroll \<Rightarrow> adcli_enroll" where
  "adcli_enroll_set_keytab_enctypes v e =
     e\<lparr>keytab_enctypes := v, keytab_enctypes_explicit := (v \<noteq> None)\<rparr>"

text \<open>
  The enctype numbers of krb5.h, in the order of \<^verbatim>\<open>default_enctypes\<close>: aes256-cts-hmac-sha1-96,
  aes128-cts-hmac-sha1-96, des3-cbc-sha1, arcfour-hmac, des-cbc-md5, des-cbc-crc.
\<close>

definition default_enctypes :: "krb5_enctype list" where
  "default_enctypes = [18, 17, 16, 23, 3, 1]"

definition adcli_enroll_get_keytab_enctypes :: "adcli_enroll \<Rightarrow> krb5_enctype list" where
  "adcli_enroll_get_keytab_enctypes e =
     (case keytab_enctypes e of Some enctypes \<Rightarrow> enctypes | None \<Rightarrow> default_enctypes)"

subsection \<open>The reset at the start of a join\<close>

text \<open>
  \<^verbatim>\<open>enroll_clear_state\<close>. Each \<^verbatim>\<open>return_if_fail (k5 != NULL)\<close> leaves the function
  where it stands, with the fields cleared so far.
\<close>

definition enroll_clear_state :: "sys \<Rightarrow> sys" where
  "enroll_clear_state s =
     (let k5 = conn_krb5_context (conn s);
          e = enroll s;
          e1 = e\<lparr>keytab_principals := None\<rparr>;
          e2 = e1\<lparr>keytab := None, computer_sam := None\<rparr>;
          e3 = e2\<lparr>computer_principal := None,
                  computer_password :=
                    (if computer_password_explicit e2 then computer_password e2 else None),
                  computer_dn := None,
                  service_principals :=
                    (if service_principals_explicit e2 then service_principals e2 else None),
                  kvno := 0,
                  computer_attributes := None\<rparr>
      in if keytab_principals e \<noteq> None \<and> \<not> k5 then s
         else if keytab e1 \<noteq> None \<and> \<not> k5 then s\<lparr>enroll := e1\<rparr>
         else if computer_principal e2 \<noteq> None \<and> \<not> k5 then s\<lparr>enroll := e2\<rparr>
         else s\<lparr>enroll := e3\<rparr>)"

subsection \<open>OU and container locator\<close>

definition char_down :: "char \<Rightarrow> char" where
  "char_down c =
     (if 65 \<le> (of_char c :: nat) \<and> (of_char c :: nat) \<le> 90
      then char_of ((of_char c :: nat) + 32) else c)"

text \<open>\<^verbatim>\<open>strcasecmp (a, b) == 0\<close>.\<close>

definition strcasecmp_eq :: "string \<Rightarrow> string \<Rightarrow> bool" where
  "strcasecmp_eq a b = (map char_down a = map char_down b)"

text \<open>Every search of the engine is of scope \<^verbatim>\<open>LDAP_SCOPE_BASE\<close>; the scope is left out.\<close>

definition ldap_search ::
  "world \<Rightarrow> string \<Rightarrow> string \<Rightarrow> string list \<Rightarrow> sys \<Rightarrow> (int \<times> LDAPMessage) \<times> sys" where
  "ldap_search w base flt attrs s =
     (ldap_search_ext_s w base flt attrs, emit (LdapSearch base flt attrs) s)"

definition validate_preferred_ou :: "world \<Rightarrow> sys \<Rightarrow> outcome \<times> sys" where
  "validate_preferred_ou w s =
     (case preferred_ou (enroll s) of
        None \<Rightarrow> (Aborted, s)
      | Some ou \<Rightarrow>
          if preferred_ou_validated (enroll s) then (Returned ADCLI_SUCCESS, s)
          else
            (case conn_naming_context (conn s) of
               None \<Rightarrow> (Aborted, s)
             | Some base \<Rightarrow>
                 if strcasecmp_eq ou base
                 then (Returned ADCLI_SUCCESS,
                       s\<lparr>enroll := (enroll s)\<lparr>preferred_ou_validated := True\<rparr>\<rparr>)
                 else if \<not> conn_ldap_connection (conn s) then (Aborted, s)
                 else
                   (let ret = ldap_compare_ext_s w ou ''objectClass'' ''organizationalUnit'';
                        s1 = emit (LdapCompare ou ''objectClass'' ''organizationalUnit'') s
                    in if ret = LDAP_COMPARE_TRUE
                       then (Returned ADCLI_SUCCESS,
                             s1\<lparr>enroll := (enroll s1)\<lparr>preferred_ou_validated := True\<rparr>\<rparr>)
                       else if ret = LDAP_COMPARE_FALSE then (Returned ADCLI_ERR_CONFIG, s1)
                       else (Returned (adcli_ldap_handle_failure ADCLI_ERR_DIRECTORY), s1))))"

definition lookup_preferred_ou :: "world \<Rightarrow> sys \<Rightarrow> outcome \<times> sys" where
  "lookup_preferred_ou w s =
     (if preferred_ou (enroll s) \<noteq> None then (Aborted, s)
      else if \<not> conn_ldap_connection (conn s) then (Aborted, s)
      else case conn_naming_context (conn s) of
        None \<Rightarrow> (Aborted, s)
      | Some base \<Rightarrow>
          (case ldap_search w base ''(objectClass=computer)'' [''preferredOU''] s of
             ((ret, results), s1) \<Rightarrow>
               if ret \<noteq> LDAP_SUCCESS
               then (Returned (adcli_ldap_handle_failure ADCLI_ERR_DIRECTORY), s1)
               else (Returned ADCLI_SUCCESS,
                     s1\<lparr>enroll := (enroll s1)\<lparr>preferred_ou :=
                          (case adcli_ldap_parse_value results ''preferredOU'' of
                             Some ou \<Rightarrow> Some ou
                           | None \<Rightarrow> Some base)\<rparr>\<rparr>)))"

definition well_known_prefix :: string where
  "well_known_prefix = ''B:32:AA312825768811D1ADED00C04FD8D5CD:''"

text \<open>
  The loop over the \<^verbatim>\<open>wellKnownObjects\<close> values: the first one that starts with the
  prefix gives the container.
\<close>

fun find_well_known :: "string list \<Rightarrow> string option" where
  "find_well_known [] = None"
| "find_well_known (v # vs) =
     (if take (length well_known_prefix) v = well_known_prefix
      then Some (drop (length well_known_prefix) v)
      else find_well_known vs)"

definition lookup_computer_container :: "world \<Rightarrow> sys \<Rightarrow> outcome \<times> sys" where
  "lookup_computer_container w s =
     (case preferred_ou (enroll s) of
        None \<Rightarrow> (Aborted, s)
      | Some ou \<Rightarrow>
          if computer_container (enroll s) \<noteq> None then (Returned ADCLI_SUCCESS, s)
          else if \<not> conn_ldap_connection (conn s) then (Aborted, s)
          else
            (case ldap_search w ou ''(objectClass=*)'' [''wellKnownObjects''] s of
               ((ret, results), s1) \<Rightarrow>
                 if ret \<noteq> LDAP_SUCCESS
                 then (Returned (adcli_ldap_handle_failure ADCLI_ERR_DIRECTORY), s1)
                 else
                   (case (case adcli_ldap_parse_values results ''wellKnownObjects'' of
                            None \<Rightarrow> None
                          | Some values \<Rightarrow> find_well_known values) of
                      Some container \<Rightarrow>
                        (Returned ADCLI_SUCCESS,
                         s1\<lparr>enroll := (enroll s1)\<lparr>computer_container := Some container\<rparr>\<rparr>)
                    | None \<Rightarrow>
                        (case ldap_search w ou ''(&(objectClass=container)(cn=Computers))''
                                [''wellKnownObjects''] s1 of
                           ((ret2, results2), s2) \<Rightarrow>
                             (Returned ADCLI_SUCCESS,
                              s2\<lparr>enroll := (enroll s2)\<lparr>computer_container :=
                                   (case (if ret2 = LDAP_SUCCESS
                                          then adcli_ldap_parse_dn results2 else None) of
                                      Some container \<Rightarrow> Some container
                                    | None \<Rightarrow> Some ou)\<rparr>\<rparr>)))))"

definition calc_computer_account :: "sys \<Rightarrow> outcome \<times> sys" where
  "calc_computer_account s =
     (case computer_container (enroll s) of
        None \<Rightarrow> (Aborted, s)
      | Some container \<Rightarrow>
          (Returned ADCLI_SUCCESS,
           s\<lparr>enroll := (enroll s)\<lparr>computer_dn :=
                Some (''CN='' @ printf_s (computer_name (enroll s)) @ '','' @ container)\<rparr>\<rparr>))"

subsection \<open>Account reconciler\<close>

definition create_computer_account ::
  "world \<Rightarrow> string \<Rightarrow> LDAPMod list \<Rightarrow> sys \<Rightarrow> outcome \<times> sys" where
  "create_computer_account w dn mods s =
     (let pruned = adcli_ldap_prune_empty_mods mods;
          ret = ldap_add_ext_s w dn pruned;
          s1 = emit (LdapAdd dn pruned) s
      in if ret = LDAP_INSUFFICIENT_ACCESS \<or> ret = LDAP_OBJECT_CLASS_VIOLATION
         then (Returned (adcli_ldap_handle_failure ADCLI_ERR_CREDENTIALS), s1)
         else if ret \<noteq> LDAP_SUCCESS
         then (Returned (adcli_ldap_handle_failure ADCLI_ERR_DIRECTORY), s1)
         else (Returned ADCLI_SUCCESS, s1))"

definition modify_computer_account ::
  "world \<Rightarrow> string \<Rightarrow> LDAPMod list \<Rightarrow> sys \<Rightarrow> outcome \<times> sys" where
  "modify_computer_account w dn mods s =
     (let replacing = map (\<lambda>m. m\<lparr>mod_op := mod_op m OR LDAP_MOD_REPLACE\<rparr>) mods;
          ret = ldap_modify_ext_s w dn replacing;
          s1 = emit (LdapModify dn replacing) s
      in if ret = LDAP_INSUFFICIENT_ACCESS
         then (Returned (adcli_ldap_handle_failure ADCLI_ERR_CREDENTIALS), s1)
         else if ret \<noteq> LDAP_SUCCESS
         then (Returned (adcli_ldap_handle_failure ADCLI_ERR_DIRECTORY), s1)
         else (Returned ADCLI_SUCCESS, s1))"

text \<open>
  The test inside the loop of \<^verbatim>\<open>filter_for_necessary_updates\<close>: with no entry, or no
  values of the attribute, there is no match.
\<close>

definition mod_matches :: "world \<Rightarrow> LDAPMessage \<Rightarrow> LDAPMod \<Rightarrow> bool" where
  "mod_matches w results m =
     (case results of
        None \<Rightarrow> False
      | Some entry \<Rightarrow>
          (case entry_values entry (mod_type m) of
             None \<Rightarrow> False
           | Some vals \<Rightarrow> adcli_ldap_have_mod w m vals))"

text \<open>
  \<^verbatim>\<open>filter_for_necessary_updates\<close> keeps, in order, the mods that do not match; the
  number it returns is the length of the list.
\<close>

fun filter_for_necessary_updates :: "world \<Rightarrow> LDAPMessage \<Rightarrow> LDAPMod list \<Rightarrow> LDAPMod list" where
  "filter_for_necessary_updates w results [] = []"
| "filter_for_necessary_updates w results (m # mods) =
     (if \<not> mod_matches w results m
      then m # filter_for_necessary_updates w results mods
      else filter_for_necessary_updates w results mods)"

definition account_attrs :: "string list" where
  "account_attrs = [''objectClass'', ''sAMAccountName'', ''userAccountControl'']"

text \<open>The mods of \<^verbatim>\<open>create_or_update_computer_account\<close>; a \<^verbatim>\<open>NULL\<close> SAM name is no value.\<close>

definition account_mods :: "adcli_enroll \<Rightarrow> LDAPMod list" where
  "account_mods e =
     [\<lparr>mod_op = 0, mod_type = ''objectClass'', mod_values = [''computer'']\<rparr>,
      \<lparr>mod_op = 0, mod_type = ''sAMAccountName'',
       mod_values = (case computer_sam e of None \<Rightarrow> [] | Some sam \<Rightarrow> [sam])\<rparr>,
      \<lparr>mod_op = 0, mod_type = ''userAccountControl'', mod_values = [''69632'']\<rparr>]"

definition create_or_update_computer_account :: "world \<Rightarrow> bool \<Rightarrow> sys \<Rightarrow> outcome \<times> sys" where
  "create_or_update_computer_account w allow_overwrite s =
     (case computer_dn (enroll s) of
        None \<Rightarrow> (Aborted, s)
      | Some dn \<Rightarrow>
          if \<not> conn_ldap_connection (conn s) then (Aborted, s)
          else
            (case ldap_search w dn ''(objectClass=*)'' account_attrs s of
               ((ret, results), s1) \<Rightarrow>
                 if ret = LDAP_NO_SUCH_OBJECT
                 then create_computer_account w dn (account_mods (enroll s1)) s1
                 else if ret = 0 then
                   (if \<not> allow_overwrite then (Returned ADCLI_ERR_CONFIG, s1)
                    else
                      (case filter_for_necessary_updates w results
                              (account_mods (enroll s1)) of
                         [] \<Rightarrow> (Returned ADCLI_SUCCESS, s1)
                       | m # mods \<Rightarrow> modify_computer_account w dn (m # mods) s1))
                 else (Returned (adcli_ldap_handle_failure ADCLI_ERR_DIRECTORY), s1)))"

subsection \<open>Password setter\<close>

definition set_password_with_user_creds :: "world \<Rightarrow> sys \<Rightarrow> outcome \<times> sys" where
  "set_password_with_user_creds w s =
     (case computer_password (enroll s) of
        None \<Rightarrow> (Aborted, s)
      | Some password \<Rightarrow>
          (case computer_principal (enroll s) of
             None \<Rightarrow> (Aborted, s)
           | Some princ \<Rightarrow>
               if \<not> conn_krb5_context (conn s) then (Returned ADCLI_ERR_UNEXPECTED, s)
               else if \<not> conn_login_ccache (conn s) then (Returned ADCLI_ERR_UNEXPECTED, s)
               else
                 (case krb5_set_password_using_ccache w password princ of
                    (code, result_code) \<Rightarrow>
                      (Returned (if code \<noteq> 0 then ADCLI_ERR_DIRECTORY
                                 else if result_code \<noteq> 0 then ADCLI_ERR_CREDENTIALS
                                 else ADCLI_SUCCESS),
                       emit (Kpasswd password code result_code) s))))"

text \<open>
  \<^verbatim>\<open>set_password_with_computer_creds\<close> hands the password to \<^verbatim>\<open>krb5_change_password\<close>
  without a check; a \<^verbatim>\<open>NULL\<close> password is the stop.
\<close>

definition set_password_with_computer_creds :: "world \<Rightarrow> sys \<Rightarrow> outcome \<times> sys" where
  "set_password_with_computer_creds w s =
     (if \<not> conn_krb5_context (conn s) then (Returned ADCLI_ERR_UNEXPECTED, s)
      else if adcli_kinit_computer_creds w \<noteq> 0 then (Returned ADCLI_ERR_DIRECTORY, s)
      else case computer_password (enroll s) of
        None \<Rightarrow> (Aborted, s)
      | Some password \<Rightarrow>
          (case krb5_change_password w password of
             (code, result_code) \<Rightarrow>
               (Returned (if code \<noteq> 0 then ADCLI_ERR_DIRECTORY
                          else if result_code \<noteq> 0 then ADCLI_ERR_CREDENTIALS
                          else ADCLI_SUCCESS),
                emit (Kpasswd password code result_code) s)))"

definition set_computer_password :: "world \<Rightarrow> sys \<Rightarrow> outcome \<times> sys" where
  "set_computer_password w s =
     (if conn_login_type (conn s) = ADCLI_LOGIN_COMPUTER_ACCOUNT
      then set_password_with_computer_creds w s
      else set_password_with_user_creds w s)"

subsection \<open>Attribute synchronizer\<close>

definition info_attrs :: "string list" where
  "info_attrs = [''msDS-KeyVersionNumber'', ''msDS-supportedEncryptionTypes'',
                 ''dNSHostName'', ''servicePrincipalName'']"

text \<open>
  \<^verbatim>\<open>retrieve_computer_account_info\<close>. \<^verbatim>\<open>strtoul\<close> gives the number and the rest of the
  string it did not read; the \<^verbatim>\<open>unsigned long\<close> is cut to the 32 bits of a \<^verbatim>\<open>krb5_kvno\<close>.
\<close>

definition retrieve_computer_account_info :: "world \<Rightarrow> sys \<Rightarrow> outcome \<times> sys" where
  "retrieve_computer_account_info w s =
     (case computer_dn (enroll s) of
        None \<Rightarrow> (Aborted, s)
      | Some dn \<Rightarrow>
          if computer_attributes (enroll s) \<noteq> None then (Aborted, s)
          else if \<not> conn_ldap_connection (conn s) then (Aborted, s)
          else
            (case ldap_search w dn ''(objectClass=*)'' info_attrs s of
               ((ret, results), s1) \<Rightarrow>
                 if ret \<noteq> LDAP_SUCCESS
                 then (Returned (adcli_ldap_handle_failure ADCLI_ERR_DIRECTORY), s1)
                 else
                   (let s2 = s1\<lparr>enroll := (enroll s1)\<lparr>computer_attributes := Some results\<rparr>\<rparr>
                    in if kvno (enroll s2) = 0 then
                         (case adcli_ldap_parse_value results ''msDS-KeyVersionNumber'' of
                            Some v \<Rightarrow>
                              (case strtoul w v of
                                 (n, rest) \<Rightarrow>
                                   if rest \<noteq> [] then (Returned ADCLI_ERR_DIRECTORY, s2)
                                   else (Returned ADCLI_SUCCESS,
                                         s2\<lparr>enroll := (enroll s2)\<lparr>kvno := ucast n\<rparr>\<rparr>))
                          | None \<Rightarrow>
                              (Returned ADCLI_SUCCESS,
                               s2\<lparr>enroll := (enroll s2)\<lparr>kvno := 0\<rparr>\<rparr>))
                       else (Returned ADCLI_SUCCESS, s2))))"

text \<open>
  The tail shared by the three updates: nothing to write when the filter leaves no mod,
  else one modify and the mapping of its result code. When the join reaches the updates
  \<^verbatim>\<open>retrieve_computer_account_info\<close> has set \<^verbatim>\<open>computer_attributes\<close> and
  \<^verbatim>\<open>computer_dn\<close>; without them the LDAP library is handed \<^verbatim>\<open>NULL\<close>, the stop.
\<close>

definition modify_if_necessary ::
  "world \<Rightarrow> string option \<Rightarrow> LDAPMessage \<Rightarrow> LDAPMod list \<Rightarrow> sys \<Rightarrow> outcome \<times> sys" where
  "modify_if_necessary w dn results mods s =
     (case filter_for_necessary_updates w results mods of
        [] \<Rightarrow> (Returned ADCLI_SUCCESS, s)
      | m # ms \<Rightarrow>
          (case dn of
             None \<Rightarrow> (Aborted, s)
           | Some dn \<Rightarrow>
               (let ret = ldap_modify_ext_s w dn (m # ms);
                    s1 = emit (LdapModify dn (m # ms)) s
                in if ret = LDAP_INSUFFICIENT_ACCESS
                   then (Returned (adcli_ldap_handle_failure ADCLI_ERR_CREDENTIALS), s1)
                   else if ret \<noteq> LDAP_SUCCESS
                   then (Returned (adcli_ldap_handle_failure ADCLI_ERR_DIRECTORY), s1)
                   else (Returned ADCLI_SUCCESS, s1))))"

definition update_and_calculate_enctypes :: "world \<Rightarrow> sys \<Rightarrow> outcome \<times> sys" where
  "update_and_calculate_enctypes w s =
     (if \<not> conn_ldap_connection (conn s) then (Returned ADCLI_ERR_UNEXPECTED, s)
      else case computer_attributes (enroll s) of
        None \<Rightarrow> (Aborted, s)
      | Some results \<Rightarrow>
          (let val = adcli_ldap_parse_value results ''msDS-supportedEncryptionTypes'';
               s1 = (if \<not> keytab_enctypes_explicit (enroll s) then
                       (case val of
                          None \<Rightarrow> s
                        | Some v \<Rightarrow>
                            (case adcli_krb5_parse_enctypes w v of
                               None \<Rightarrow> s
                             | Some read_enctypes \<Rightarrow>
                                 s\<lparr>enroll := (enroll s)\<lparr>keytab_enctypes :=
                                      Some read_enctypes\<rparr>\<rparr>))
                     else s)
           in case adcli_krb5_format_enctypes w
                     (adcli_enroll_get_keytab_enctypes (enroll s1)) of
                None \<Rightarrow> (Returned ADCLI_ERR_CONFIG, s1)
              | Some new_value \<Rightarrow>
                  if val = Some new_value then (Returned ADCLI_SUCCESS, s1)
                  else
                    modify_if_necessary w (computer_dn (enroll s1)) results
                      [\<lparr>mod_op = LDAP_MOD_REPLACE,
                        mod_type = ''msDS-supportedEncryptionTypes'',
                        mod_values = [new_value]\<rparr>] s1))"

definition update_dns_host_name :: "world \<Rightarrow> sys \<Rightarrow> outcome \<times> sys" where
  "update_dns_host_name w s =
     (if \<not> conn_ldap_connection (conn s) then (Returned ADCLI_ERR_UNEXPECTED, s)
      else case computer_attributes (enroll s) of
        None \<Rightarrow> (Aborted, s)
      | Some results \<Rightarrow>
          modify_if_necessary w (computer_dn (enroll s)) results
            [\<lparr>mod_op = LDAP_MOD_REPLACE, mod_type = ''dNSHostName'',
              mod_values = (case host_fqdn (enroll s) of
                              None \<Rightarrow> [] | Some fqdn \<Rightarrow> [fqdn])\<rparr>] s)"

definition update_service_principals :: "world \<Rightarrow> sys \<Rightarrow> outcome \<times> sys" where
  "update_service_principals w s =
     (if \<not> conn_ldap_connection (conn s) then (Returned ADCLI_ERR_UNEXPECTED, s)
      else case computer_attributes (enroll s) of
        None \<Rightarrow> (Aborted, s)
      | Some results \<Rightarrow>
          modify_if_necessary w (computer_dn (enroll s)) results
            [\<lparr>mod_op = LDAP_MOD_REPLACE, mod_type = ''servicePrincipalName'',
              mod_values = (case service_principals (enroll s) of
                              None \<Rightarrow> [] | Some sps \<Rightarrow> sps)\<rparr>] s)"

subsection \<open>Keytab writer\<close>

text \<open>
  \<^verbatim>\<open>match_principal_and_kvno\<close>, with the closure's \<^verbatim>\<open>kvno\<close> and \<^verbatim>\<open>principal\<close> as
  arguments; the closure's \<^verbatim>\<open>matched\<close> flag only feeds a log message. The addition is
  the one of \<^verbatim>\<open>krb5_kvno\<close>, an unsigned 32-bit integer.
\<close>

definition match_principal_and_kvno ::
  "krb5_kvno \<Rightarrow> krb5_principal \<Rightarrow> krb5_keytab_entry \<Rightarrow> bool" where
  "match_principal_and_kvno closure_kvno closure_principal entry =
     (if vno entry + 1 = closure_kvno then False
      else if principal entry = closure_principal then True
      else False)"

text \<open>
  Modelled from the spec: \<^verbatim>\<open>_adcli_krb5_keytab_clear\<close> (library/adkrb5.c is not among the
  sources) scans the keytab and removes the entries the match function accepts; the scan
  can fail with a Kerberos error code, and then the keytab is as it was.
\<close>

definition adcli_krb5_keytab_clear ::
  "world \<Rightarrow> krb5_principal \<Rightarrow> (krb5_keytab_entry \<Rightarrow> bool) \<Rightarrow> sys \<Rightarrow> krb5_error_code \<times> sys" where
  "adcli_krb5_keytab_clear w princ matches s =
     (let code = adcli_krb5_keytab_clear_code w princ
      in if code \<noteq> 0 then (code, s)
         else (0, s\<lparr>keytab_file := filter (\<lambda>entry. \<not> matches entry) (keytab_file s)\<rparr>))"

definition build_principal_salts ::
  "world \<Rightarrow> adcli_enroll \<Rightarrow> krb5_principal \<Rightarrow> krb5_salt list" where
  "build_principal_salts w e princ =
     [Some (krb5_principal2salt w princ),
      Some (adcli_krb5_w2k3_salt w princ (computer_name e)),
      None]"

text \<open>
  Modelled from the spec: \<^verbatim>\<open>_adcli_krb5_keytab_discover_salt\<close> (library/adkrb5.c) goes
  through the candidate salts in order and, per candidate, through the enabled enctypes:
  it derives a key from the password, the salt and the enctype and attempts an AS-REQ as
  the principal at the kvno. The first salt with an accepted key is the one discovered;
  with none, the function fails. \<open>probe_salt\<close> is the inner loop, \<open>discover_salt_from\<close>
  the outer one, with the index of the candidate at hand.
\<close>

fun probe_salt ::
  "world \<Rightarrow> krb5_principal \<Rightarrow> krb5_kvno \<Rightarrow> octets \<Rightarrow> krb5_salt \<Rightarrow> krb5_enctype list \<Rightarrow> sys
   \<Rightarrow> bool \<times> sys" where
  "probe_salt w princ kv password salt [] s = (False, s)"
| "probe_salt w princ kv password salt (enctype # enctypes) s =
     (let key = krb5_c_string_to_key w enctype password salt;
          s1 = emit (AsReq princ kv enctype key) s
      in if as_req_accepted w princ kv enctype key then (True, s1)
         else probe_salt w princ kv password salt enctypes s1)"

fun discover_salt_from ::
  "world \<Rightarrow> krb5_principal \<Rightarrow> krb5_kvno \<Rightarrow> octets \<Rightarrow> krb5_enctype list \<Rightarrow> krb5_salt list \<Rightarrow> nat
   \<Rightarrow> sys \<Rightarrow> nat option \<times> sys" where
  "discover_salt_from w princ kv password enctypes [] i s = (None, s)"
| "discover_salt_from w princ kv password enctypes (salt # salts) i s =
     (case probe_salt w princ kv password salt enctypes s of
        (True, s1) \<Rightarrow> (Some i, s1)
      | (False, s1) \<Rightarrow> discover_salt_from w princ kv password enctypes salts (i + 1) s1)"

definition adcli_krb5_keytab_discover_salt ::
  "world \<Rightarrow> krb5_principal \<Rightarrow> krb5_kvno \<Rightarrow> octets \<Rightarrow> krb5_enctype list \<Rightarrow> krb5_salt list
   \<Rightarrow> sys \<Rightarrow> nat option \<times> sys" where
  "adcli_krb5_keytab_discover_salt w princ kv password enctypes salts s =
     discover_salt_from w princ kv password enctypes salts 0 s"

text \<open>
  Modelled from the spec: \<^verbatim>\<open>_adcli_krb5_keytab_add_entries\<close> (library/adkrb5.c) derives,
  for each enabled enctype in order, the key from the password and the salt and writes the
  keytab entry of the principal, the kvno, the enctype and the key; it stops with the error
  code of the first write that fails.
\<close>

fun adcli_krb5_keytab_add_entries ::
  "world \<Rightarrow> krb5_principal \<Rightarrow> krb5_kvno \<Rightarrow> octets \<Rightarrow> krb5_enctype list \<Rightarrow> krb5_salt \<Rightarrow> sys
   \<Rightarrow> krb5_error_code \<times> sys" where
  "adcli_krb5_keytab_add_entries w princ kv password [] salt s = (0, s)"
| "adcli_krb5_keytab_add_entries w princ kv password (enctype # enctypes) salt s =
     (let entry = \<lparr>principal = princ, vno = kv, key_enctype = enctype,
                    key_contents = krb5_c_string_to_key w enctype password salt\<rparr>;
          code = krb5_kt_add_entry w entry
      in if code \<noteq> 0 then (code, s)
         else adcli_krb5_keytab_add_entries w princ kv password enctypes salt
                (emit (KeytabAdd entry) (s\<lparr>keytab_file := keytab_file s @ [entry]\<rparr>)))"

text \<open>
  \<^verbatim>\<open>add_principal_to_keytab\<close>: \<open>which_salt\<close> is the \<^verbatim>\<open>int\<close> behind the pointer, returned
  with the result. A \<^verbatim>\<open>NULL\<close> keytab or password, and an index outside the three salts,
  are the stop.
\<close>

definition add_principal_to_keytab ::
  "world \<Rightarrow> krb5_principal \<Rightarrow> int \<Rightarrow> sys \<Rightarrow> (outcome \<times> int) \<times> sys" where
  "add_principal_to_keytab w princ which_salt s =
     (if keytab (enroll s) = None then ((Aborted, which_salt), s)
      else
        (case adcli_krb5_keytab_clear w princ
                (match_principal_and_kvno (kvno (enroll s)) princ)
                (emit (KeytabClear princ (kvno (enroll s))) s) of
           (code, s1) \<Rightarrow>
             if code \<noteq> 0 then ((Returned ADCLI_ERR_FAIL, which_salt), s1)
             else
               (case computer_password (enroll s1) of
                  None \<Rightarrow> ((Aborted, which_salt), s1)
                | Some password \<Rightarrow>
                    (let enctypes = adcli_enroll_get_keytab_enctypes (enroll s1);
                         salts = build_principal_salts w (enroll s1) princ
                     in case (if which_salt < 0
                              then (case adcli_krb5_keytab_discover_salt w princ
                                           (kvno (enroll s1)) password enctypes salts s1 of
                                      (None, s2) \<Rightarrow> (None, s2)
                                    | (Some i, s2) \<Rightarrow> (Some (int i), s2))
                              else (Some which_salt, s1)) of
                          (None, s2) \<Rightarrow> ((Returned ADCLI_ERR_DIRECTORY, which_salt), s2)
                        | (Some which, s2) \<Rightarrow>
                            if which < 0 \<or> int (length salts) \<le> which
                            then ((Aborted, which), s2)
                            else
                              (case adcli_krb5_keytab_add_entries w princ (kvno (enroll s2))
                                      password enctypes (salts ! nat which) s2 of
                                 (code2, s3) \<Rightarrow>
                                   if code2 \<noteq> 0 then ((Returned ADCLI_ERR_FAIL, which), s3)
                                   else ((Returned ADCLI_SUCCESS, which), s3))))))"

text \<open>The loop of \<^verbatim>\<open>update_keytab_for_principals\<close>.\<close>

fun update_keytab_loop ::
  "world \<Rightarrow> krb5_principal list \<Rightarrow> int \<Rightarrow> sys \<Rightarrow> outcome \<times> sys" where
  "update_keytab_loop w [] which_salt s = (Returned ADCLI_SUCCESS, s)"
| "update_keytab_loop w (princ # princs) which_salt s =
     (case add_principal_to_keytab w princ which_salt s of
        ((Returned ADCLI_SUCCESS, which), s1) \<Rightarrow> update_keytab_loop w princs which s1
      | ((res, which), s1) \<Rightarrow> (res, s1))"

definition update_keytab_for_principals :: "world \<Rightarrow> sys \<Rightarrow> outcome \<times> sys" where
  "update_keytab_for_principals w s =
     (case keytab_principals (enroll s) of
        None \<Rightarrow> (Aborted, s)
      | Some princs \<Rightarrow>
          if \<not> conn_krb5_context (conn s) then (Returned ADCLI_ERR_UNEXPECTED, s)
          else update_keytab_loop w princs (- 1) s)"

subsection \<open>The join\<close>

definition conn_discover :: "world \<Rightarrow> sys \<Rightarrow> outcome \<times> sys" where
  "conn_discover w s =
     (case adcli_conn_discover w (conn s) of (res, c) \<Rightarrow> (Returned res, s\<lparr>conn := c\<rparr>))"

definition conn_connect :: "world \<Rightarrow> sys \<Rightarrow> outcome \<times> sys" where
  "conn_connect w s =
     (case adcli_conn_connect w (conn s) of (res, c) \<Rightarrow> (Returned res, s\<lparr>conn := c\<rparr>))"

text \<open>The block of \<^verbatim>\<open>adcli_enroll_join\<close> that places the account, run when there is no DN.\<close>

definition place_computer_account :: "world \<Rightarrow> sys \<Rightarrow> outcome \<times> sys" where
  "place_computer_account w s =
     (if computer_dn (enroll s) = None then
        and_then
          (if preferred_ou (enroll s) \<noteq> None then validate_preferred_ou w
           else lookup_preferred_ou w)
          (and_then (lookup_computer_container w) calc_computer_account) s
      else (Returned ADCLI_SUCCESS, s))"

text \<open>
  The three updates whose results \<^verbatim>\<open>adcli_enroll_join\<close> drops, then the keytab unless
  the flag says otherwise.
\<close>

definition synchronize_and_write_keytab ::
  "world \<Rightarrow> adcli_enroll_flags \<Rightarrow> sys \<Rightarrow> outcome \<times> sys" where
  "synchronize_and_write_keytab w flags s =
     (case update_and_calculate_enctypes w s of
        (Aborted, s1) \<Rightarrow> (Aborted, s1)
      | (Returned r1, s1) \<Rightarrow>
          (case update_dns_host_name w s1 of
             (Aborted, s2) \<Rightarrow> (Aborted, s2)
           | (Returned r2, s2) \<Rightarrow>
               (case update_service_principals w s2 of
                  (Aborted, s3) \<Rightarrow> (Aborted, s3)
                | (Returned r3, s3) \<Rightarrow>
                    if ADCLI_ENROLL_NO_KEYTAB flags then (Returned ADCLI_SUCCESS, s3)
                    else update_keytab_for_principals w s3)))"

text \<open>
  The join up to and including \<^verbatim>\<open>retrieve_computer_account_info\<close>: every step returns
  from the join unless it succeeds.
\<close>

definition join_until_read_back ::
  "world \<Rightarrow> adcli_enroll_flags \<Rightarrow> sys \<Rightarrow> outcome \<times> sys" where
  "join_until_read_back w flags s =
     and_then (conn_discover w)
       (and_then (adcli_enroll_prepare w flags)
          (and_then (conn_connect w)
             (and_then (place_computer_account w)
                (and_then (create_or_update_computer_account w
                             (ADCLI_ENROLL_ALLOW_OVERWRITE flags))
                   (and_then (set_computer_password w)
                      (retrieve_computer_account_info w))))))
       (enroll_clear_state s)"


subsection \<open>Concrete scenarios\<close>

text \<open>A connection after discovery, and a system with a fresh context on it.\<close>

definition demo_conn :: adcli_conn where
  "demo_conn =
     \<lparr>conn_krb5_context = True, conn_ldap_connection = True, conn_login_ccache = True,
      conn_host_fqdn = Some ''host01.corp.example.com'',
      conn_domain_realm = ''CORP.EXAMPLE.COM'',
      conn_naming_context = Some ''DC=corp,DC=example,DC=com'',
      conn_login_type = ADCLI_LOGIN_USER_ACCOUNT\<rparr>"

definition fresh_sys :: sys where
  "fresh_sys =
     \<lparr>enroll = adcli_enroll_new, conn = demo_conn, keytab_file = [],
      random_octets = [], trace = []\<rparr>"

text \<open>Scenario S1: the host name is given, the computer name is not.\<close>

definition scenario_S1 :: sys where
  "scenario_S1 =
     fresh_sys\<lparr>enroll :=
       adcli_enroll_set_host_fqdn (Some ''host01.corp.example.com'') adcli_enroll_new\<rparr>"

text \<open>Scenario S2: a host name without a dot.\<close>

definition scenario_S2 :: sys where
  "scenario_S2 =
     fresh_sys\<lparr>enroll := adcli_enroll_set_host_fqdn (Some ''host01'') adcli_enroll_new\<rparr>"

text \<open>
  A world in which every collaborator answers with success: the account does not exist
  yet, the read-back reports key version 2, and the realm accepts only keys derived with
  the Windows 2003 salt.
\<close>

definition demo_string_to_key :: "krb5_enctype \<Rightarrow> octets \<Rightarrow> krb5_salt \<Rightarrow> octets" where
  "demo_string_to_key enctype password salt =
     (case salt of None \<Rightarrow> [] | Some str \<Rightarrow> map (\<lambda>c. of_nat (of_char c)) str)"

definition demo_read_back :: ldap_entry where
  "demo_read_back =
     \<lparr>entry_dn = ''CN=HOST01,CN=Computers,DC=corp,DC=example,DC=com'',
      entry_values = (\<lambda>attr. if attr = ''msDS-KeyVersionNumber'' then Some [''2''] else None)\<rparr>"

definition demo_world :: world where
  "demo_world =
     \<lparr>adcli_conn_discover = (\<lambda>c. (ADCLI_SUCCESS, c)),
      adcli_conn_connect = (\<lambda>c. (ADCLI_SUCCESS, c)),
      krb5_parse_name = (\<lambda>name. Some (Principal [name] [])),
      krb5_principal2salt = (\<lambda>p. ''C''),
      adcli_krb5_w2k3_salt = (\<lambda>p name. ''W''),
      krb5_c_string_to_key = demo_string_to_key,
      as_req_accepted = (\<lambda>p kv enctype key. key = [87]),
      krb5_kt_resolve = (\<lambda>name. 0),
      krb5_kt_default = 0,
      krb5_kt_get_name = (0, ''FILE:/etc/krb5.keytab''),
      adcli_krb5_keytab_clear_code = (\<lambda>p. 0),
      krb5_kt_add_entry = (\<lambda>entry. 0),
      krb5_set_password_using_ccache = (\<lambda>password p. (0, 0)),
      adcli_kinit_computer_creds = 0,
      krb5_change_password = (\<lambda>password. (0, 0)),
      ldap_compare_ext_s = (\<lambda>dn attr v. 6),
      ldap_search_ext_s =
        (\<lambda>base flt attrs.
           if attrs = [''objectClass'', ''sAMAccountName'', ''userAccountControl'']
           then (32, None)
           else if attrs = [''wellKnownObjects''] then (0, None)
           else (0, Some demo_read_back)),
      ldap_add_ext_s = (\<lambda>dn mods. 0),
      ldap_modify_ext_s = (\<lambda>dn mods. 0),
      adcli_ldap_have_mod = (\<lambda>m vals. list_all (\<lambda>v. v \<in> set vals) (mod_values m)),
      adcli_krb5_parse_enctypes = (\<lambda>v. None),
      adcli_krb5_format_enctypes = (\<lambda>enctypes. Some ''31''),
      adcli_calc_reset_password = (\<lambda>name. map (\<lambda>c. of_nat (of_char (char_down c))) name),
      strtoul = (\<lambda>str. if str = ''2'' then (2, []) else (0, str))\<rparr>"

text \<open>
  Scenario S6: the generator delivers the octets 0x1F, \<open>A\<close>, 0x7F, \<open>B\<close> and then 118
  times \<open>C\<close>.
\<close>

definition scenario_S6 :: sys where
  "scenario_S6 = fresh_sys\<lparr>random_octets := [31, 65, 127, 66] @ replicate 118 67\<rparr>"


definition demo_account :: ldap_entry where
  "demo_account =
     \<lparr>entry_dn = ''CN=HOST01,CN=Computers,DC=corp,DC=example,DC=com'',
      entry_values =
        (\<lambda>attr. if attr = ''objectClass''
                 then Some [''top'', ''person'', ''organizationalPerson'', ''user'', ''computer'']
               else if attr = ''sAMAccountName'' then Some [''HOST01$'']
               else if attr = ''userAccountControl'' then Some [''69632'']
               else None)\<rparr>"

definition demo_world_existing :: world where
  "demo_world_existing =
     demo_world\<lparr>ldap_search_ext_s := (\<lambda>base flt attrs. (0, Some demo_account))\<rparr>"

definition scenario_placed :: sys where
  "scenario_placed =
     fresh_sys\<lparr>enroll := adcli_enroll_new
       \<lparr>computer_name := Some ''HOST01'', computer_sam := Some ''HOST01$'',
        computer_dn := Some ''CN=HOST01,CN=Computers,DC=corp,DC=example,DC=com''\<rparr>\<rparr>"

definition demo_dn :: string where
  "demo_dn = ''CN=HOST01,CN=Computers,DC=corp,DC=example,DC=com''"

fun is_password_set :: "event \<Rightarrow> bool" where
  "is_password_set (Kpasswd password code result_code) = (code = 0 \<and> result_code = 0)"
| "is_password_set ev = False"

fun is_read_back :: "event \<Rightarrow> bool" where
  "is_read_back (LdapSearch dn flt attrs) = (flt = ''(objectClass=*)'' \<and> attrs = info_attrs)"
| "is_read_back ev = False"

fun is_keytab_write :: "event \<Rightarrow> bool" where
  "is_keytab_write (KeytabClear princ kv) = True"
| "is_keytab_write (KeytabAdd entry) = True"
| "is_keytab_write ev = False"

fun is_directory_setup :: "event \<Rightarrow> bool" where
  "is_directory_setup (LdapCompare dn attr v) = True"
| "is_directory_setup (LdapSearch dn flt attrs) = (attrs \<noteq> info_attrs)"
| "is_directory_setup (LdapAdd dn mods) = True"
| "is_directory_setup (LdapModify dn mods) = True"
| "is_directory_setup ev = False"

fun is_modify :: "event \<Rightarrow> bool" where
  "is_modify (LdapModify dn mods) = True"
| "is_modify ev = False"

definition logs :: "(event \<Rightarrow> bool) \<Rightarrow> sys \<Rightarrow> sys \<Rightarrow> bool" where
  "logs P s s' \<longleftrightarrow> (\<exists>evs. trace s' = trace s @ evs \<and> list_all P evs)"

fun keytab_event :: "krb5_kvno \<Rightarrow> event \<Rightarrow> bool" where
  "keytab_event kv (KeytabClear princ k) = (k = kv)"
| "keytab_event kv (AsReq princ k enctype key) = (k = kv)"
| "keytab_event kv (KeytabAdd entry) = (vno entry = kv)"
| "keytab_event kv ev = False"

definition unprepared :: "adcli_enroll \<Rightarrow> adcli_enroll" where
  "unprepared e =
     e\<lparr>host_fqdn := None, computer_name := None, computer_sam := None,
       computer_password := None, computer_principal := None,
       service_names := None, service_principals := None,
       keytab_name := None, keytab_name_is_krb5 := False, keytab := None,
       keytab_principals := None\<rparr>"

text \<open>Whether the realm accepts, for some enabled enctype, the key derived with a salt.\<close>

definition salt_accepted ::
  "world \<Rightarrow> krb5_principal \<Rightarrow> krb5_kvno \<Rightarrow> octets \<Rightarrow> krb5_enctype list \<Rightarrow> krb5_salt \<Rightarrow> bool" where
  "salt_accepted w princ kv password enctypes salt =
     list_ex (\<lambda>enctype. as_req_accepted w princ kv enctype
                (krb5_c_string_to_key w enctype password salt)) enctypes"

text \<open>The entry written for a principal and an enctype.\<close>

definition new_entry ::
  "world \<Rightarrow> krb5_principal \<Rightarrow> krb5_kvno \<Rightarrow> octets \<Rightarrow> krb5_salt \<Rightarrow> krb5_enctype \<Rightarrow> krb5_keytab_entry" where
  "new_entry w princ kv password salt enctype =
     \<lparr>principal = princ, vno = kv, key_enctype = enctype,
      key_contents = krb5_c_string_to_key w enctype password salt\<rparr>"

definition unplaced :: "adcli_enroll \<Rightarrow> adcli_enroll" where
  "unplaced e =
     e\<lparr>preferred_ou := None, preferred_ou_validated := False,
       computer_container := None, computer_dn := None\<rparr>"


text \<open>Host names with a dot in the wrong place, and a context without a host name.\<close>

definition scenario_leading_dot :: sys where
  "scenario_leading_dot =
     fresh_sys\<lparr>enroll := adcli_enroll_set_host_fqdn (Some ''.corp.example.com'') adcli_enroll_new\<rparr>"

definition scenario_trailing_dot :: sys where
  "scenario_trailing_dot =
     fresh_sys\<lparr>enroll := adcli_enroll_set_host_fqdn (Some ''host01.'') adcli_enroll_new\<rparr>"

definition scenario_no_fqdn :: sys where
  "scenario_no_fqdn = fresh_sys\<lparr>enroll := adcli_enroll_set_host_fqdn None adcli_enroll_new\<rparr>"



text \<open>
  An existing account whose \<^verbatim>\<open>userAccountControl\<close> differs from the one the engine
  wants, and a directory that fails the read of the account.
\<close>

definition demo_account_diverging :: ldap_entry where
  "demo_account_diverging =
     \<lparr>entry_dn = ''CN=HOST01,CN=Computers,DC=corp,DC=example,DC=com'',
      entry_values =
        (\<lambda>attr. if attr = ''objectClass''
                 then Some [''top'', ''person'', ''organizationalPerson'', ''user'', ''computer'']
               else if attr = ''sAMAccountName'' then Some [''HOST01$'']
               else if attr = ''userAccountControl'' then Some [''4096'']
               else None)\<rparr>"

definition demo_world_diverging :: world where
  "demo_world_diverging =
     demo_world\<lparr>ldap_search_ext_s := (\<lambda>base flt attrs. (0, Some demo_account_diverging))\<rparr>"

definition demo_world_unreachable :: world where
  "demo_world_unreachable =
     demo_world\<lparr>ldap_search_ext_s := (\<lambda>base flt attrs. (52, None))\<rparr>"

text \<open>
  The salt discovery in the claim's words. \<open>probes_with_salt\<close> are the AS-REQs for one
  candidate: one per enabled enctype, in order, up to and including the first that the
  realm accepts. \<open>first_accepted\<close> is the index of the first candidate accepted for some
  enctype (the number of candidates when there is none), and \<open>discovery_probes\<close> are the
  AS-REQs of the candidates up to and including that one.
\<close>

definition probes_with_salt ::
  "world \<Rightarrow> krb5_principal \<Rightarrow> krb5_kvno \<Rightarrow> octets \<Rightarrow> krb5_enctype list \<Rightarrow> krb5_salt \<Rightarrow> event list" where
  "probes_with_salt w princ kv password enctypes salt =
     map (\<lambda>enctype. AsReq princ kv enctype (krb5_c_string_to_key w enctype password salt))
       (take (Suc (length (takeWhile
          (\<lambda>enctype. \<not> as_req_accepted w princ kv enctype
                         (krb5_c_string_to_key w enctype password salt)) enctypes)))
          enctypes)"

definition first_accepted ::
  "world \<Rightarrow> krb5_principal \<Rightarrow> krb5_kvno \<Rightarrow> octets \<Rightarrow> krb5_enctype list \<Rightarrow> krb5_salt list \<Rightarrow> nat" where
  "first_accepted w princ kv password enctypes salts =
     length (takeWhile (\<lambda>salt. \<not> salt_accepted w princ kv password enctypes salt) salts)"

definition discovery_probes ::
  "world \<Rightarrow> krb5_principal \<Rightarrow> krb5_kvno \<Rightarrow> octets \<Rightarrow> krb5_enctype list \<Rightarrow> krb5_salt list
   \<Rightarrow> event list" where
  "discovery_probes w princ kv password enctypes salts =
     concat (map (probes_with_salt w princ kv password enctypes)
               (take (Suc (first_accepted w princ kv password enctypes salts)) salts))"

text \<open>
  A context ready for the keytab update: two principals, two enabled enctypes, the key
  version 2. And a realm that accepts no key.
\<close>

definition scenario_keytab :: sys where
  "scenario_keytab =
     fresh_sys\<lparr>enroll := adcli_enroll_new
       \<lparr>computer_name := Some ''HOST01'', computer_password := Some [65, 66], kvno := 2,
        keytab := Some Default_Keytab,
        keytab_principals := Some [Principal [''HOST01$''] ''CORP.EXAMPLE.COM'',
          Principal [''HOST'', ''host01.corp.example.com''] ''CORP.EXAMPLE.COM''],
        keytab_enctypes := Some [18, 23]\<rparr>\<rparr>"

definition demo_world_rejecting :: world where
  "demo_world_rejecting = demo_world\<lparr>as_req_accepted := (\<lambda>p kv enctype key. False)\<rparr>"

text \<open>What the parameter resolver leaves as it is.\<close>

definition outside_prepare ::
  "sys \<Rightarrow> adcli_enroll \<times> adcli_conn \<times> krb5_keytab_entry list \<times> event list" where
  "outside_prepare s = (unprepared (enroll s), conn s, keytab_file s, trace s)"



section \<open>Properties\<close>

subsection \<open>Deriving the computer name\<close>

lemma strchr_Some:
  "strchr str c = Some d \<Longrightarrow> d < length str \<and> str ! d = c \<and> c \<notin> set (take d str)"
proof -
  assume a: "strchr str c = Some d"
  then have m: "c \<in> set str" and d: "d = length (takeWhile (\<lambda>x. x \<noteq> c) str)"
    by (auto simp: strchr_def split: if_splits)
  have "takeWhile (\<lambda>x. x \<noteq> c) str \<noteq> str"
    using m by (simp add: takeWhile_eq_all_conv)
  then have "length (takeWhile (\<lambda>x. x \<noteq> c) str) \<noteq> length str"
    by (metis takeWhile_eq_take take_all order_refl)
  then have lt: "d < length str"
    unfolding d using length_takeWhile_le [of "\<lambda>x. x \<noteq> c" str] by linarith
  have "\<not> (str ! d \<noteq> c)"
    unfolding d using lt d by (intro nth_length_takeWhile) simp
  moreover have "take d str = takeWhile (\<lambda>x. x \<noteq> c) str"
    unfolding d by (rule takeWhile_eq_take [symmetric])
  moreover have "c \<notin> set (takeWhile (\<lambda>x. x \<noteq> c) str)"
    using set_takeWhileD by fastforce
  ultimately show ?thesis using lt by simp
qed

lemma strchr_first:
  assumes "c \<notin> set label"
  shows "strchr (label @ c # rest) c = Some (length label)"
proof -
  have "takeWhile (\<lambda>x. x \<noteq> c) (label @ c # rest) =
      label @ takeWhile (\<lambda>x. x \<noteq> c) (c # rest)"
    by (rule takeWhile_append2) (use assms in auto)
  then show ?thesis by (simp add: strchr_def)
qed

lemma strchr_None: "strchr str c = None \<longleftrightarrow> c \<notin> set str"
  by (simp add: strchr_def)

lemma strchr_label:
  "c \<in> set str \<Longrightarrow> strchr str c = Some (length (takeWhile (\<lambda>x. x \<noteq> c) str))"
  by (simp add: strchr_def)

lemma first_dot_is_first:
  "c \<in> set str \<Longrightarrow> length (takeWhile (\<lambda>x. x \<noteq> c) str) = 0 \<longleftrightarrow> hd str = c"
  by (cases str) auto

lemma first_dot_is_last:
  assumes "c \<in> set str"
  shows "length (takeWhile (\<lambda>x. x \<noteq> c) str) + 1 = length str \<longleftrightarrow>
         takeWhile (\<lambda>x. x \<noteq> c) str @ [c] = str"
proof
  assume "takeWhile (\<lambda>x. x \<noteq> c) str @ [c] = str"
  then have "length (takeWhile (\<lambda>x. x \<noteq> c) str @ [c]) = length str" by simp
  then show "length (takeWhile (\<lambda>x. x \<noteq> c) str) + 1 = length str" by simp
next
  assume l: "length (takeWhile (\<lambda>x. x \<noteq> c) str) + 1 = length str"
  have d: "dropWhile (\<lambda>x. x \<noteq> c) str \<noteq> []" using assms by auto
  then have h: "hd (dropWhile (\<lambda>x. x \<noteq> c) str) = c"
    using hd_dropWhile [of "\<lambda>x. x \<noteq> c" str] by simp
  have "length (takeWhile (\<lambda>x. x \<noteq> c) str) + length (dropWhile (\<lambda>x. x \<noteq> c) str) = length str"
    using takeWhile_dropWhile_id [of "\<lambda>x. x \<noteq> c" str]
    by (metis length_append)
  then have "length (dropWhile (\<lambda>x. x \<noteq> c) str) = 1" using l by linarith
  then have "dropWhile (\<lambda>x. x \<noteq> c) str = [c]"
    using h by (cases "dropWhile (\<lambda>x. x \<noteq> c) str") auto
  then show "takeWhile (\<lambda>x. x \<noteq> c) str @ [c] = str"
    using takeWhile_dropWhile_id [of "\<lambda>x. x \<noteq> c" str] by simp
qed

text \<open>
  Claim C6. With no computer name supplied, \<^verbatim>\<open>ensure_computer_name\<close> looks at the first
  dot of the host name only. It fails with the CONFIG kind, and leaves the context as it
  is, when there is no host name, when the host name has no dot, when the host name starts
  with a dot (whatever follows), and when its first dot is its last character; so it fails
  whenever every dot of the host name is its first or its last character. In every other
  case it succeeds and the computer name becomes the label before the first dot, in upper
  case. A name that is there already is left as it is.
\<close>

theorem ensure_computer_name_from_fqdn:
  "(computer_name (enroll s) = None \<longrightarrow>
      ensure_computer_name ADCLI_SUCCESS s =
        (case host_fqdn (enroll s) of
           None \<Rightarrow> (Returned ADCLI_ERR_CONFIG, s)
         | Some fqdn \<Rightarrow>
             if CHR ''.'' \<notin> set fqdn \<or> hd fqdn = CHR ''.'' \<or>
                takeWhile (\<lambda>c. c \<noteq> CHR ''.'') fqdn @ ''.'' = fqdn
             then (Returned ADCLI_ERR_CONFIG, s)
             else (Returned ADCLI_SUCCESS,
                   s\<lparr>enroll := (enroll s)\<lparr>computer_name :=
                     Some (adcli_str_up (takeWhile (\<lambda>c. c \<noteq> CHR ''.'') fqdn))\<rparr>\<rparr>))) \<and>
   (\<forall>fqdn. computer_name (enroll s) = None \<and> host_fqdn (enroll s) = Some fqdn \<and>
        (\<forall>i < length fqdn. fqdn ! i = CHR ''.'' \<longrightarrow> i = 0 \<or> Suc i = length fqdn) \<longrightarrow>
      ensure_computer_name ADCLI_SUCCESS s = (Returned ADCLI_ERR_CONFIG, s)) \<and>
   (\<forall>rest. computer_name (enroll s) = None \<and> host_fqdn (enroll s) = Some (''.'' @ rest) \<longrightarrow>
      ensure_computer_name ADCLI_SUCCESS s = (Returned ADCLI_ERR_CONFIG, s)) \<and>
   (\<forall>label. computer_name (enroll s) = None \<and> host_fqdn (enroll s) = Some (label @ ''.'') \<and>
        CHR ''.'' \<notin> set label \<longrightarrow>
      ensure_computer_name ADCLI_SUCCESS s = (Returned ADCLI_ERR_CONFIG, s)) \<and>
   (\<forall>label rest. computer_name (enroll s) = None \<and>
        host_fqdn (enroll s) = Some (label @ ''.'' @ rest) \<and>
        CHR ''.'' \<notin> set label \<and> label \<noteq> [] \<and> rest \<noteq> [] \<longrightarrow>
      ensure_computer_name ADCLI_SUCCESS s =
        (Returned ADCLI_SUCCESS,
         s\<lparr>enroll := (enroll s)\<lparr>computer_name := Some (adcli_str_up label)\<rparr>\<rparr>)) \<and>
   (computer_name (enroll s) \<noteq> None \<longrightarrow>
      ensure_computer_name ADCLI_SUCCESS s = (Returned ADCLI_SUCCESS, s))"
proof -
  let ?dot = "CHR ''.''"
  have exact: "computer_name (enroll s) = None \<longrightarrow>
      ensure_computer_name ADCLI_SUCCESS s =
        (case host_fqdn (enroll s) of
           None \<Rightarrow> (Returned ADCLI_ERR_CONFIG, s)
         | Some fqdn \<Rightarrow>
             if ?dot \<notin> set fqdn \<or> hd fqdn = ?dot \<or>
                takeWhile (\<lambda>c. c \<noteq> ?dot) fqdn @ ''.'' = fqdn
             then (Returned ADCLI_ERR_CONFIG, s)
             else (Returned ADCLI_SUCCESS,
                   s\<lparr>enroll := (enroll s)\<lparr>computer_name :=
                     Some (adcli_str_up (takeWhile (\<lambda>c. c \<noteq> ?dot) fqdn))\<rparr>\<rparr>))"
  proof
    assume n: "computer_name (enroll s) = None"
    show "ensure_computer_name ADCLI_SUCCESS s =
        (case host_fqdn (enroll s) of
           None \<Rightarrow> (Returned ADCLI_ERR_CONFIG, s)
         | Some fqdn \<Rightarrow>
             if ?dot \<notin> set fqdn \<or> hd fqdn = ?dot \<or>
                takeWhile (\<lambda>c. c \<noteq> ?dot) fqdn @ ''.'' = fqdn
             then (Returned ADCLI_ERR_CONFIG, s)
             else (Returned ADCLI_SUCCESS,
                   s\<lparr>enroll := (enroll s)\<lparr>computer_name :=
                     Some (adcli_str_up (takeWhile (\<lambda>c. c \<noteq> ?dot) fqdn))\<rparr>\<rparr>))"
    proof (cases "host_fqdn (enroll s)")
      case None
      then show ?thesis using n by (simp add: ensure_computer_name_def)
    next
      case (Some fqdn)
      show ?thesis
      proof (cases "?dot \<in> set fqdn")
        case False
        then have "strchr fqdn ?dot = None" by (simp add: strchr_None)
        then show ?thesis using n Some False by (simp add: ensure_computer_name_def)
      next
        case True
        note sc = strchr_label [OF True]
        note a = first_dot_is_first [OF True]
        note b = first_dot_is_last [OF True]
        have t: "take (length (takeWhile (\<lambda>c. c \<noteq> ?dot) fqdn)) fqdn =
            takeWhile (\<lambda>c. c \<noteq> ?dot) fqdn"
          by (rule takeWhile_eq_take [symmetric])
        show ?thesis
          using n Some True sc a b t
          by (simp add: ensure_computer_name_def del: length_0_conv)
      qed
    qed
  qed
  have nodot: "\<forall>fqdn. computer_name (enroll s) = None \<and> host_fqdn (enroll s) = Some fqdn \<and>
        (\<forall>i < length fqdn. fqdn ! i = ?dot \<longrightarrow> i = 0 \<or> Suc i = length fqdn) \<longrightarrow>
      ensure_computer_name ADCLI_SUCCESS s = (Returned ADCLI_ERR_CONFIG, s)"
  proof (intro allI impI)
    fix fqdn
    assume h: "computer_name (enroll s) = None \<and> host_fqdn (enroll s) = Some fqdn \<and>
        (\<forall>i < length fqdn. fqdn ! i = ?dot \<longrightarrow> i = 0 \<or> Suc i = length fqdn)"
    show "ensure_computer_name ADCLI_SUCCESS s = (Returned ADCLI_ERR_CONFIG, s)"
    proof (cases "strchr fqdn ?dot")
      case None
      then show ?thesis using h by (simp add: ensure_computer_name_def)
    next
      case (Some d)
      from strchr_Some [OF Some] h have "d = 0 \<or> Suc d = length fqdn" by blast
      then show ?thesis using h Some by (auto simp: ensure_computer_name_def)
    qed
  qed
  have leading: "\<forall>rest. computer_name (enroll s) = None \<and>
        host_fqdn (enroll s) = Some (''.'' @ rest) \<longrightarrow>
      ensure_computer_name ADCLI_SUCCESS s = (Returned ADCLI_ERR_CONFIG, s)"
    using exact by simp
  have trailing: "\<forall>label. computer_name (enroll s) = None \<and>
        host_fqdn (enroll s) = Some (label @ ''.'') \<and> ?dot \<notin> set label \<longrightarrow>
      ensure_computer_name ADCLI_SUCCESS s = (Returned ADCLI_ERR_CONFIG, s)"
  proof (intro allI impI)
    fix label
    assume h: "computer_name (enroll s) = None \<and>
      host_fqdn (enroll s) = Some (label @ ''.'') \<and> ?dot \<notin> set label"
    then have "strchr (label @ ?dot # []) ?dot = Some (length label)"
      by (intro strchr_first) simp
    then show "ensure_computer_name ADCLI_SUCCESS s = (Returned ADCLI_ERR_CONFIG, s)"
      using h by (simp add: ensure_computer_name_def)
  qed
  have interior: "\<forall>label rest. computer_name (enroll s) = None \<and>
        host_fqdn (enroll s) = Some (label @ ''.'' @ rest) \<and>
        ?dot \<notin> set label \<and> label \<noteq> [] \<and> rest \<noteq> [] \<longrightarrow>
      ensure_computer_name ADCLI_SUCCESS s =
        (Returned ADCLI_SUCCESS,
         s\<lparr>enroll := (enroll s)\<lparr>computer_name := Some (adcli_str_up label)\<rparr>\<rparr>)"
  proof (intro allI impI)
    fix label rest
    assume h: "computer_name (enroll s) = None \<and>
        host_fqdn (enroll s) = Some (label @ ''.'' @ rest) \<and>
        ?dot \<notin> set label \<and> label \<noteq> [] \<and> rest \<noteq> []"
    then have "strchr (label @ ''.'' @ rest) ?dot = Some (length label)"
      using strchr_first [of ?dot label rest] by simp
    then show "ensure_computer_name ADCLI_SUCCESS s =
        (Returned ADCLI_SUCCESS,
         s\<lparr>enroll := (enroll s)\<lparr>computer_name := Some (adcli_str_up label)\<rparr>\<rparr>)"
      using h by (simp add: ensure_computer_name_def)
  qed
  have supplied: "computer_name (enroll s) \<noteq> None \<longrightarrow>
      ensure_computer_name ADCLI_SUCCESS s = (Returned ADCLI_SUCCESS, s)"
    by (simp add: ensure_computer_name_def)
  from exact nodot leading trailing interior supplied show ?thesis
    by (intro conjI)
qed

lemma str_up_host01: "adcli_str_up ''host01'' = ''HOST01''"
  by code_simp

theorem ensure_computer_name_from_fqdn_witness:
  "computer_name (enroll scenario_S1) = None \<and>
   ensure_computer_name ADCLI_SUCCESS scenario_S1 =
     (Returned ADCLI_SUCCESS,
      scenario_S1\<lparr>enroll := (enroll scenario_S1)\<lparr>computer_name := Some ''HOST01''\<rparr>\<rparr>) \<and>
   computer_name (enroll scenario_S2) = None \<and>
   ensure_computer_name ADCLI_SUCCESS scenario_S2 = (Returned ADCLI_ERR_CONFIG, scenario_S2) \<and>
   computer_name (enroll scenario_leading_dot) = None \<and>
   host_fqdn (enroll scenario_leading_dot) = Some ''.corp.example.com'' \<and>
   ensure_computer_name ADCLI_SUCCESS scenario_leading_dot =
     (Returned ADCLI_ERR_CONFIG, scenario_leading_dot) \<and>
   computer_name (enroll scenario_trailing_dot) = None \<and>
   host_fqdn (enroll scenario_trailing_dot) = Some ''host01.'' \<and>
   ensure_computer_name ADCLI_SUCCESS scenario_trailing_dot =
     (Returned ADCLI_ERR_CONFIG, scenario_trailing_dot) \<and>
   computer_name (enroll scenario_no_fqdn) = None \<and>
   host_fqdn (enroll scenario_no_fqdn) = None \<and>
   ensure_computer_name ADCLI_SUCCESS scenario_no_fqdn =
     (Returned ADCLI_ERR_CONFIG, scenario_no_fqdn)"
proof -
  have n1: "computer_name (enroll scenario_S1) = None"
    by (simp add: scenario_S1_def adcli_enroll_set_host_fqdn_def adcli_enroll_new_def)
  have h1: "host_fqdn (enroll scenario_S1) = Some (''host01'' @ ''.'' @ ''corp.example.com'')"
    by (simp add: scenario_S1_def adcli_enroll_set_host_fqdn_def)
  have r1: "ensure_computer_name ADCLI_SUCCESS scenario_S1 =
      (Returned ADCLI_SUCCESS,
       scenario_S1\<lparr>enroll := (enroll scenario_S1)\<lparr>computer_name :=
         Some (adcli_str_up ''host01'')\<rparr>\<rparr>)"
    using ensure_computer_name_from_fqdn [of scenario_S1] n1 h1 by simp
  have n2: "computer_name (enroll scenario_S2) = None"
    by (simp add: scenario_S2_def adcli_enroll_set_host_fqdn_def adcli_enroll_new_def)
  have h2: "host_fqdn (enroll scenario_S2) = Some ''host01''"
    by (simp add: scenario_S2_def adcli_enroll_set_host_fqdn_def)
  have d2: "\<forall>i < length ''host01''. ''host01'' ! i = CHR ''.'' \<longrightarrow> i = 0 \<or> Suc i = length ''host01''"
    by (simp add: nth_Cons' less_Suc_eq)
  have r2: "ensure_computer_name ADCLI_SUCCESS scenario_S2 = (Returned ADCLI_ERR_CONFIG, scenario_S2)"
    using ensure_computer_name_from_fqdn [of scenario_S2] n2 h2 d2 by blast
  have n3: "computer_name (enroll scenario_leading_dot) = None"
    by (simp add: scenario_leading_dot_def adcli_enroll_set_host_fqdn_def adcli_enroll_new_def)
  have h3: "host_fqdn (enroll scenario_leading_dot) = Some (''.'' @ ''corp.example.com'')"
    by (simp add: scenario_leading_dot_def adcli_enroll_set_host_fqdn_def)
  have r3: "ensure_computer_name ADCLI_SUCCESS scenario_leading_dot =
      (Returned ADCLI_ERR_CONFIG, scenario_leading_dot)"
    using ensure_computer_name_from_fqdn [of scenario_leading_dot] n3 h3 by blast
  have n4: "computer_name (enroll scenario_trailing_dot) = None"
    by (simp add: scenario_trailing_dot_def adcli_enroll_set_host_fqdn_def adcli_enroll_new_def)
  have h4: "host_fqdn (enroll scenario_trailing_dot) = Some (''host01'' @ ''.'')"
    by (simp add: scenario_trailing_dot_def adcli_enroll_set_host_fqdn_def)
  have d4: "CHR ''.'' \<notin> set ''host01''" by simp
  have r4: "ensure_computer_name ADCLI_SUCCESS scenario_trailing_dot =
      (Returned ADCLI_ERR_CONFIG, scenario_trailing_dot)"
    using ensure_computer_name_from_fqdn [of scenario_trailing_dot] n4 h4 d4 by blast
  have n5: "computer_name (enroll scenario_no_fqdn) = None"
    by (simp add: scenario_no_fqdn_def adcli_enroll_set_host_fqdn_def adcli_enroll_new_def)
  have h5: "host_fqdn (enroll scenario_no_fqdn) = None"
    by (simp add: scenario_no_fqdn_def adcli_enroll_set_host_fqdn_def)
  have r5: "ensure_computer_name ADCLI_SUCCESS scenario_no_fqdn =
      (Returned ADCLI_ERR_CONFIG, scenario_no_fqdn)"
    using ensure_computer_name_from_fqdn [of scenario_no_fqdn] n5 h5 by simp
  show ?thesis
    using n1 r1 n2 r2 n3 h3 r3 n4 h4 r4 n5 h5 r5 by (simp add: str_up_host01)
qed

subsection \<open>The generated password\<close>

lemma sint_char: "sint (c :: 8 word) = (uint c + 128) mod 256 - 128"
  by (simp add: sint_uint signed_take_bit_eq_take_bit_shift take_bit_eq_mod)

lemma valid_password_char_unat:
  "valid_password_char c = (32 \<le> unat c \<and> unat c \<le> 122)"
proof -
  have b: "0 \<le> uint c" "uint c < 256"
    using uint_lt2p [of c] by simp_all
  have u: "int (unat c) = uint c" by simp
  show ?thesis
  proof (cases "uint c < 128")
    case True
    then have "(uint c + 128) mod 256 = uint c + 128"
      using b by (simp add: mod_pos_pos_trivial)
    then have "sint c = uint c" by (simp add: sint_char)
    then show ?thesis
      unfolding valid_password_char_def using u by linarith
  next
    case False
    then have "(uint c + 128) mod 256 = uint c - 128"
      using b by (simp add: mod_pos_geq mod_pos_pos_trivial)
    then have "sint c = uint c - 256" by (simp add: sint_char)
    then show ?thesis
      unfolding valid_password_char_def using u b False by linarith
  qed
qed

lemma filter_password_loop_spec:
  "j \<le> i \<Longrightarrow> i \<le> len \<Longrightarrow> len \<le> length p \<Longrightarrow>
   filter_password_loop p len i j = (p', j') \<Longrightarrow>
   j' = j + length (filter valid_password_char (take (len - i) (drop i p))) \<and>
   take j' p' = take j p @ filter valid_password_char (take (len - i) (drop i p)) \<and>
   length p' = length p"
proof (induction p len i j arbitrary: p' j' rule: filter_password_loop.induct)
  case (1 password len i j)
  show ?case
  proof (cases "i < len")
    case False
    with "1.prems" show ?thesis by (simp add: filter_password_loop.simps)
  next
    case True
    then have split: "take (len - i) (drop i password) =
        password ! i # take (len - Suc i) (drop (Suc i) password)"
      using "1.prems"
      by (metis Cons_nth_drop_Suc Suc_diff_Suc less_le_trans take_Suc_Cons)
    show ?thesis
    proof (cases "valid_password_char (password ! i)")
      case v: True
      let ?q = "password[j := password ! i]"
      have run: "filter_password_loop ?q len (i + 1) (j + 1) = (p', j')"
        using "1.prems"(4) True v by (simp add: filter_password_loop.simps [of password])
      have a: "j + 1 \<le> i + 1" "i + 1 \<le> len" "len \<le> length ?q"
        using "1.prems"(1,2,3) True by simp_all
      note ih = "1.IH"(1) [OF True v a run]
      have d: "drop (Suc i) ?q = drop (Suc i) password"
        using "1.prems"(1) by (simp add: drop_update_cancel)
      have jl: "j < length password"
        using "1.prems"(1,2,3) True by simp
      have t: "take (Suc j) ?q = take j password @ [password ! i]"
        using jl by (simp add: take_Suc_conv_app_nth)
      show ?thesis using ih v by (auto simp: d t split)
    next
      case nv: False
      have run: "filter_password_loop password len (i + 1) j = (p', j')"
        using "1.prems"(4) True nv by (simp add: filter_password_loop.simps [of password])
      have a: "j \<le> i + 1" "i + 1 \<le> len" "len \<le> length password"
        using "1.prems"(1,2,3) True by simp_all
      note ih = "1.IH"(2) [OF True nv a run]
      show ?thesis using ih nv by (auto simp: split)
    qed
  qed
qed


lemma filter_password_chars_spec:
  assumes "len \<le> length buf" and "filter_password_chars buf len = (f, n)"
  shows "n = length (filter valid_password_char (take len buf))"
    and "take n f = filter valid_password_char (take len buf)"
    and "length f = length buf"
proof -
  have run: "filter_password_loop buf len 0 0 = (f, n)"
    using assms(2) unfolding filter_password_chars_def .
  have z: "(0::nat) \<le> 0" "0 \<le> len" by simp_all
  note r = filter_password_loop_spec [OF z assms(1) run, simplified]
  show "n = length (filter valid_password_char (take len buf))"
    and "take n f = filter valid_password_char (take len buf)"
    and "length f = length buf"
    using r by blast+
qed

lemma generate_host_password_loop_spec:
  "at \<le> len \<Longrightarrow> length password = len + 1 \<Longrightarrow>
   fst (generate_host_password_loop password len at s) =
     (if len - at \<le> length (filter valid_password_char (random_octets s))
      then Password (take at password
                     @ take (len - at) (filter valid_password_char (random_octets s)) @ [0])
      else Password_NULL)"
proof (induction password len at s rule: generate_host_password_loop.induct)
  case (1 password len at s)
  let ?pool = "random_octets s"
  let ?n = "len - at"
  show ?case
  proof (cases "at = len")
    case True
    have "password[len := 0] = take len password @ [0]"
      using "1.prems"(2) by (simp add: upd_conv_take_nth_drop)
    then show ?thesis using True
      by (simp add: generate_host_password_loop.simps [of password])
  next
    case False
    then have lt: "at < len" using "1.prems"(1) by simp
    show ?thesis
    proof (cases "length ?pool < ?n")
      case True
      have "\<not> ?n \<le> length (filter valid_password_char ?pool)"
        using length_filter_le [of valid_password_char ?pool] True by linarith
      then show ?thesis using False lt True
        by (simp add: generate_host_password_loop.simps [of password]
            krb5_c_random_make_octets_def)
    next
      case enough: False
      let ?buffer = "take ?n ?pool"
      let ?s1 = "s\<lparr>random_octets := drop ?n ?pool\<rparr>"
      obtain filtered k where f: "filter_password_chars ?buffer ?n = (filtered, k)"
        by (cases "filter_password_chars ?buffer ?n")
      have lb: "?n \<le> length ?buffer" using enough by simp
      note fs = filter_password_chars_spec [OF lb f]
      have k: "k = length (filter valid_password_char ?buffer)" using fs(1) by simp
      have tk: "take k filtered = filter valid_password_char ?buffer" using fs(2) by simp
      have lf: "length filtered = ?n" using fs(3) enough by simp
      have kn: "k \<le> ?n"
        using length_filter_le [of valid_password_char ?buffer] k enough by simp
      let ?password1 = "take at password @ filtered @ drop len password"
      have rnd: "krb5_c_random_make_octets ?n s = Some (?buffer, ?s1)"
        using enough by (simp add: krb5_c_random_make_octets_def)
      have step: "generate_host_password_loop password len at s =
          generate_host_password_loop ?password1 len (at + k) ?s1"
        using False lt rnd f
        by (simp add: generate_host_password_loop.simps [of password])
      have a1: "at + k \<le> len" using kn lt by simp
      have a2: "length ?password1 = len + 1"
        using "1.prems" lf lt by simp
      have nl: "\<not> len < at" using lt by simp
      have ih: "fst (generate_host_password_loop ?password1 len (at + k) ?s1) =
         (if len - (at + k) \<le> length (filter valid_password_char (random_octets ?s1))
          then Password (take (at + k) ?password1
                 @ take (len - (at + k)) (filter valid_password_char (random_octets ?s1)) @ [0])
          else Password_NULL)"
        by (rule "1.IH" [OF False nl rnd refl f [symmetric] a1 a2])
      have v: "filter valid_password_char ?pool =
          filter valid_password_char ?buffer @ filter valid_password_char (drop ?n ?pool)"
        by (simp flip: filter_append)
      have t1: "take (at + k) ?password1 = take at password @ filter valid_password_char ?buffer"
        using "1.prems" lt tk kn lf by simp
      have c: "(?n \<le> length (filter valid_password_char ?pool)) =
          (len - (at + k) \<le> length (filter valid_password_char (drop ?n ?pool)))"
        using kn k v by (simp add: v) arith
      have t2: "take ?n (filter valid_password_char ?pool) =
          filter valid_password_char ?buffer
          @ take (len - (at + k)) (filter valid_password_char (drop ?n ?pool))"
        using k kn by (simp add: v)
      show ?thesis
        unfolding step ih using c t1 t2 by simp
    qed
  qed
qed


lemma valid_password_char_eq:
  "valid_password_char = (\<lambda>c. 32 \<le> unat c \<and> unat c \<le> 122)"
  by (rule ext) (rule valid_password_char_unat)

lemma c_string_terminated:
  assumes "\<forall>c \<in> set pw. valid_password_char c"
  shows "c_string (pw @ [0]) = pw"
proof -
  have "\<forall>c \<in> set pw. c \<noteq> 0"
    using assms by (auto simp: valid_password_char_def)
  then have "takeWhile (\<lambda>c. c \<noteq> 0) (pw @ [0]) = pw @ takeWhile (\<lambda>c. c \<noteq> 0) [0]"
    by (intro takeWhile_append2) simp
  then show ?thesis by (simp add: c_string_def)
qed

lemma generate_host_password_spec:
  "fst (generate_host_password len s) =
     (if conn_krb5_context (conn s)
         \<and> len \<le> length (filter valid_password_char (random_octets s))
      then Password (take len (filter valid_password_char (random_octets s)) @ [0])
      else Password_NULL)"
  using generate_host_password_loop_spec [of 0 len "replicate (len + 1) 0" s]
  by (simp add: generate_host_password_def)

lemma generate_host_password_conn:
  "conn (snd (generate_host_password_loop password len at s)) = conn s \<and>
   enroll (snd (generate_host_password_loop password len at s)) = enroll s"
proof (induction password len at s rule: generate_host_password_loop.induct)
  case (1 password len at s)
  show ?case
  proof (cases "at \<noteq> len \<and> \<not> len < at \<and> krb5_c_random_make_octets (len - at) s \<noteq> None")
    case False
    then show ?thesis
      by (auto simp: generate_host_password_loop.simps [of password] split: option.splits)
  next
    case True
    then obtain buffer s1 where r: "krb5_c_random_make_octets (len - at) s = Some (buffer, s1)"
      by auto
    obtain filtered n where f: "filter_password_chars buffer (len - at) = (filtered, n)"
      by (cases "filter_password_chars buffer (len - at)")
    have c: "conn s1 = conn s \<and> enroll s1 = enroll s"
      using r by (auto simp: krb5_c_random_make_octets_def split: if_splits)
    have "generate_host_password_loop password len at s =
        generate_host_password_loop (take at password @ filtered @ drop len password) len (at + n) s1"
      using True r f by (simp add: generate_host_password_loop.simps [of password])
    moreover note "1.IH" [OF _ _ r refl f [symmetric]]
    ultimately show ?thesis using True c by simp
  qed
qed


lemma generate_host_password_frame:
  "conn (snd (generate_host_password len s)) = conn s \<and>
   enroll (snd (generate_host_password len s)) = enroll s"
  by (simp add: generate_host_password_def generate_host_password_conn)

text \<open>
  Claim C5. With no password supplied and no reset requested, a successful
  \<^verbatim>\<open>ensure_computer_password\<close> leaves a password of exactly 120 characters, each in the
  range 32 to 122: it is the first 120 octets of that range among those the generator
  delivered, the octets outside the range being dropped, and the buffer holds it followed
  by a NUL. The generation succeeds whenever the generator delivers 120 octets of the
  range. With a reset requested, the password is the value computed from the computer name.
\<close>

theorem generated_computer_password:
  "computer_password (enroll s) = None \<Longrightarrow>
   (\<not> reset_password (enroll s) \<longrightarrow>
      (\<forall>s'. ensure_computer_password w ADCLI_SUCCESS s = (Returned ADCLI_SUCCESS, s') \<longrightarrow>
         (\<exists>pw. computer_password (enroll s') = Some pw \<and> length pw = 120 \<and>
               (\<forall>c \<in> set pw. 32 \<le> unat c \<and> unat c \<le> 122) \<and>
               pw = take 120 (filter (\<lambda>c. 32 \<le> unat c \<and> unat c \<le> 122) (random_octets s)) \<and>
               fst (generate_host_password 120 s) = Password (pw @ [0]))) \<and>
      (conn_krb5_context (conn s) \<and>
       120 \<le> length (filter (\<lambda>c. 32 \<le> unat c \<and> unat c \<le> 122) (random_octets s)) \<longrightarrow>
         fst (ensure_computer_password w ADCLI_SUCCESS s) = Returned ADCLI_SUCCESS)) \<and>
   (reset_password (enroll s) \<longrightarrow>
      (\<forall>name. computer_name (enroll s) = Some name \<longrightarrow>
         ensure_computer_password w ADCLI_SUCCESS s =
           (Returned ADCLI_SUCCESS,
            s\<lparr>enroll := (enroll s)\<lparr>computer_password :=
                 Some (adcli_calc_reset_password w name)\<rparr>\<rparr>)))"
proof (intro conjI impI allI)
  assume n: "computer_password (enroll s) = None"
  let ?valid = "filter valid_password_char (random_octets s)"
  let ?g = "generate_host_password 120 s"
  note g = generate_host_password_spec [of 120 s]
  { fix s'
    assume nr: "\<not> reset_password (enroll s)"
      and ok: "ensure_computer_password w ADCLI_SUCCESS s = (Returned ADCLI_SUCCESS, s')"
    obtain r s1 where gen: "?g = (r, s1)" by (cases ?g)
    have e: "(case r of
          Password buffer \<Rightarrow>
            (Returned ADCLI_SUCCESS,
             s1\<lparr>enroll := (enroll s1)\<lparr>computer_password := Some (c_string buffer)\<rparr>\<rparr>)
        | Password_NULL \<Rightarrow> (Returned ADCLI_ERR_UNEXPECTED, s1)
        | Assertion_Failed \<Rightarrow> (Aborted, s1)) = (Returned ADCLI_SUCCESS, s')"
      using ok n nr gen by (simp add: ensure_computer_password_def)
    obtain buffer where
      r: "r = Password buffer" and
      s': "s' = s1\<lparr>enroll := (enroll s1)\<lparr>computer_password := Some (c_string buffer)\<rparr>\<rparr>"
      using e by (cases r) simp_all
    from g gen r have enough: "120 \<le> length ?valid" and
      b: "buffer = take 120 ?valid @ [0]"
      by (auto split: if_splits)
    let ?pw = "take 120 ?valid"
    have v: "\<forall>c \<in> set ?pw. valid_password_char c"
      by (auto dest: in_set_takeD)
    have range: "\<forall>c \<in> set ?pw. 32 \<le> unat c \<and> unat c \<le> 122"
      using v valid_password_char_unat by blast
    have cp: "computer_password (enroll s') = Some ?pw"
      using s' b c_string_terminated [OF v] by simp
    have len: "length ?pw = 120" using enough by simp
    have fg: "fst ?g = Password (?pw @ [0])" using gen r b by simp
    have feq: "?pw = take 120 (filter (\<lambda>c. 32 \<le> unat c \<and> unat c \<le> 122) (random_octets s))"
      by (simp only: valid_password_char_eq)
    show "\<exists>pw. computer_password (enroll s') = Some pw \<and> length pw = 120 \<and>
               (\<forall>c \<in> set pw. 32 \<le> unat c \<and> unat c \<le> 122) \<and>
               pw = take 120 (filter (\<lambda>c. 32 \<le> unat c \<and> unat c \<le> 122) (random_octets s)) \<and>
               fst (generate_host_password 120 s) = Password (pw @ [0])"
      by (intro exI [of _ ?pw] conjI) (rule cp len range feq fg)+ }
  { assume nr: "\<not> reset_password (enroll s)"
      and e: "conn_krb5_context (conn s) \<and>
       120 \<le> length (filter (\<lambda>c. 32 \<le> unat c \<and> unat c \<le> 122) (random_octets s))"
    have e': "conn_krb5_context (conn s) \<and> 120 \<le> length ?valid"
      using e by (simp only: valid_password_char_eq)
    then have "fst ?g = Password (take 120 ?valid @ [0])"
      using g by simp
    then show "fst (ensure_computer_password w ADCLI_SUCCESS s) = Returned ADCLI_SUCCESS"
      using n nr by (cases ?g) (simp add: ensure_computer_password_def) }
  { fix name
    assume "reset_password (enroll s)" and "computer_name (enroll s) = Some name"
    then show "ensure_computer_password w ADCLI_SUCCESS s =
           (Returned ADCLI_SUCCESS,
            s\<lparr>enroll := (enroll s)\<lparr>computer_password :=
                 Some (adcli_calc_reset_password w name)\<rparr>\<rparr>)"
      using n by (simp add: ensure_computer_password_def) }
qed



lemma scenario_S6_valid:
  "filter (\<lambda>c. 32 \<le> unat c \<and> unat c \<le> 122) (random_octets scenario_S6) =
     [65, 66] @ replicate 118 (67 :: 8 word)"
  by (simp add: scenario_S6_def fresh_sys_def)

theorem generated_computer_password_witness:
  "computer_password (enroll scenario_S6) = None \<and>
   \<not> reset_password (enroll scenario_S6) \<and>
   fst (ensure_computer_password demo_world ADCLI_SUCCESS scenario_S6) = Returned ADCLI_SUCCESS \<and>
   computer_password (enroll (snd (ensure_computer_password demo_world ADCLI_SUCCESS scenario_S6))) =
     Some ([65, 66] @ replicate 118 67)"
proof -
  let ?r = "ensure_computer_password demo_world ADCLI_SUCCESS scenario_S6"
  let ?f = "filter (\<lambda>c. 32 \<le> unat c \<and> unat c \<le> 122) (random_octets scenario_S6)"
  have n: "computer_password (enroll scenario_S6) = None"
    by (simp add: scenario_S6_def fresh_sys_def adcli_enroll_new_def)
  have nr: "\<not> reset_password (enroll scenario_S6)"
    by (simp add: scenario_S6_def fresh_sys_def adcli_enroll_new_def)
  have k: "conn_krb5_context (conn scenario_S6)"
    by (simp add: scenario_S6_def fresh_sys_def demo_conn_def)
  have enough: "120 \<le> length ?f"
    by (simp only: scenario_S6_valid) simp
  note t = generated_computer_password [OF n, of demo_world]
  from t nr k enough have ok: "fst ?r = Returned ADCLI_SUCCESS"
    by blast
  then have "?r = (Returned ADCLI_SUCCESS, snd ?r)"
    by (metis prod.collapse)
  with t nr have "\<exists>pw. computer_password (enroll (snd ?r)) = Some pw \<and> pw = take 120 ?f"
    by blast
  then have "computer_password (enroll (snd ?r)) = Some (take 120 ?f)"
    by blast
  moreover have "take 120 ?f = [65, 66] @ replicate 118 67"
    by (simp only: scenario_S6_valid) simp
  ultimately show ?thesis using n nr ok by simp
qed

subsection \<open>The reset of the context, and the account reconciler\<close>




lemma filter_for_necessary_updates_filter:
  "filter_for_necessary_updates w results mods =
     filter (\<lambda>m. \<not> mod_matches w results m) mods"
  by (induction mods) simp_all

lemma account_mods_replace:
  "map (\<lambda>m. m\<lparr>mod_op := mod_op m OR LDAP_MOD_REPLACE\<rparr>)
       (filter P (account_mods e)) =
   map (\<lambda>m. m\<lparr>mod_op := LDAP_MOD_REPLACE\<rparr>) (filter P (account_mods e))"
  by (simp add: account_mods_def)

text \<open>
  Claim C3. \<^verbatim>\<open>create_or_update_computer_account\<close> reads the account's DN at base scope
  and then follows the result \<open>ret\<close> of the read. The mods are those of \<^verbatim>\<open>objectClass\<close>,
  \<^verbatim>\<open>sAMAccountName\<close> and \<^verbatim>\<open>userAccountControl\<close>. On \<^verbatim>\<open>LDAP_NO_SUCH_OBJECT\<close> (32) it
  issues one add, of the mods that have a value, and returns by the result of the add. On
  success without \<^verbatim>\<open>allow_overwrite\<close> it returns CONFIG and issues nothing else. On success
  with \<^verbatim>\<open>allow_overwrite\<close> it keeps the mods that do not match the entry read (there is no
  entry, or the entry has no value of the attribute, or the values do not have the mod)
  and, when none is left, returns SUCCESS and issues nothing else; otherwise it issues one
  modify of the mods left, each with the operation \<^verbatim>\<open>LDAP_MOD_REPLACE\<close> (2), and returns by
  the result of the modify. On any other result of the read it returns DIRECTORY and
  issues nothing else.
\<close>

theorem create_or_update_decision_table:
  assumes dn: "computer_dn (enroll s) = Some dn"
    and l: "conn_ldap_connection (conn s)"
    and r: "ldap_search_ext_s w dn ''(objectClass=*)''
              [''objectClass'', ''sAMAccountName'', ''userAccountControl''] = (ret, results)"
    and mods: "mods =
      [\<lparr>mod_op = 0, mod_type = ''objectClass'', mod_values = [''computer'']\<rparr>,
       \<lparr>mod_op = 0, mod_type = ''sAMAccountName'',
        mod_values = (case computer_sam (enroll s) of None \<Rightarrow> [] | Some sam \<Rightarrow> [sam])\<rparr>,
       \<lparr>mod_op = 0, mod_type = ''userAccountControl'', mod_values = [''69632'']\<rparr>]"
    and kept: "kept =
      filter (\<lambda>m. case results of
                     None \<Rightarrow> True
                   | Some entry \<Rightarrow>
                       (case entry_values entry (mod_type m) of
                          None \<Rightarrow> True
                        | Some vals \<Rightarrow> \<not> adcli_ldap_have_mod w m vals)) mods"
    and s1: "s1 = s\<lparr>trace := trace s @
      [LdapSearch dn ''(objectClass=*)''
         [''objectClass'', ''sAMAccountName'', ''userAccountControl'']]\<rparr>"
  shows "(ret = 32 \<longrightarrow>
      create_or_update_computer_account w allow_overwrite s =
        (Returned
           (if ldap_add_ext_s w dn (filter (\<lambda>m. mod_values m \<noteq> []) mods) = 50 \<or>
               ldap_add_ext_s w dn (filter (\<lambda>m. mod_values m \<noteq> []) mods) = 65
            then ADCLI_ERR_CREDENTIALS
            else if ldap_add_ext_s w dn (filter (\<lambda>m. mod_values m \<noteq> []) mods) \<noteq> 0
            then ADCLI_ERR_DIRECTORY else ADCLI_SUCCESS),
         s1\<lparr>trace := trace s1 @ [LdapAdd dn (filter (\<lambda>m. mod_values m \<noteq> []) mods)]\<rparr>)) \<and>
   (ret = 0 \<and> \<not> allow_overwrite \<longrightarrow>
      create_or_update_computer_account w allow_overwrite s = (Returned ADCLI_ERR_CONFIG, s1)) \<and>
   (ret = 0 \<and> allow_overwrite \<and> kept = [] \<longrightarrow>
      create_or_update_computer_account w allow_overwrite s = (Returned ADCLI_SUCCESS, s1)) \<and>
   (ret = 0 \<and> allow_overwrite \<and> kept \<noteq> [] \<longrightarrow>
      create_or_update_computer_account w allow_overwrite s =
        (Returned
           (if ldap_modify_ext_s w dn (map (\<lambda>m. m\<lparr>mod_op := 2\<rparr>) kept) = 50
            then ADCLI_ERR_CREDENTIALS
            else if ldap_modify_ext_s w dn (map (\<lambda>m. m\<lparr>mod_op := 2\<rparr>) kept) \<noteq> 0
            then ADCLI_ERR_DIRECTORY else ADCLI_SUCCESS),
         s1\<lparr>trace := trace s1 @ [LdapModify dn (map (\<lambda>m. m\<lparr>mod_op := 2\<rparr>) kept)]\<rparr>)) \<and>
   (ret \<noteq> 0 \<and> ret \<noteq> 32 \<longrightarrow>
      create_or_update_computer_account w allow_overwrite s =
        (Returned ADCLI_ERR_DIRECTORY, s1))"
proof -
  have am: "account_mods (enroll s) = mods"
    unfolding mods by (simp add: account_mods_def)
  have e: "emit (LdapSearch dn ''(objectClass=*)'' account_attrs) s = s1"
    unfolding s1 by (simp add: emit_def account_attrs_def)
  have r': "ldap_search_ext_s w dn ''(objectClass=*)'' account_attrs = (ret, results)"
    using r by (simp add: account_attrs_def)
  have es: "enroll s1 = enroll s" unfolding s1 by simp
  have k: "filter (\<lambda>m. \<not> mod_matches w results m) mods = kept"
    unfolding kept
    by (rule filter_cong) (auto simp: mod_matches_def split: option.splits)
  have unfold: "create_or_update_computer_account w allow_overwrite s =
      (if ret = 32
       then create_computer_account w dn mods s1
       else if ret = 0 then
         (if \<not> allow_overwrite then (Returned ADCLI_ERR_CONFIG, s1)
          else (case kept of
                  [] \<Rightarrow> (Returned ADCLI_SUCCESS, s1)
                | m # ms \<Rightarrow> modify_computer_account w dn (m # ms) s1))
       else (Returned ADCLI_ERR_DIRECTORY, s1))"
    using dn l r'
    by (simp add: create_or_update_computer_account_def ldap_search_def e es am k
        filter_for_necessary_updates_filter adcli_ldap_handle_failure_def
        LDAP_NO_SUCH_OBJECT_def)
  have add: "create_computer_account w dn mods s1 =
        (Returned
           (if ldap_add_ext_s w dn (filter (\<lambda>m. mod_values m \<noteq> []) mods) = 50 \<or>
               ldap_add_ext_s w dn (filter (\<lambda>m. mod_values m \<noteq> []) mods) = 65
            then ADCLI_ERR_CREDENTIALS
            else if ldap_add_ext_s w dn (filter (\<lambda>m. mod_values m \<noteq> []) mods) \<noteq> 0
            then ADCLI_ERR_DIRECTORY else ADCLI_SUCCESS),
         s1\<lparr>trace := trace s1 @ [LdapAdd dn (filter (\<lambda>m. mod_values m \<noteq> []) mods)]\<rparr>)"
    by (simp add: create_computer_account_def Let_def emit_def adcli_ldap_prune_empty_mods_def
        adcli_ldap_handle_failure_def LDAP_INSUFFICIENT_ACCESS_def
        LDAP_OBJECT_CLASS_VIOLATION_def LDAP_SUCCESS_def)
  have zero: "\<forall>m \<in> set kept. mod_op m = 0"
    unfolding kept mods by auto
  have rep: "map (\<lambda>m. m\<lparr>mod_op := mod_op m OR LDAP_MOD_REPLACE\<rparr>) kept =
      map (\<lambda>m. m\<lparr>mod_op := 2\<rparr>) kept"
    using zero by (intro map_cong) (simp_all add: LDAP_MOD_REPLACE_def)
  have modify: "modify_computer_account w dn kept s1 =
        (Returned
           (if ldap_modify_ext_s w dn (map (\<lambda>m. m\<lparr>mod_op := 2\<rparr>) kept) = 50
            then ADCLI_ERR_CREDENTIALS
            else if ldap_modify_ext_s w dn (map (\<lambda>m. m\<lparr>mod_op := 2\<rparr>) kept) \<noteq> 0
            then ADCLI_ERR_DIRECTORY else ADCLI_SUCCESS),
         s1\<lparr>trace := trace s1 @ [LdapModify dn (map (\<lambda>m. m\<lparr>mod_op := 2\<rparr>) kept)]\<rparr>)"
    unfolding modify_computer_account_def rep
    by (simp add: Let_def emit_def adcli_ldap_handle_failure_def LDAP_INSUFFICIENT_ACCESS_def
        LDAP_SUCCESS_def)
  have row4: "kept \<noteq> [] \<Longrightarrow>
      (case kept of [] \<Rightarrow> (Returned ADCLI_SUCCESS, s1)
       | m # ms \<Rightarrow> modify_computer_account w dn (m # ms) s1) =
      modify_computer_account w dn kept s1"
    by (cases kept) simp_all
  show ?thesis
    unfolding unfold using add modify row4 by simp
qed

theorem create_or_update_decision_table_witness:
  "computer_dn (enroll scenario_placed) = Some demo_dn \<and>
   conn_ldap_connection (conn scenario_placed) \<and>
   create_or_update_computer_account demo_world False scenario_placed =
     (Returned ADCLI_SUCCESS,
      scenario_placed\<lparr>trace :=
        [LdapSearch demo_dn ''(objectClass=*)''
           [''objectClass'', ''sAMAccountName'', ''userAccountControl''],
         LdapAdd demo_dn
           [\<lparr>mod_op = 0, mod_type = ''objectClass'', mod_values = [''computer'']\<rparr>,
            \<lparr>mod_op = 0, mod_type = ''sAMAccountName'', mod_values = [''HOST01$'']\<rparr>,
            \<lparr>mod_op = 0, mod_type = ''userAccountControl'', mod_values = [''69632'']\<rparr>]]\<rparr>) \<and>
   create_or_update_computer_account demo_world_existing False scenario_placed =
     (Returned ADCLI_ERR_CONFIG,
      scenario_placed\<lparr>trace :=
        [LdapSearch demo_dn ''(objectClass=*)''
           [''objectClass'', ''sAMAccountName'', ''userAccountControl'']]\<rparr>) \<and>
   create_or_update_computer_account demo_world_existing True scenario_placed =
     (Returned ADCLI_SUCCESS,
      scenario_placed\<lparr>trace :=
        [LdapSearch demo_dn ''(objectClass=*)''
           [''objectClass'', ''sAMAccountName'', ''userAccountControl'']]\<rparr>) \<and>
   create_or_update_computer_account demo_world_diverging True scenario_placed =
     (Returned ADCLI_SUCCESS,
      scenario_placed\<lparr>trace :=
        [LdapSearch demo_dn ''(objectClass=*)''
           [''objectClass'', ''sAMAccountName'', ''userAccountControl''],
         LdapModify demo_dn
           [\<lparr>mod_op = 2, mod_type = ''userAccountControl'', mod_values = [''69632'']\<rparr>]]\<rparr>) \<and>
   create_or_update_computer_account demo_world_unreachable True scenario_placed =
     (Returned ADCLI_ERR_DIRECTORY,
      scenario_placed\<lparr>trace :=
        [LdapSearch demo_dn ''(objectClass=*)''
           [''objectClass'', ''sAMAccountName'', ''userAccountControl'']]\<rparr>)"
proof -
  let ?attrs = "[''objectClass'', ''sAMAccountName'', ''userAccountControl'']"
  have dn: "computer_dn (enroll scenario_placed) = Some demo_dn"
    by (simp add: scenario_placed_def demo_dn_def)
  have l: "conn_ldap_connection (conn scenario_placed)"
    by (simp add: scenario_placed_def fresh_sys_def demo_conn_def)
  have sam: "computer_sam (enroll scenario_placed) = Some ''HOST01$''"
    by (simp add: scenario_placed_def)
  have t0: "trace scenario_placed = []"
    by (simp add: scenario_placed_def fresh_sys_def)
  have r1: "ldap_search_ext_s demo_world demo_dn ''(objectClass=*)'' ?attrs = (32, None)"
    by (simp add: demo_world_def)
  have r2: "ldap_search_ext_s demo_world_existing demo_dn ''(objectClass=*)'' ?attrs =
      (0, Some demo_account)"
    by (simp add: demo_world_existing_def)
  have r3: "ldap_search_ext_s demo_world_diverging demo_dn ''(objectClass=*)'' ?attrs =
      (0, Some demo_account_diverging)"
    by (simp add: demo_world_diverging_def)
  have r4: "ldap_search_ext_s demo_world_unreachable demo_dn ''(objectClass=*)'' ?attrs =
      (52, None)"
    by (simp add: demo_world_unreachable_def)
  have w: "ldap_add_ext_s demo_world = (\<lambda>dn mods. 0)"
    "ldap_modify_ext_s demo_world_diverging = (\<lambda>dn mods. 0)"
    "adcli_ldap_have_mod demo_world_existing =
       (\<lambda>m vals. list_all (\<lambda>v. v \<in> set vals) (mod_values m))"
    "adcli_ldap_have_mod demo_world_diverging =
       (\<lambda>m vals. list_all (\<lambda>v. v \<in> set vals) (mod_values m))"
    by (simp_all add: demo_world_def demo_world_existing_def demo_world_diverging_def)
  have a: "create_or_update_computer_account demo_world False scenario_placed =
     (Returned ADCLI_SUCCESS,
      scenario_placed\<lparr>trace :=
        [LdapSearch demo_dn ''(objectClass=*)'' ?attrs,
         LdapAdd demo_dn
           [\<lparr>mod_op = 0, mod_type = ''objectClass'', mod_values = [''computer'']\<rparr>,
            \<lparr>mod_op = 0, mod_type = ''sAMAccountName'', mod_values = [''HOST01$'']\<rparr>,
            \<lparr>mod_op = 0, mod_type = ''userAccountControl'', mod_values = [''69632'']\<rparr>]]\<rparr>)"
    using create_or_update_decision_table [OF dn l r1 refl refl refl, of False]
    by (simp add: sam t0 w)
  have b: "create_or_update_computer_account demo_world_existing False scenario_placed =
     (Returned ADCLI_ERR_CONFIG,
      scenario_placed\<lparr>trace := [LdapSearch demo_dn ''(objectClass=*)'' ?attrs]\<rparr>)"
    using create_or_update_decision_table [OF dn l r2 refl refl refl, of False]
    by (simp add: t0)
  have c: "create_or_update_computer_account demo_world_existing True scenario_placed =
     (Returned ADCLI_SUCCESS,
      scenario_placed\<lparr>trace := [LdapSearch demo_dn ''(objectClass=*)'' ?attrs]\<rparr>)"
    using create_or_update_decision_table [OF dn l r2 refl refl refl, of True]
    by (simp add: sam t0 w demo_account_def)
  have d: "create_or_update_computer_account demo_world_diverging True scenario_placed =
     (Returned ADCLI_SUCCESS,
      scenario_placed\<lparr>trace :=
        [LdapSearch demo_dn ''(objectClass=*)'' ?attrs,
         LdapModify demo_dn
           [\<lparr>mod_op = 2, mod_type = ''userAccountControl'', mod_values = [''69632'']\<rparr>]]\<rparr>)"
    using create_or_update_decision_table [OF dn l r3 refl refl refl, of True]
    by (simp add: sam t0 w demo_account_diverging_def)
  have e: "create_or_update_computer_account demo_world_unreachable True scenario_placed =
     (Returned ADCLI_ERR_DIRECTORY,
      scenario_placed\<lparr>trace := [LdapSearch demo_dn ''(objectClass=*)'' ?attrs]\<rparr>)"
    using create_or_update_decision_table [OF dn l r4 refl refl refl, of True]
    by (simp add: t0)
  from dn l a b c d e show ?thesis by (intro conjI)
qed

subsection \<open>What each stage changes\<close>

lemma logs_same: "trace s' = trace s \<Longrightarrow> logs P s s'"
  by (simp add: logs_def)

lemma logs_one: "trace s' = trace s @ [ev] \<Longrightarrow> P ev \<Longrightarrow> logs P s s'"
  by (simp add: logs_def)

lemma logs_trans: "logs P s s1 \<Longrightarrow> logs P s1 s2 \<Longrightarrow> logs P s s2"
  unfolding logs_def
proof -
  assume "\<exists>evs. trace s1 = trace s @ evs \<and> list_all P evs"
    and "\<exists>evs. trace s2 = trace s1 @ evs \<and> list_all P evs"
  then obtain e1 e2 where "trace s1 = trace s @ e1" "list_all P e1"
    "trace s2 = trace s1 @ e2" "list_all P e2" by blast
  then have "trace s2 = trace s @ (e1 @ e2) \<and> list_all P (e1 @ e2)" by simp
  then show "\<exists>evs. trace s2 = trace s @ evs \<and> list_all P evs" by blast
qed

lemma logs_update:
  "logs P (s\<lparr>enroll := e\<rparr>) s' = logs P s s'"
  "logs P s (s'\<lparr>enroll := e\<rparr>) = logs P s s'"
  "logs P (s\<lparr>keytab_file := k\<rparr>) s' = logs P s s'"
  "logs P s (s'\<lparr>keytab_file := k\<rparr>) = logs P s s'"
  "logs P (s\<lparr>conn := c\<rparr>) s' = logs P s s'"
  "logs P s (s'\<lparr>conn := c\<rparr>) = logs P s s'"
  by (simp_all add: logs_def)

lemma logs_mono: "logs P s s' \<Longrightarrow> (\<And>ev. P ev \<Longrightarrow> Q ev) \<Longrightarrow> logs Q s s'"
  unfolding logs_def list_all_iff by blast

lemma and_then_success:
  "and_then f g s = (Returned ADCLI_SUCCESS, s') \<longleftrightarrow>
   (\<exists>s1. f s = (Returned ADCLI_SUCCESS, s1) \<and> g s1 = (Returned ADCLI_SUCCESS, s'))"
  by (auto simp: and_then_def split: prod.splits outcome.splits adcli_result.splits)

lemma and_then_cases:
  "and_then f g s = (r, s') \<Longrightarrow>
   (f s = (r, s') \<and> r \<noteq> Returned ADCLI_SUCCESS) \<or>
   (\<exists>s1. f s = (Returned ADCLI_SUCCESS, s1) \<and> g s1 = (r, s'))"
  by (auto simp: and_then_def split: prod.splits outcome.splits adcli_result.splits)

text \<open>What a stage leaves as it is, apart from the context.\<close>

lemma conn_discover_frame:
  "conn_discover w s = (r, s') \<Longrightarrow>
   enroll s' = enroll s \<and> keytab_file s' = keytab_file s \<and> trace s' = trace s"
  by (auto simp: conn_discover_def split: prod.splits)

lemma conn_connect_frame:
  "conn_connect w s = (r, s') \<Longrightarrow>
   enroll s' = enroll s \<and> keytab_file s' = keytab_file s \<and> trace s' = trace s"
  by (auto simp: conn_connect_def split: prod.splits)

lemma enroll_clear_state_frame:
  "conn (enroll_clear_state s) = conn s \<and>
   keytab_file (enroll_clear_state s) = keytab_file s \<and>
   trace (enroll_clear_state s) = trace s \<and>
   computer_name (enroll (enroll_clear_state s)) = computer_name (enroll s)"
  by (simp add: enroll_clear_state_def Let_def)

lemma ldap_search_frame:
  "ldap_search w base flt attrs s = (res, s') \<Longrightarrow>
   s' = emit (LdapSearch base flt attrs) s \<and> res = ldap_search_ext_s w base flt attrs"
  by (auto simp: ldap_search_def)

lemma emit_simps:
  "enroll (emit ev s) = enroll s" "conn (emit ev s) = conn s"
  "keytab_file (emit ev s) = keytab_file s" "trace (emit ev s) = trace s @ [ev]"
  "random_octets (emit ev s) = random_octets s"
  by (simp_all add: emit_def)

lemma validate_preferred_ou_frame:
  "validate_preferred_ou w s = (r, s') \<Longrightarrow>
   unplaced (enroll s') = unplaced (enroll s) \<and>
   conn s' = conn s \<and> keytab_file s' = keytab_file s \<and>
   logs is_directory_setup s s'"
  by (auto simp: logs_def validate_preferred_ou_def Let_def emit_simps unplaced_def
      split: option.splits if_splits)

lemma lookup_preferred_ou_frame:
  "lookup_preferred_ou w s = (r, s') \<Longrightarrow>
   unplaced (enroll s') = unplaced (enroll s) \<and>
   conn s' = conn s \<and> keytab_file s' = keytab_file s \<and>
   logs is_directory_setup s s'"
  by (auto simp: logs_def lookup_preferred_ou_def ldap_search_def emit_simps info_attrs_def unplaced_def
      split: option.splits if_splits prod.splits)

lemma lookup_computer_container_frame:
  "lookup_computer_container w s = (r, s') \<Longrightarrow>
   unplaced (enroll s') = unplaced (enroll s) \<and>
   conn s' = conn s \<and> keytab_file s' = keytab_file s \<and>
   logs is_directory_setup s s'"
  by (auto simp: logs_def lookup_computer_container_def ldap_search_def emit_simps info_attrs_def
      unplaced_def split: option.splits if_splits prod.splits)

lemma calc_computer_account_frame:
  "calc_computer_account s = (r, s') \<Longrightarrow>
   unplaced (enroll s') = unplaced (enroll s) \<and>
   conn s' = conn s \<and> keytab_file s' = keytab_file s \<and> logs is_directory_setup s s'"
  by (auto simp: calc_computer_account_def unplaced_def logs_def split: option.splits)

lemma unplaced_fields:
  assumes "unplaced e' = unplaced e"
  shows "kvno e' = kvno e" "computer_attributes e' = computer_attributes e"
    "computer_name e' = computer_name e" "computer_sam e' = computer_sam e"
    "computer_password e' = computer_password e"
    "computer_principal e' = computer_principal e"
    "keytab e' = keytab e" "keytab_principals e' = keytab_principals e"
    "keytab_enctypes e' = keytab_enctypes e"
    "keytab_enctypes_explicit e' = keytab_enctypes_explicit e"
    "host_fqdn e' = host_fqdn e" "service_principals e' = service_principals e"
proof -
  have k: "\<And>f. f (unplaced e') = f (unplaced e)" using assms by simp
  show "kvno e' = kvno e" using k [of kvno] by (simp add: unplaced_def)
  show "computer_attributes e' = computer_attributes e"
    using k [of computer_attributes] by (simp add: unplaced_def)
  show "computer_name e' = computer_name e"
    using k [of computer_name] by (simp add: unplaced_def)
  show "computer_sam e' = computer_sam e"
    using k [of computer_sam] by (simp add: unplaced_def)
  show "computer_password e' = computer_password e"
    using k [of computer_password] by (simp add: unplaced_def)
  show "computer_principal e' = computer_principal e"
    using k [of computer_principal] by (simp add: unplaced_def)
  show "keytab e' = keytab e" using k [of keytab] by (simp add: unplaced_def)
  show "keytab_principals e' = keytab_principals e"
    using k [of keytab_principals] by (simp add: unplaced_def)
  show "keytab_enctypes e' = keytab_enctypes e"
    using k [of keytab_enctypes] by (simp add: unplaced_def)
  show "keytab_enctypes_explicit e' = keytab_enctypes_explicit e"
    using k [of keytab_enctypes_explicit] by (simp add: unplaced_def)
  show "host_fqdn e' = host_fqdn e" using k [of host_fqdn] by (simp add: unplaced_def)
  show "service_principals e' = service_principals e"
    using k [of service_principals] by (simp add: unplaced_def)
qed

lemma place_computer_account_frame:
  assumes "place_computer_account w s = (r, s')"
  shows "unplaced (enroll s') = unplaced (enroll s) \<and>
   conn s' = conn s \<and> keytab_file s' = keytab_file s \<and>
   logs is_directory_setup s s'"
proof (cases "computer_dn (enroll s) = None")
  case False
  then show ?thesis using assms by (auto simp: place_computer_account_def logs_def)
next
  case True
  let ?first = "if preferred_ou (enroll s) \<noteq> None then validate_preferred_ou w
                else lookup_preferred_ou w"
  let ?goal = "\<lambda>s s'. unplaced (enroll s') = unplaced (enroll s) \<and>
     conn s' = conn s \<and> keytab_file s' = keytab_file s \<and>
     logs is_directory_setup s s'"
  have first: "\<And>r1 s1. ?first s = (r1, s1) \<Longrightarrow> ?goal s s1"
    using validate_preferred_ou_frame lookup_preferred_ou_frame
    by (auto split: if_splits)
  have run: "and_then ?first (and_then (lookup_computer_container w) calc_computer_account) s
      = (r, s')"
    using assms True by (simp add: place_computer_account_def)
  from and_then_cases [OF run] show ?thesis
  proof
    assume "?first s = (r, s') \<and> r \<noteq> Returned ADCLI_SUCCESS"
    then show ?thesis using first by blast
  next
    assume "\<exists>s1. ?first s = (Returned ADCLI_SUCCESS, s1) \<and>
        and_then (lookup_computer_container w) calc_computer_account s1 = (r, s')"
    then obtain s1 where f1: "?first s = (Returned ADCLI_SUCCESS, s1)"
      and run2: "and_then (lookup_computer_container w) calc_computer_account s1 = (r, s')"
      by blast
    note g1 = first [OF f1]
    from and_then_cases [OF run2] show ?thesis
    proof
      assume "lookup_computer_container w s1 = (r, s') \<and> r \<noteq> Returned ADCLI_SUCCESS"
      then have g2: "?goal s1 s'" using lookup_computer_container_frame by blast
      from g1 g2 show ?thesis by (auto intro: logs_trans)
    next
      assume "\<exists>s2. lookup_computer_container w s1 = (Returned ADCLI_SUCCESS, s2) \<and>
          calc_computer_account s2 = (r, s')"
      then obtain s2 where f2: "lookup_computer_container w s1 = (Returned ADCLI_SUCCESS, s2)"
        and f3: "calc_computer_account s2 = (r, s')" by blast
      note g2 = lookup_computer_container_frame [OF f2]
      note g3 = calc_computer_account_frame [OF f3]
      from g1 g2 g3 show ?thesis by (auto intro: logs_trans)
    qed
  qed
qed

lemma create_or_update_computer_account_frame:
  "create_or_update_computer_account w allow s = (r, s') \<Longrightarrow>
   enroll s' = enroll s \<and> conn s' = conn s \<and> keytab_file s' = keytab_file s \<and>
   logs is_directory_setup s s'"
  by (auto simp: logs_def create_or_update_computer_account_def create_computer_account_def
      modify_computer_account_def ldap_search_def emit_simps Let_def
      account_attrs_def info_attrs_def
      split: option.splits if_splits prod.splits list.splits)

lemma set_computer_password_frame:
  "set_computer_password w s = (r, s') \<Longrightarrow>
   enroll s' = enroll s \<and> conn s' = conn s \<and> keytab_file s' = keytab_file s \<and>
   (trace s' = trace s \<and> r \<noteq> Returned ADCLI_SUCCESS \<or>
    (\<exists>password code result_code.
       trace s' = trace s @ [Kpasswd password code result_code] \<and>
       (r = Returned ADCLI_SUCCESS \<longleftrightarrow> code = 0 \<and> result_code = 0)))"
  by (auto simp: set_computer_password_def set_password_with_computer_creds_def
      set_password_with_user_creds_def emit_simps
      split: option.splits if_splits prod.splits)

lemma retrieve_computer_account_info_frame:
  "retrieve_computer_account_info w s = (r, s') \<Longrightarrow>
   conn s' = conn s \<and> keytab_file s' = keytab_file s \<and>
   (trace s' = trace s \<and> r \<noteq> Returned ADCLI_SUCCESS \<or>
    (\<exists>dn. trace s' = trace s @ [LdapSearch dn ''(objectClass=*)'' info_attrs]))"
  by (auto simp: retrieve_computer_account_info_def ldap_search_def emit_simps Let_def
      split: option.splits if_splits prod.splits)

lemma retrieve_computer_account_info_success:
  "retrieve_computer_account_info w s = (Returned ADCLI_SUCCESS, s') \<Longrightarrow>
   \<exists>dn results.
     computer_dn (enroll s) = Some dn \<and>
     ldap_search_ext_s w dn ''(objectClass=*)'' info_attrs = (LDAP_SUCCESS, results) \<and>
     enroll s' = (enroll s)\<lparr>computer_attributes := Some results,
       kvno := (if kvno (enroll s) = 0
                then (case adcli_ldap_parse_value results ''msDS-KeyVersionNumber'' of
                        None \<Rightarrow> 0 | Some v \<Rightarrow> ucast (fst (strtoul w v)))
                else kvno (enroll s))\<rparr>"
  by (auto simp: retrieve_computer_account_info_def ldap_search_def emit_simps Let_def
      adcli_ldap_handle_failure_def
      split: option.splits if_splits prod.splits)

lemma modify_if_necessary_frame:
  "modify_if_necessary w dn results mods s = (r, s') \<Longrightarrow>
   enroll s' = enroll s \<and> conn s' = conn s \<and> keytab_file s' = keytab_file s \<and>
   logs is_modify s s'"
  by (auto simp: modify_if_necessary_def logs_def emit_simps Let_def
      split: option.splits if_splits list.splits)

lemma update_and_calculate_enctypes_frame:
  "update_and_calculate_enctypes w s = (r, s') \<Longrightarrow>
   enroll s' = (enroll s)\<lparr>keytab_enctypes := keytab_enctypes (enroll s')\<rparr> \<and>
   conn s' = conn s \<and> keytab_file s' = keytab_file s \<and> logs is_modify s s'"
  by (auto simp: update_and_calculate_enctypes_def Let_def logs_same logs_update
      split: option.splits if_splits dest!: modify_if_necessary_frame)

lemma update_dns_host_name_frame:
  "update_dns_host_name w s = (r, s') \<Longrightarrow>
   enroll s' = enroll s \<and> conn s' = conn s \<and> keytab_file s' = keytab_file s \<and>
   logs is_modify s s'"
  by (auto simp: update_dns_host_name_def logs_same
      split: option.splits if_splits dest!: modify_if_necessary_frame)

lemma update_service_principals_frame:
  "update_service_principals w s = (r, s') \<Longrightarrow>
   enroll s' = enroll s \<and> conn s' = conn s \<and> keytab_file s' = keytab_file s \<and>
   logs is_modify s s'"
  by (auto simp: update_service_principals_def logs_same
      split: option.splits if_splits dest!: modify_if_necessary_frame)

lemma probe_salt_frame:
  "probe_salt w princ kv password salt enctypes s = (b, s') \<Longrightarrow>
   enroll s' = enroll s \<and> conn s' = conn s \<and> keytab_file s' = keytab_file s \<and>
   logs (\<lambda>ev. \<exists>enctype. ev = AsReq princ kv enctype
                 (krb5_c_string_to_key w enctype password salt)) s s'"
proof (induction enctypes arbitrary: s)
  case Nil
  then show ?case by (simp add: logs_same)
next
  case (Cons enctype enctypes)
  let ?key = "krb5_c_string_to_key w enctype password salt"
  let ?s1 = "emit (AsReq princ kv enctype ?key) s"
  have one: "logs (\<lambda>ev. \<exists>enctype. ev = AsReq princ kv enctype
                 (krb5_c_string_to_key w enctype password salt)) s ?s1"
    by (rule logs_one [of _ _ "AsReq princ kv enctype ?key"]) (auto simp: emit_simps)
  show ?case
  proof (cases "as_req_accepted w princ kv enctype ?key")
    case True
    then have "s' = ?s1" using Cons.prems by (simp add: Let_def)
    then show ?thesis using one by (simp add: emit_simps)
  next
    case False
    then have "probe_salt w princ kv password salt enctypes ?s1 = (b, s')"
      using Cons.prems by (simp add: Let_def)
    from Cons.IH [OF this] show ?thesis
      using one by (auto simp: emit_simps intro: logs_trans)
  qed
qed

lemma discover_salt_from_frame:
  "discover_salt_from w princ kv password enctypes salts i s = (found, s') \<Longrightarrow>
   enroll s' = enroll s \<and> conn s' = conn s \<and> keytab_file s' = keytab_file s \<and>
   logs (\<lambda>ev. \<exists>enctype salt. salt \<in> set salts \<and>
                 ev = AsReq princ kv enctype
                        (krb5_c_string_to_key w enctype password salt)) s s'"
proof (induction salts arbitrary: i s)
  case Nil
  then show ?case by (simp add: logs_same)
next
  case (Cons salt salts)
  let ?P = "\<lambda>ev. \<exists>enctype sa. sa \<in> set (salt # salts) \<and>
                 ev = AsReq princ kv enctype (krb5_c_string_to_key w enctype password sa)"
  obtain b s1 where p: "probe_salt w princ kv password salt enctypes s = (b, s1)"
    by (cases "probe_salt w princ kv password salt enctypes s")
  note f1 = probe_salt_frame [OF p]
  then have l1: "logs ?P s s1" by (auto elim!: logs_mono)
  show ?case
  proof (cases b)
    case True
    then have "s' = s1" using Cons.prems p by simp
    then show ?thesis using f1 l1 by simp
  next
    case False
    then have "discover_salt_from w princ kv password enctypes salts (i + 1) s1 = (found, s')"
      using Cons.prems p by simp
    note ih = Cons.IH [OF this]
    then have "logs ?P s1 s'" by (auto elim!: logs_mono)
    then show ?thesis using f1 l1 ih by (auto intro: logs_trans)
  qed
qed

lemma adcli_krb5_keytab_add_entries_frame:
  "adcli_krb5_keytab_add_entries w princ kv password enctypes salt s = (code, s') \<Longrightarrow>
   enroll s' = enroll s \<and> conn s' = conn s"
proof (induction enctypes arbitrary: s)
  case Nil
  then show ?case by simp
next
  case (Cons enctype enctypes)
  let ?entry = "\<lparr>principal = princ, vno = kv, key_enctype = enctype,
                 key_contents = krb5_c_string_to_key w enctype password salt\<rparr>"
  let ?s1 = "emit (KeytabAdd ?entry) (s\<lparr>keytab_file := keytab_file s @ [?entry]\<rparr>)"
  show ?case
  proof (cases "krb5_kt_add_entry w ?entry \<noteq> 0")
    case True
    then have "s' = s" using Cons.prems by (simp add: Let_def)
    then show ?thesis by simp
  next
    case False
    then have "adcli_krb5_keytab_add_entries w princ kv password enctypes salt ?s1 = (code, s')"
      using Cons.prems by (simp add: Let_def)
    from Cons.IH [OF this] show ?thesis by (simp add: emit_simps)
  qed
qed

lemma probe_salt_result:
  "fst (probe_salt w princ kv password salt enctypes s) =
     salt_accepted w princ kv password enctypes salt"
  by (induction enctypes arbitrary: s) (simp_all add: salt_accepted_def Let_def)


lemma discover_salt_from_none:
  "fst (discover_salt_from w princ kv password enctypes salts i s) = None \<longleftrightarrow>
   (\<forall>salt \<in> set salts. \<not> salt_accepted w princ kv password enctypes salt)"
proof (induction salts arbitrary: i s)
  case Nil
  then show ?case by simp
next
  case (Cons salt salts)
  obtain b s1 where p: "probe_salt w princ kv password salt enctypes s = (b, s1)"
    by (cases "probe_salt w princ kv password salt enctypes s")
  have b: "b = salt_accepted w princ kv password enctypes salt"
    using probe_salt_result [of w princ kv password salt enctypes s] p by simp
  show ?case using p b Cons.IH [of "i + 1" s1] by (cases b) simp_all
qed


lemma adcli_krb5_keytab_add_entries_logs:
  "adcli_krb5_keytab_add_entries w princ kv password enctypes salt s = (code, s') \<Longrightarrow>
   logs (\<lambda>ev. \<exists>enctype. ev = KeytabAdd (new_entry w princ kv password salt enctype)) s s'"
proof (induction enctypes arbitrary: s)
  case Nil
  then show ?case by (simp add: logs_same)
next
  case (Cons enctype enctypes)
  let ?entry = "new_entry w princ kv password salt enctype"
  let ?s1 = "emit (KeytabAdd ?entry) (s\<lparr>keytab_file := keytab_file s @ [?entry]\<rparr>)"
  show ?case
  proof (cases "krb5_kt_add_entry w ?entry \<noteq> 0")
    case True
    then have "s' = s" using Cons.prems by (simp add: Let_def new_entry_def)
    then show ?thesis by (simp add: logs_same)
  next
    case False
    then have "adcli_krb5_keytab_add_entries w princ kv password enctypes salt ?s1 = (code, s')"
      using Cons.prems by (simp add: Let_def new_entry_def)
    note ih = Cons.IH [OF this]
    have one: "logs (\<lambda>ev. \<exists>enctype. ev = KeytabAdd (new_entry w princ kv password salt enctype))
        s ?s1"
      by (rule logs_one [of _ _ "KeytabAdd ?entry"]) (auto simp: emit_simps)
    show ?thesis using ih one by (blast intro: logs_trans)
  qed
qed

text \<open>The events of one call of \<^verbatim>\<open>add_principal_to_keytab\<close>.\<close>

lemma add_principal_to_keytab_frame:
  assumes run: "add_principal_to_keytab w princ which_salt s = ((r, which), s')"
  shows "enroll s' = enroll s \<and> conn s' = conn s \<and>
    logs (\<lambda>ev. ev = KeytabClear princ (kvno (enroll s)) \<or>
               (which_salt < 0 \<and>
                (\<exists>password enctype salt. computer_password (enroll s) = Some password \<and>
                   salt \<in> set (build_principal_salts w (enroll s) princ) \<and>
                   ev = AsReq princ (kvno (enroll s)) enctype
                          (krb5_c_string_to_key w enctype password salt))) \<or>
               (\<exists>password enctype. computer_password (enroll s) = Some password \<and>
                  0 \<le> which \<and>
                  ev = KeytabAdd (new_entry w princ (kvno (enroll s)) password
                         (build_principal_salts w (enroll s) princ ! nat which) enctype)))
      s s' \<and>
    (r = Returned ADCLI_SUCCESS \<longrightarrow> 0 \<le> which \<and> which < 3) \<and>
    (0 \<le> which_salt \<longrightarrow> which = which_salt)"
proof -
  let ?kv = "kvno (enroll s)"
  let ?P = "\<lambda>ev. ev = KeytabClear princ ?kv \<or>
               (which_salt < 0 \<and>
                (\<exists>password enctype salt. computer_password (enroll s) = Some password \<and>
                   salt \<in> set (build_principal_salts w (enroll s) princ) \<and>
                   ev = AsReq princ ?kv enctype
                          (krb5_c_string_to_key w enctype password salt))) \<or>
               (\<exists>password enctype. computer_password (enroll s) = Some password \<and>
                  0 \<le> which \<and>
                  ev = KeytabAdd (new_entry w princ ?kv password
                         (build_principal_salts w (enroll s) princ ! nat which) enctype))"
  let ?s0 = "emit (KeytabClear princ ?kv) s"
  show ?thesis
  proof (cases "keytab (enroll s) = None")
    case True
    then show ?thesis using run by (auto simp: add_principal_to_keytab_def logs_same)
  next
    case False
    then obtain handle where kt: "keytab (enroll s) = Some handle" by auto
    obtain code s1 where c: "adcli_krb5_keytab_clear w princ
        (match_principal_and_kvno ?kv princ) ?s0 = (code, s1)"
      by (cases "adcli_krb5_keytab_clear w princ (match_principal_and_kvno ?kv princ) ?s0")
    have s1: "enroll s1 = enroll s" "conn s1 = conn s" "trace s1 = trace s @ [KeytabClear princ ?kv]"
      using c by (auto simp: adcli_krb5_keytab_clear_def Let_def emit_simps split: if_splits)
    have l1: "logs ?P s s1"
      by (rule logs_one [of _ _ "KeytabClear princ ?kv"]) (simp_all add: s1)
    show ?thesis
    proof (cases "code \<noteq> 0")
      case True
      then have "s' = s1" "which = which_salt" "r = Returned ADCLI_ERR_FAIL"
        using run kt c by (auto simp: add_principal_to_keytab_def emit_simps)
      then show ?thesis using s1 l1 by simp
    next
      case code: False
      show ?thesis
      proof (cases "computer_password (enroll s)")
        case None
        then have "s' = s1" "which = which_salt" "r = Aborted"
          using run kt c code s1 by (auto simp: add_principal_to_keytab_def emit_simps)
        then show ?thesis using s1 l1 by simp
      next
        case (Some password)
        let ?ets = "adcli_enroll_get_keytab_enctypes (enroll s)"
        let ?salts = "build_principal_salts w (enroll s) princ"
        let ?disc = "if which_salt < 0
                     then (case adcli_krb5_keytab_discover_salt w princ ?kv password ?ets ?salts s1 of
                             (None, s2) \<Rightarrow> (None, s2)
                           | (Some i, s2) \<Rightarrow> (Some (int i), s2))
                     else (Some which_salt, s1)"
        obtain found s2 where d: "?disc = (found, s2)" by (cases ?disc)
        have s2: "enroll s2 = enroll s \<and> conn s2 = conn s \<and> logs ?P s1 s2 \<and>
            (0 \<le> which_salt \<longrightarrow> found = Some which_salt)"
        proof (cases "which_salt < 0")
          case False
          then show ?thesis using d s1 by (auto simp: logs_same)
        next
          case True
          obtain f0 s20 where d0: "adcli_krb5_keytab_discover_salt w princ ?kv password ?ets
              ?salts s1 = (f0, s20)"
            by (cases "adcli_krb5_keytab_discover_salt w princ ?kv password ?ets ?salts s1")
          then have eq: "s2 = s20" using d True by (auto split: option.splits)
          from d0 have "enroll s20 = enroll s1 \<and> conn s20 = conn s1 \<and>
              logs (\<lambda>ev. \<exists>enctype salt. salt \<in> set ?salts \<and>
                 ev = AsReq princ ?kv enctype
                        (krb5_c_string_to_key w enctype password salt)) s1 s20"
            unfolding adcli_krb5_keytab_discover_salt_def
            using discover_salt_from_frame by blast
          then show ?thesis
            using eq s1 True \<open>computer_password (enroll s) = Some password\<close>
            by (auto elim!: logs_mono)
        qed
        have unfold: "add_principal_to_keytab w princ which_salt s =
            (case found of
               None \<Rightarrow> ((Returned ADCLI_ERR_DIRECTORY, which_salt), s2)
             | Some wh \<Rightarrow>
                 if wh < 0 \<or> int (length ?salts) \<le> wh then ((Aborted, wh), s2)
                 else (case adcli_krb5_keytab_add_entries w princ (kvno (enroll s2))
                              password ?ets (?salts ! nat wh) s2 of
                         (code2, s3) \<Rightarrow>
                           if code2 \<noteq> 0 then ((Returned ADCLI_ERR_FAIL, wh), s3)
                           else ((Returned ADCLI_SUCCESS, wh), s3)))"
        proof -
          have "add_principal_to_keytab w princ which_salt s =
            (case ?disc of
               (None, s2) \<Rightarrow> ((Returned ADCLI_ERR_DIRECTORY, which_salt), s2)
             | (Some wh, s2) \<Rightarrow>
                 if wh < 0 \<or> int (length ?salts) \<le> wh then ((Aborted, wh), s2)
                 else (case adcli_krb5_keytab_add_entries w princ (kvno (enroll s2))
                              password ?ets (?salts ! nat wh) s2 of
                         (code2, s3) \<Rightarrow>
                           if code2 \<noteq> 0 then ((Returned ADCLI_ERR_FAIL, wh), s3)
                           else ((Returned ADCLI_SUCCESS, wh), s3)))"
            using kt c code Some s1
            by (simp add: add_principal_to_keytab_def Let_def)
          then show ?thesis unfolding d by (simp split: option.splits)
        qed
        show ?thesis
        proof (cases found)
          case None
          then have "s' = s2" "which = which_salt" "r = Returned ADCLI_ERR_DIRECTORY"
            using run unfold by auto
          then show ?thesis using s2 l1 None by (auto intro: logs_trans)
        next
          case (Some wh)
          note fw = Some
          show ?thesis
          proof (cases "wh < 0 \<or> int (length ?salts) \<le> wh")
            case True
            then have "s' = s2" "which = wh" "r = Aborted"
              using run unfold fw by auto
            then show ?thesis using s2 l1 fw by (auto intro: logs_trans)
          next
            case inr: False
            obtain code2 s3 where a: "adcli_krb5_keytab_add_entries w princ (kvno (enroll s2))
                password ?ets (?salts ! nat wh) s2 = (code2, s3)"
              by (cases "adcli_krb5_keytab_add_entries w princ (kvno (enroll s2))
                password ?ets (?salts ! nat wh) s2")
            then have res: "s' = s3" "which = wh"
              "r = (if code2 \<noteq> 0 then Returned ADCLI_ERR_FAIL else Returned ADCLI_SUCCESS)"
              using run unfold fw inr by (auto split: if_splits)
            have kv2: "kvno (enroll s2) = ?kv" using s2 by simp
            note f3 = adcli_krb5_keytab_add_entries_frame [OF a]
            have "logs (\<lambda>ev. \<exists>enctype. ev = KeytabAdd
                (new_entry w princ ?kv password (?salts ! nat wh) enctype)) s2 s3"
              using adcli_krb5_keytab_add_entries_logs [OF a] kv2 by simp
            then have l3: "logs ?P s2 s3"
              using inr res(2) \<open>computer_password (enroll s) = Some password\<close>
              by (auto elim!: logs_mono)
            have "logs ?P s s3"
              using l1 s2 l3 by (blast intro: logs_trans)
            moreover have "0 \<le> which \<and> which < 3"
              using inr res(2) by (simp add: build_principal_salts_def)
            ultimately show ?thesis using f3 s2 res fw by auto
          qed
        qed
      qed
    qed
  qed
qed


lemma add_principal_to_keytab_unfold:
  assumes kt: "keytab (enroll s) = Some handle"
    and code: "adcli_krb5_keytab_clear_code w princ = 0"
    and pw: "computer_password (enroll s) = Some password"
  shows "add_principal_to_keytab w princ which_salt s =
    (case (if which_salt < 0
           then (case discover_salt_from w princ (kvno (enroll s)) password
                        (adcli_enroll_get_keytab_enctypes (enroll s))
                        (build_principal_salts w (enroll s) princ) 0
                        ((emit (KeytabClear princ (kvno (enroll s))) s)
                           \<lparr>keytab_file := filter
                              (\<lambda>entry. \<not> match_principal_and_kvno (kvno (enroll s)) princ entry)
                              (keytab_file s)\<rparr>) of
                   (None, s2) \<Rightarrow> (None, s2)
                 | (Some i, s2) \<Rightarrow> (Some (int i), s2))
           else (Some which_salt,
                 (emit (KeytabClear princ (kvno (enroll s))) s)
                   \<lparr>keytab_file := filter
                      (\<lambda>entry. \<not> match_principal_and_kvno (kvno (enroll s)) princ entry)
                      (keytab_file s)\<rparr>)) of
       (None, s2) \<Rightarrow> ((Returned ADCLI_ERR_DIRECTORY, which_salt), s2)
     | (Some wh, s2) \<Rightarrow>
         if wh < 0 \<or> int (length (build_principal_salts w (enroll s) princ)) \<le> wh
         then ((Aborted, wh), s2)
         else (case adcli_krb5_keytab_add_entries w princ (kvno (enroll s2)) password
                      (adcli_enroll_get_keytab_enctypes (enroll s))
                      (build_principal_salts w (enroll s) princ ! nat wh) s2 of
                 (code2, s3) \<Rightarrow>
                   if code2 \<noteq> 0 then ((Returned ADCLI_ERR_FAIL, wh), s3)
                   else ((Returned ADCLI_SUCCESS, wh), s3)))"
  using kt code pw
  by (simp add: add_principal_to_keytab_def adcli_krb5_keytab_clear_def Let_def
      emit_simps adcli_krb5_keytab_discover_salt_def)


lemma add_principal_to_keytab_directory:
  assumes kt: "keytab (enroll s) \<noteq> None"
    and code: "adcli_krb5_keytab_clear_code w princ = 0"
    and pw: "computer_password (enroll s) = Some password"
    and neg: "which_salt < 0"
    and none: "\<forall>salt \<in> set (build_principal_salts w (enroll s) princ).
       \<not> salt_accepted w princ (kvno (enroll s)) password
           (adcli_enroll_get_keytab_enctypes (enroll s)) salt"
  shows "fst (fst (add_principal_to_keytab w princ which_salt s)) = Returned ADCLI_ERR_DIRECTORY"
proof -
  from kt obtain handle where k: "keytab (enroll s) = Some handle" by auto
  let ?s1 = "(emit (KeytabClear princ (kvno (enroll s))) s)
     \<lparr>keytab_file := filter (\<lambda>entry. \<not> match_principal_and_kvno (kvno (enroll s)) princ entry)
                       (keytab_file s)\<rparr>"
  let ?d = "discover_salt_from w princ (kvno (enroll s)) password
      (adcli_enroll_get_keytab_enctypes (enroll s))
      (build_principal_salts w (enroll s) princ) 0 ?s1"
  have "fst ?d = None"
    using none by (simp only: discover_salt_from_none)
  then obtain s2 where "?d = (None, s2)" by (cases ?d) auto
  then show ?thesis
    unfolding add_principal_to_keytab_unfold [OF k code pw] using neg by simp
qed

subsection \<open>The keytab writer\<close>

lemma match_principal_and_kvno_iff:
  "match_principal_and_kvno kv princ entry \<longleftrightarrow>
     principal entry = princ \<and> vno entry + 1 \<noteq> kv"
  by (simp add: match_principal_and_kvno_def)

lemma new_entry_simps:
  "principal (new_entry w princ kv password salt enctype) = princ"
  "vno (new_entry w princ kv password salt enctype) = kv"
  "key_enctype (new_entry w princ kv password salt enctype) = enctype"
  "key_contents (new_entry w princ kv password salt enctype) =
     krb5_c_string_to_key w enctype password salt"
  by (simp_all add: new_entry_def)

lemma kvno_not_behind_itself: "(kv :: krb5_kvno) + 1 \<noteq> kv"
  by simp




lemma update_keytab_loop_enroll:
  "update_keytab_loop w princs which_salt s = (r, s') \<Longrightarrow>
   enroll s' = enroll s \<and> conn s' = conn s"
proof (induction princs arbitrary: which_salt s)
  case Nil
  then show ?case by simp
next
  case (Cons princ princs)
  obtain r1 wh s1 where a: "add_principal_to_keytab w princ which_salt s = ((r1, wh), s1)"
    by (cases "add_principal_to_keytab w princ which_salt s") auto
  note f = add_principal_to_keytab_frame [OF a]
  show ?case
  proof (cases "r1 = Returned ADCLI_SUCCESS")
    case True
    then have "update_keytab_loop w princs wh s1 = (r, s')"
      using Cons.prems a by simp
    from Cons.IH [OF this] show ?thesis using f by simp
  next
    case False
    then have "s' = s1"
      using Cons.prems a by (cases r1; cases "case r1 of Returned x \<Rightarrow> x") auto
    then show ?thesis using f by simp
  qed
qed



subsection \<open>Discovering the salt\<close>

lemma sys_trace_append:
  "(s\<lparr>trace := trace s @ xs\<rparr>)\<lparr>trace := trace (s\<lparr>trace := trace s @ xs\<rparr>) @ ys\<rparr> =
   s\<lparr>trace := trace s @ xs @ ys\<rparr>"
  by simp

lemma probe_salt_exact:
  "probe_salt w princ kv password salt enctypes s =
     (salt_accepted w princ kv password enctypes salt,
      s\<lparr>trace := trace s @ probes_with_salt w princ kv password enctypes salt\<rparr>)"
proof (induction enctypes arbitrary: s)
  case Nil
  then show ?case by (simp add: salt_accepted_def probes_with_salt_def)
next
  case (Cons enctype enctypes)
  show ?case
  proof (cases "as_req_accepted w princ kv enctype (krb5_c_string_to_key w enctype password salt)")
    case True
    then show ?thesis
      by (simp add: salt_accepted_def probes_with_salt_def emit_def Let_def)
  next
    case False
    then show ?thesis
      using Cons.IH [of "emit (AsReq princ kv enctype
                                 (krb5_c_string_to_key w enctype password salt)) s"]
      by (simp add: salt_accepted_def probes_with_salt_def emit_def Let_def)
  qed
qed

lemma discover_salt_from_exact:
  "discover_salt_from w princ kv password enctypes salts i s =
     ((if first_accepted w princ kv password enctypes salts < length salts
       then Some (i + first_accepted w princ kv password enctypes salts) else None),
      s\<lparr>trace := trace s @ discovery_probes w princ kv password enctypes salts\<rparr>)"
proof (induction salts arbitrary: i s)
  case Nil
  then show ?case by (simp add: first_accepted_def discovery_probes_def)
next
  case (Cons salt salts)
  show ?case
  proof (cases "salt_accepted w princ kv password enctypes salt")
    case True
    then show ?thesis
      by (simp add: probe_salt_exact first_accepted_def discovery_probes_def)
  next
    case False
    then show ?thesis
      using Cons.IH [of "Suc i" "s\<lparr>trace := trace s @
                            probes_with_salt w princ kv password enctypes salt\<rparr>"]
      by (simp add: probe_salt_exact first_accepted_def discovery_probes_def)
  qed
qed

lemma adcli_krb5_keytab_add_entries_exact:
  assumes "\<forall>entry. krb5_kt_add_entry w entry = 0"
  shows "adcli_krb5_keytab_add_entries w princ kv password enctypes salt s =
     (0, s\<lparr>keytab_file := keytab_file s @ map (new_entry w princ kv password salt) enctypes,
          trace := trace s @
            map (\<lambda>enctype. KeytabAdd (new_entry w princ kv password salt enctype)) enctypes\<rparr>)"
proof (induction enctypes arbitrary: s)
  case Nil
  then show ?case by simp
next
  case (Cons enctype enctypes)
  let ?entry = "\<lparr>principal = princ, vno = kv, key_enctype = enctype,
                  key_contents = krb5_c_string_to_key w enctype password salt\<rparr>"
  show ?case
    using assms Cons.IH [of "emit (KeytabAdd ?entry) (s\<lparr>keytab_file := keytab_file s @ [?entry]\<rparr>)"]
    by (simp add: emit_def Let_def new_entry_def)
qed

lemma add_principal_to_keytab_known:
  assumes kt: "keytab (enroll s) = Some handle"
    and code: "adcli_krb5_keytab_clear_code w princ = 0"
    and pw: "computer_password (enroll s) = Some password"
    and add: "\<forall>entry. krb5_kt_add_entry w entry = 0"
    and range: "0 \<le> which" "which < 3"
  shows "add_principal_to_keytab w princ which s =
    ((Returned ADCLI_SUCCESS, which),
     s\<lparr>keytab_file :=
         filter (\<lambda>entry. \<not> match_principal_and_kvno (kvno (enroll s)) princ entry) (keytab_file s)
         @ map (new_entry w princ (kvno (enroll s)) password
                  (build_principal_salts w (enroll s) princ ! nat which))
               (adcli_enroll_get_keytab_enctypes (enroll s)),
       trace := trace s @ KeytabClear princ (kvno (enroll s)) #
         map (\<lambda>enctype. KeytabAdd (new_entry w princ (kvno (enroll s)) password
                (build_principal_salts w (enroll s) princ ! nat which) enctype))
             (adcli_enroll_get_keytab_enctypes (enroll s))\<rparr>)"
proof -
  have len: "int (length (build_principal_salts w (enroll s) princ)) = 3"
    by (simp add: build_principal_salts_def)
  show ?thesis
    unfolding add_principal_to_keytab_unfold [OF kt code pw]
    using range
    by (simp add: len adcli_krb5_keytab_add_entries_exact [OF add] emit_def)
qed

lemma add_principal_to_keytab_discovering:
  assumes kt: "keytab (enroll s) = Some handle"
    and code: "adcli_krb5_keytab_clear_code w princ = 0"
    and pw: "computer_password (enroll s) = Some password"
    and add: "\<forall>entry. krb5_kt_add_entry w entry = 0"
    and neg: "which < 0"
    and n: "n = first_accepted w princ (kvno (enroll s)) password
                  (adcli_enroll_get_keytab_enctypes (enroll s))
                  (build_principal_salts w (enroll s) princ)"
  shows "add_principal_to_keytab w princ which s =
    (if n < 3 then
       ((Returned ADCLI_SUCCESS, int n),
        s\<lparr>keytab_file :=
            filter (\<lambda>entry. \<not> match_principal_and_kvno (kvno (enroll s)) princ entry)
              (keytab_file s)
            @ map (new_entry w princ (kvno (enroll s)) password
                     (build_principal_salts w (enroll s) princ ! n))
                  (adcli_enroll_get_keytab_enctypes (enroll s)),
          trace := trace s @ KeytabClear princ (kvno (enroll s)) #
            discovery_probes w princ (kvno (enroll s)) password
              (adcli_enroll_get_keytab_enctypes (enroll s))
              (build_principal_salts w (enroll s) princ) @
            map (\<lambda>enctype. KeytabAdd (new_entry w princ (kvno (enroll s)) password
                   (build_principal_salts w (enroll s) princ ! n) enctype))
                (adcli_enroll_get_keytab_enctypes (enroll s))\<rparr>)
     else
       ((Returned ADCLI_ERR_DIRECTORY, which),
        s\<lparr>keytab_file :=
            filter (\<lambda>entry. \<not> match_principal_and_kvno (kvno (enroll s)) princ entry)
              (keytab_file s),
          trace := trace s @ KeytabClear princ (kvno (enroll s)) #
            discovery_probes w princ (kvno (enroll s)) password
              (adcli_enroll_get_keytab_enctypes (enroll s))
              (build_principal_salts w (enroll s) princ)\<rparr>))"
proof -
  have len: "length (build_principal_salts w (enroll s) princ) = 3"
    by (simp add: build_principal_salts_def)
  show ?thesis
    unfolding add_principal_to_keytab_unfold [OF kt code pw]
    using neg
    by (simp add: len n [symmetric] discover_salt_from_exact
        adcli_krb5_keytab_add_entries_exact [OF add] emit_def)
qed

lemma update_keytab_loop_exact:
  assumes kt: "keytab (enroll s) = Some handle"
    and code: "\<forall>princ \<in> set princs. adcli_krb5_keytab_clear_code w princ = 0"
    and pw: "computer_password (enroll s) = Some password"
    and add: "\<forall>entry. krb5_kt_add_entry w entry = 0"
    and range: "0 \<le> which" "which < 3"
  shows "update_keytab_loop w princs which s =
    (Returned ADCLI_SUCCESS,
     s\<lparr>keytab_file :=
         foldl (\<lambda>entries princ.
                  filter (\<lambda>entry. \<not> match_principal_and_kvno (kvno (enroll s)) princ entry) entries
                  @ map (new_entry w princ (kvno (enroll s)) password
                           (build_principal_salts w (enroll s) princ ! nat which))
                        (adcli_enroll_get_keytab_enctypes (enroll s)))
           (keytab_file s) princs,
       trace := trace s @
         concat (map (\<lambda>princ. KeytabClear princ (kvno (enroll s)) #
                   map (\<lambda>enctype. KeytabAdd (new_entry w princ (kvno (enroll s)) password
                          (build_principal_salts w (enroll s) princ ! nat which) enctype))
                       (adcli_enroll_get_keytab_enctypes (enroll s)))
                 princs)\<rparr>)"
  using kt code pw
proof (induction princs arbitrary: s)
  case Nil
  then show ?case by simp
next
  case (Cons princ princs)
  let ?s1 = "s\<lparr>keytab_file :=
         filter (\<lambda>entry. \<not> match_principal_and_kvno (kvno (enroll s)) princ entry) (keytab_file s)
         @ map (new_entry w princ (kvno (enroll s)) password
                  (build_principal_salts w (enroll s) princ ! nat which))
               (adcli_enroll_get_keytab_enctypes (enroll s)),
       trace := trace s @ KeytabClear princ (kvno (enroll s)) #
         map (\<lambda>enctype. KeytabAdd (new_entry w princ (kvno (enroll s)) password
                (build_principal_salts w (enroll s) princ ! nat which) enctype))
             (adcli_enroll_get_keytab_enctypes (enroll s))\<rparr>"
  have c: "adcli_krb5_keytab_clear_code w princ = 0" using Cons.prems(2) by simp
  have one: "add_principal_to_keytab w princ which s = ((Returned ADCLI_SUCCESS, which), ?s1)"
    by (rule add_principal_to_keytab_known [OF Cons.prems(1) c Cons.prems(3) add range])
  have e: "enroll ?s1 = enroll s" by simp
  have rest: "update_keytab_loop w princs which ?s1 = (Returned ADCLI_SUCCESS,
     ?s1\<lparr>keytab_file :=
         foldl (\<lambda>entries princ.
                  filter (\<lambda>entry. \<not> match_principal_and_kvno (kvno (enroll ?s1)) princ entry) entries
                  @ map (new_entry w princ (kvno (enroll ?s1)) password
                           (build_principal_salts w (enroll ?s1) princ ! nat which))
                        (adcli_enroll_get_keytab_enctypes (enroll ?s1)))
           (keytab_file ?s1) princs,
       trace := trace ?s1 @
         concat (map (\<lambda>princ. KeytabClear princ (kvno (enroll ?s1)) #
                   map (\<lambda>enctype. KeytabAdd (new_entry w princ (kvno (enroll ?s1)) password
                          (build_principal_salts w (enroll ?s1) princ ! nat which) enctype))
                       (adcli_enroll_get_keytab_enctypes (enroll ?s1)))
                 princs)\<rparr>)"
    by (rule Cons.IH) (use Cons.prems in simp_all)
  show ?case
    unfolding update_keytab_loop.simps one
    by (simp add: rest [unfolded e])
qed

lemma update_keytab_for_principals_exact:
  assumes princs: "keytab_principals (enroll s) = Some (first # others)"
    and k5: "conn_krb5_context (conn s)"
    and kt: "keytab (enroll s) = Some handle"
    and pw: "computer_password (enroll s) = Some password"
    and code: "\<forall>princ \<in> set (first # others). adcli_krb5_keytab_clear_code w princ = 0"
    and add: "\<forall>entry. krb5_kt_add_entry w entry = 0"
    and n: "n = first_accepted w first (kvno (enroll s)) password
                  (adcli_enroll_get_keytab_enctypes (enroll s))
                  (build_principal_salts w (enroll s) first)"
  shows "update_keytab_for_principals w s =
    (if n < 3 then
       (Returned ADCLI_SUCCESS,
        s\<lparr>keytab_file :=
            foldl (\<lambda>entries princ.
                     filter (\<lambda>entry. \<not> match_principal_and_kvno (kvno (enroll s)) princ entry)
                       entries
                     @ map (new_entry w princ (kvno (enroll s)) password
                              (build_principal_salts w (enroll s) princ ! n))
                           (adcli_enroll_get_keytab_enctypes (enroll s)))
              (keytab_file s) (first # others),
          trace := trace s @ KeytabClear first (kvno (enroll s)) #
            discovery_probes w first (kvno (enroll s)) password
              (adcli_enroll_get_keytab_enctypes (enroll s))
              (build_principal_salts w (enroll s) first) @
            map (\<lambda>enctype. KeytabAdd (new_entry w first (kvno (enroll s)) password
                   (build_principal_salts w (enroll s) first ! n) enctype))
                (adcli_enroll_get_keytab_enctypes (enroll s)) @
            concat (map (\<lambda>princ. KeytabClear princ (kvno (enroll s)) #
                      map (\<lambda>enctype. KeytabAdd (new_entry w princ (kvno (enroll s)) password
                             (build_principal_salts w (enroll s) princ ! n) enctype))
                          (adcli_enroll_get_keytab_enctypes (enroll s)))
                    others)\<rparr>)
     else
       (Returned ADCLI_ERR_DIRECTORY,
        s\<lparr>keytab_file :=
            filter (\<lambda>entry. \<not> match_principal_and_kvno (kvno (enroll s)) first entry)
              (keytab_file s),
          trace := trace s @ KeytabClear first (kvno (enroll s)) #
            discovery_probes w first (kvno (enroll s)) password
              (adcli_enroll_get_keytab_enctypes (enroll s))
              (build_principal_salts w (enroll s) first)\<rparr>))"
proof -
  have neg: "(- 1 :: int) < 0" by simp
  have c1: "adcli_krb5_keytab_clear_code w first = 0" using code by simp
  have c2: "\<forall>princ \<in> set others. adcli_krb5_keytab_clear_code w princ = 0" using code by simp
  note one = add_principal_to_keytab_discovering [OF kt c1 pw add neg n]
  have start: "update_keytab_for_principals w s = update_keytab_loop w (first # others) (- 1) s"
    using princs k5 by (simp add: update_keytab_for_principals_def)
  show ?thesis
  proof (cases "n < 3")
    case False
    then show ?thesis
      unfolding start update_keytab_loop.simps one by simp
  next
    case True
    let ?s1 = "s\<lparr>keytab_file :=
            filter (\<lambda>entry. \<not> match_principal_and_kvno (kvno (enroll s)) first entry)
              (keytab_file s)
            @ map (new_entry w first (kvno (enroll s)) password
                     (build_principal_salts w (enroll s) first ! n))
                  (adcli_enroll_get_keytab_enctypes (enroll s)),
          trace := trace s @ KeytabClear first (kvno (enroll s)) #
            discovery_probes w first (kvno (enroll s)) password
              (adcli_enroll_get_keytab_enctypes (enroll s))
              (build_principal_salts w (enroll s) first) @
            map (\<lambda>enctype. KeytabAdd (new_entry w first (kvno (enroll s)) password
                   (build_principal_salts w (enroll s) first ! n) enctype))
                (adcli_enroll_get_keytab_enctypes (enroll s))\<rparr>"
    have e: "enroll ?s1 = enroll s" by simp
    have kt1: "keytab (enroll ?s1) = Some handle" using kt by simp
    have pw1: "computer_password (enroll ?s1) = Some password" using pw by simp
    have r1: "(0 :: int) \<le> int n" by simp
    have r2: "int n < 3" using True by simp
    note rest = update_keytab_loop_exact [OF kt1 c2 pw1 add r1 r2, unfolded e]
    show ?thesis
      unfolding start update_keytab_loop.simps one
      using True by (simp add: rest)
  qed
qed

lemma first_index_facts:
  assumes "n = length (takeWhile (\<lambda>x. \<not> P x) xs)"
  shows "(n < length xs \<longleftrightarrow> (\<exists>x \<in> set xs. P x))"
    and "n < length xs \<Longrightarrow> P (xs ! n)"
    and "j < n \<Longrightarrow> \<not> P (xs ! j)"
proof -
  have le: "n \<le> length xs" unfolding assms by (rule length_takeWhile_le)
  have "n = length xs \<longleftrightarrow> (\<forall>x \<in> set xs. \<not> P x)"
  proof
    assume "n = length xs"
    then have "takeWhile (\<lambda>x. \<not> P x) xs = xs"
      unfolding assms by (metis takeWhile_eq_take take_all order_refl)
    then show "\<forall>x \<in> set xs. \<not> P x" by (simp add: takeWhile_eq_all_conv)
  next
    assume "\<forall>x \<in> set xs. \<not> P x"
    then have "takeWhile (\<lambda>x. \<not> P x) xs = xs" by (simp add: takeWhile_eq_all_conv)
    from arg_cong [OF this, of length] show "n = length xs" unfolding assms .
  qed
  then show "(n < length xs \<longleftrightarrow> (\<exists>x \<in> set xs. P x))" using le by auto
  show "n < length xs \<Longrightarrow> P (xs ! n)"
    unfolding assms using nth_length_takeWhile [of "\<lambda>x. \<not> P x" xs] by simp
  show "j < n \<Longrightarrow> \<not> P (xs ! j)"
  proof -
    assume j: "j < n"
    then have m: "takeWhile (\<lambda>x. \<not> P x) xs ! j \<in> set (takeWhile (\<lambda>x. \<not> P x) xs)"
      unfolding assms by (rule nth_mem)
    have "takeWhile (\<lambda>x. \<not> P x) xs ! j = xs ! j"
      using j unfolding assms by (rule takeWhile_nth)
    then show "\<not> P (xs ! j)" using set_takeWhileD [OF m] by simp
  qed
qed

text \<open>
  Claim C1. \<^verbatim>\<open>update_keytab_for_principals\<close>, on a context with a keytab, a password and
  principals \<open>first # others\<close>, with a keytab that can be cleared and written. The
  candidate salts of a principal are, in this order, the canonical Kerberos salt, the
  Windows 2003 computer account salt and the empty salt. \<open>n\<close> is the index of the first
  candidate of the first principal for which the realm accepts, for some enabled enctype,
  the key derived from the password with it. The update clears the entries of the first
  principal and probes for it alone: per candidate up to the \<open>n\<close>-th, per enabled enctype up
  to the first accepted, one AS-REQ at the kvno with the derived key. When a candidate is
  accepted, it writes the entries of the first principal and then clears and writes those
  of every other principal, without another probe, each entry with the candidate of the
  same index \<open>n\<close> of its own principal; the result is SUCCESS. When none is accepted the
  result is DIRECTORY, and nothing is written.
\<close>

theorem salt_discovered_with_first_principal:
  assumes princs: "keytab_principals (enroll s) = Some (first # others)"
    and k5: "conn_krb5_context (conn s)"
    and kt: "keytab (enroll s) \<noteq> None"
    and pw: "computer_password (enroll s) = Some password"
    and code: "\<forall>princ \<in> set (first # others). adcli_krb5_keytab_clear_code w princ = 0"
    and add: "\<forall>entry. krb5_kt_add_entry w entry = 0"
    and kv: "kv = kvno (enroll s)"
    and ets: "enctypes = (case keytab_enctypes (enroll s) of
                           Some chosen \<Rightarrow> chosen | None \<Rightarrow> [18, 17, 16, 23, 3, 1])"
    and salts: "salts = (\<lambda>princ. [Some (krb5_principal2salt w princ),
                                  Some (adcli_krb5_w2k3_salt w princ (computer_name (enroll s))),
                                  None])"
    and accepted: "accepted = (\<lambda>salt. \<exists>enctype \<in> set enctypes.
        as_req_accepted w first kv enctype (krb5_c_string_to_key w enctype password salt))"
    and n: "n = length (takeWhile (\<lambda>salt. \<not> accepted salt) (salts first))"
    and probes: "probes =
      concat (map (\<lambda>salt.
                map (\<lambda>enctype. AsReq first kv enctype
                                 (krb5_c_string_to_key w enctype password salt))
                  (take (Suc (length (takeWhile
                     (\<lambda>enctype. \<not> as_req_accepted w first kv enctype
                                    (krb5_c_string_to_key w enctype password salt)) enctypes)))
                     enctypes))
              (take (Suc n) (salts first)))"
    and entries: "entries = (\<lambda>princ.
        map (\<lambda>enctype. \<lparr>principal = princ, vno = kv, key_enctype = enctype,
                         key_contents = krb5_c_string_to_key w enctype password
                                          (salts princ ! n)\<rparr>) enctypes)"
    and cleared: "cleared = (\<lambda>princ. filter (\<lambda>entry. \<not> (principal entry = princ \<and>
                                                          vno entry + 1 \<noteq> kv)))"
  shows "update_keytab_for_principals w s =
      (if n < 3 then
         (Returned ADCLI_SUCCESS,
          s\<lparr>keytab_file :=
              foldl (\<lambda>file princ. cleared princ file @ entries princ)
                (keytab_file s) (first # others),
            trace := trace s @ KeytabClear first kv # probes @ map KeytabAdd (entries first) @
              concat (map (\<lambda>princ. KeytabClear princ kv # map KeytabAdd (entries princ))
                        others)\<rparr>)
       else
         (Returned ADCLI_ERR_DIRECTORY,
          s\<lparr>keytab_file := cleared first (keytab_file s),
            trace := trace s @ KeytabClear first kv # probes\<rparr>)) \<and>
    (n < 3 \<longleftrightarrow> (\<exists>salt \<in> set (salts first). accepted salt)) \<and>
    (n < 3 \<longrightarrow> accepted (salts first ! n) \<and> (\<forall>j < n. \<not> accepted (salts first ! j)))"
proof -
  from kt obtain handle where h: "keytab (enroll s) = Some handle" by auto
  have ets': "adcli_enroll_get_keytab_enctypes (enroll s) = enctypes"
    by (simp add: ets adcli_enroll_get_keytab_enctypes_def default_enctypes_def
        split: option.splits)
  have salts': "\<And>princ. build_principal_salts w (enroll s) princ = salts princ"
    by (simp add: salts build_principal_salts_def)
  have acc': "\<And>salt. salt_accepted w first kv password enctypes salt = accepted salt"
    by (simp add: accepted salt_accepted_def list_ex_iff)
  have n': "n = first_accepted w first (kvno (enroll s)) password
                  (adcli_enroll_get_keytab_enctypes (enroll s))
                  (build_principal_salts w (enroll s) first)"
    unfolding first_accepted_def ets' salts' kv [symmetric] acc' n ..
  have probes': "discovery_probes w first kv password enctypes (salts first) = probes"
    unfolding discovery_probes_def probes_with_salt_def first_accepted_def acc' n [symmetric]
      probes ..
  have entries': "\<And>princ. map (new_entry w princ kv password (salts princ ! n)) enctypes =
      entries princ"
    by (simp add: entries new_entry_def)
  have adds': "\<And>princ. map (\<lambda>enctype. KeytabAdd
      (new_entry w princ kv password (salts princ ! n) enctype)) enctypes =
      map KeytabAdd (entries princ)"
    by (simp add: entries new_entry_def)
  have cleared': "\<And>princ file.
      filter (\<lambda>entry. \<not> match_principal_and_kvno kv princ entry) file = cleared princ file"
    by (simp add: cleared match_principal_and_kvno_iff)
  note exact = update_keytab_for_principals_exact [OF princs k5 h pw code add n',
      unfolded ets' salts' kv [symmetric] probes' entries' adds' cleared']
  have len: "length (salts first) = 3" by (simp add: salts)
  note facts = first_index_facts [of n accepted "salts first", OF n, unfolded len]
  show ?thesis
    using exact facts by blast
qed

theorem salt_discovered_with_first_principal_witness:
  "keytab_principals (enroll scenario_keytab) =
     Some [Principal [''HOST01$''] ''CORP.EXAMPLE.COM'',
           Principal [''HOST'', ''host01.corp.example.com''] ''CORP.EXAMPLE.COM''] \<and>
   conn_krb5_context (conn scenario_keytab) \<and>
   keytab (enroll scenario_keytab) = Some Default_Keytab \<and>
   computer_password (enroll scenario_keytab) = Some [65, 66] \<and>
   update_keytab_for_principals demo_world scenario_keytab =
     (Returned ADCLI_SUCCESS,
      scenario_keytab\<lparr>keytab_file :=
        [\<lparr>principal = Principal [''HOST01$''] ''CORP.EXAMPLE.COM'', vno = 2,
          key_enctype = 18, key_contents = [87]\<rparr>,
         \<lparr>principal = Principal [''HOST01$''] ''CORP.EXAMPLE.COM'', vno = 2,
          key_enctype = 23, key_contents = [87]\<rparr>,
         \<lparr>principal = Principal [''HOST'', ''host01.corp.example.com''] ''CORP.EXAMPLE.COM'',
          vno = 2, key_enctype = 18, key_contents = [87]\<rparr>,
         \<lparr>principal = Principal [''HOST'', ''host01.corp.example.com''] ''CORP.EXAMPLE.COM'',
          vno = 2, key_enctype = 23, key_contents = [87]\<rparr>],
       trace :=
        [KeytabClear (Principal [''HOST01$''] ''CORP.EXAMPLE.COM'') 2,
         AsReq (Principal [''HOST01$''] ''CORP.EXAMPLE.COM'') 2 18 [67],
         AsReq (Principal [''HOST01$''] ''CORP.EXAMPLE.COM'') 2 23 [67],
         AsReq (Principal [''HOST01$''] ''CORP.EXAMPLE.COM'') 2 18 [87],
         KeytabAdd \<lparr>principal = Principal [''HOST01$''] ''CORP.EXAMPLE.COM'', vno = 2,
                    key_enctype = 18, key_contents = [87]\<rparr>,
         KeytabAdd \<lparr>principal = Principal [''HOST01$''] ''CORP.EXAMPLE.COM'', vno = 2,
                    key_enctype = 23, key_contents = [87]\<rparr>,
         KeytabClear (Principal [''HOST'', ''host01.corp.example.com''] ''CORP.EXAMPLE.COM'') 2,
         KeytabAdd \<lparr>principal =
                      Principal [''HOST'', ''host01.corp.example.com''] ''CORP.EXAMPLE.COM'',
                    vno = 2, key_enctype = 18, key_contents = [87]\<rparr>,
         KeytabAdd \<lparr>principal =
                      Principal [''HOST'', ''host01.corp.example.com''] ''CORP.EXAMPLE.COM'',
                    vno = 2, key_enctype = 23, key_contents = [87]\<rparr>]\<rparr>) \<and>
   update_keytab_for_principals demo_world_rejecting scenario_keytab =
     (Returned ADCLI_ERR_DIRECTORY,
      scenario_keytab\<lparr>keytab_file := [],
       trace :=
        [KeytabClear (Principal [''HOST01$''] ''CORP.EXAMPLE.COM'') 2,
         AsReq (Principal [''HOST01$''] ''CORP.EXAMPLE.COM'') 2 18 [67],
         AsReq (Principal [''HOST01$''] ''CORP.EXAMPLE.COM'') 2 23 [67],
         AsReq (Principal [''HOST01$''] ''CORP.EXAMPLE.COM'') 2 18 [87],
         AsReq (Principal [''HOST01$''] ''CORP.EXAMPLE.COM'') 2 23 [87],
         AsReq (Principal [''HOST01$''] ''CORP.EXAMPLE.COM'') 2 18 [],
         AsReq (Principal [''HOST01$''] ''CORP.EXAMPLE.COM'') 2 23 []]\<rparr>)"
proof -
  let ?P1 = "Principal [''HOST01$''] ''CORP.EXAMPLE.COM''"
  let ?P2 = "Principal [''HOST'', ''host01.corp.example.com''] ''CORP.EXAMPLE.COM''"
  have princs: "keytab_principals (enroll scenario_keytab) = Some (?P1 # [?P2])"
    by (simp add: scenario_keytab_def)
  have k5: "conn_krb5_context (conn scenario_keytab)"
    by (simp add: scenario_keytab_def fresh_sys_def demo_conn_def)
  have kt: "keytab (enroll scenario_keytab) \<noteq> None"
    and kt': "keytab (enroll scenario_keytab) = Some Default_Keytab"
    by (simp_all add: scenario_keytab_def)
  have pw: "computer_password (enroll scenario_keytab) = Some [65, 66]"
    by (simp add: scenario_keytab_def)
  have code1: "\<forall>princ \<in> set (?P1 # [?P2]). adcli_krb5_keytab_clear_code demo_world princ = 0"
    and code2: "\<forall>princ \<in> set (?P1 # [?P2]).
      adcli_krb5_keytab_clear_code demo_world_rejecting princ = 0"
    by (simp_all add: demo_world_def demo_world_rejecting_def)
  have add1: "\<forall>entry. krb5_kt_add_entry demo_world entry = 0"
    and add2: "\<forall>entry. krb5_kt_add_entry demo_world_rejecting entry = 0"
    by (simp_all add: demo_world_def demo_world_rejecting_def)
  have f: "keytab_enctypes (enroll scenario_keytab) = Some [18, 23]"
    "kvno (enroll scenario_keytab) = 2"
    "computer_name (enroll scenario_keytab) = Some ''HOST01''"
    "keytab_file scenario_keytab = []" "trace scenario_keytab = []"
    by (simp_all add: scenario_keytab_def fresh_sys_def)
  have w1: "krb5_principal2salt demo_world = (\<lambda>p. ''C'')"
    "adcli_krb5_w2k3_salt demo_world = (\<lambda>p name. ''W'')"
    "krb5_c_string_to_key demo_world = demo_string_to_key"
    "as_req_accepted demo_world = (\<lambda>p kv enctype key. key = [87])"
    by (simp_all add: demo_world_def)
  have w2: "krb5_principal2salt demo_world_rejecting = (\<lambda>p. ''C'')"
    "adcli_krb5_w2k3_salt demo_world_rejecting = (\<lambda>p name. ''W'')"
    "krb5_c_string_to_key demo_world_rejecting = demo_string_to_key"
    "as_req_accepted demo_world_rejecting = (\<lambda>p kv enctype key. False)"
    by (simp_all add: demo_world_def demo_world_rejecting_def)
  have keys: "demo_string_to_key 18 [65, 66] (Some ''C'') = [67]"
    "demo_string_to_key 23 [65, 66] (Some ''C'') = [67]"
    "demo_string_to_key 18 [65, 66] (Some ''W'') = [87]"
    "demo_string_to_key 23 [65, 66] (Some ''W'') = [87]"
    "demo_string_to_key 18 [65, 66] None = []"
    "demo_string_to_key 23 [65, 66] None = []"
    by (simp_all add: demo_string_to_key_def)
  note a = salt_discovered_with_first_principal
    [OF princs k5 kt pw code1 add1 refl refl refl refl refl refl refl refl, THEN conjunct1]
  note b = salt_discovered_with_first_principal
    [OF princs k5 kt pw code2 add2 refl refl refl refl refl refl refl refl, THEN conjunct1]
  have ra: "update_keytab_for_principals demo_world scenario_keytab =
     (Returned ADCLI_SUCCESS,
      scenario_keytab\<lparr>keytab_file :=
        [\<lparr>principal = ?P1, vno = 2, key_enctype = 18, key_contents = [87]\<rparr>,
         \<lparr>principal = ?P1, vno = 2, key_enctype = 23, key_contents = [87]\<rparr>,
         \<lparr>principal = ?P2, vno = 2, key_enctype = 18, key_contents = [87]\<rparr>,
         \<lparr>principal = ?P2, vno = 2, key_enctype = 23, key_contents = [87]\<rparr>],
       trace :=
        [KeytabClear ?P1 2, AsReq ?P1 2 18 [67], AsReq ?P1 2 23 [67], AsReq ?P1 2 18 [87],
         KeytabAdd \<lparr>principal = ?P1, vno = 2, key_enctype = 18, key_contents = [87]\<rparr>,
         KeytabAdd \<lparr>principal = ?P1, vno = 2, key_enctype = 23, key_contents = [87]\<rparr>,
         KeytabClear ?P2 2,
         KeytabAdd \<lparr>principal = ?P2, vno = 2, key_enctype = 18, key_contents = [87]\<rparr>,
         KeytabAdd \<lparr>principal = ?P2, vno = 2, key_enctype = 23, key_contents = [87]\<rparr>]\<rparr>)"
    using a by (simp add: f w1 keys)
  have rb: "update_keytab_for_principals demo_world_rejecting scenario_keytab =
     (Returned ADCLI_ERR_DIRECTORY,
      scenario_keytab\<lparr>keytab_file := [],
       trace :=
        [KeytabClear ?P1 2, AsReq ?P1 2 18 [67], AsReq ?P1 2 23 [67], AsReq ?P1 2 18 [87],
         AsReq ?P1 2 23 [87], AsReq ?P1 2 18 [], AsReq ?P1 2 23 []]\<rparr>)"
    using b by (simp add: f w2 keys)
  from princs k5 kt' pw ra rb show ?thesis by simp
qed

subsection \<open>The join, stage by stage\<close>

lemma next_stage_simps:
  "next_stage f (Returned res, s) = f res s"
  "next_stage f (Aborted, s) = (Aborted, s)"
  by (simp_all add: next_stage_def)

lemma next_stage_Returned:
  "next_stage f rs = (Returned r, s') \<Longrightarrow>
   \<exists>res s. rs = (Returned res, s) \<and> f res s = (Returned r, s')"
  by (cases rs; cases "fst rs") (auto simp: next_stage_def)

lemma next_stage_frame:
  assumes run: "next_stage f rs = (r, s')"
    and stage: "\<And>res s r s'. f res s = (r, s') \<Longrightarrow> F s' = F s"
  shows "F s' = F (snd rs)"
proof (cases rs)
  case (Pair o1 s1)
  show ?thesis
  proof (cases o1)
    case Aborted
    then show ?thesis using run Pair by (simp add: next_stage_def)
  next
    case (Returned res)
    then have "f res s1 = (r, s')" using run Pair by (simp add: next_stage_def)
    from stage [OF this] show ?thesis using Pair by simp
  qed
qed

lemma ensure_host_fqdn_frame:
  "ensure_host_fqdn res s = (r, s') \<Longrightarrow> outside_prepare s' = outside_prepare s"
  by (auto simp: ensure_host_fqdn_def outside_prepare_def unprepared_def split: if_splits)

lemma ensure_computer_name_frame:
  "ensure_computer_name res s = (r, s') \<Longrightarrow> outside_prepare s' = outside_prepare s"
  by (auto simp: ensure_computer_name_def outside_prepare_def unprepared_def
      split: if_splits option.splits)

lemma ensure_computer_sam_frame:
  "ensure_computer_sam w res s = (r, s') \<Longrightarrow> outside_prepare s' = outside_prepare s"
  by (auto simp: ensure_computer_sam_def outside_prepare_def unprepared_def Let_def
      split: if_splits option.splits)

lemma generate_host_password_loop_outside:
  "keytab_file (snd (generate_host_password_loop password len at s)) = keytab_file s \<and>
   trace (snd (generate_host_password_loop password len at s)) = trace s"
proof (induction password len at s rule: generate_host_password_loop.induct)
  case (1 password len at s)
  show ?case
  proof (cases "at \<noteq> len \<and> \<not> len < at \<and> krb5_c_random_make_octets (len - at) s \<noteq> None")
    case False
    then show ?thesis
      by (auto simp: generate_host_password_loop.simps [of password] split: option.splits)
  next
    case True
    then obtain buffer s1 where r: "krb5_c_random_make_octets (len - at) s = Some (buffer, s1)"
      by auto
    obtain filtered n where f: "filter_password_chars buffer (len - at) = (filtered, n)"
      by (cases "filter_password_chars buffer (len - at)")
    have c: "keytab_file s1 = keytab_file s \<and> trace s1 = trace s"
      using r by (auto simp: krb5_c_random_make_octets_def split: if_splits)
    have "generate_host_password_loop password len at s =
        generate_host_password_loop (take at password @ filtered @ drop len password) len (at + n) s1"
      using True r f by (simp add: generate_host_password_loop.simps [of password])
    moreover note "1.IH" [OF _ _ r refl f [symmetric]]
    ultimately show ?thesis using True c by simp
  qed
qed

lemma generate_host_password_outside:
  assumes "generate_host_password len s = (r, s')"
  shows "enroll s' = enroll s \<and> conn s' = conn s \<and> keytab_file s' = keytab_file s \<and>
    trace s' = trace s"
proof -
  have s': "s' = snd (generate_host_password len s)" using assms by simp
  have a: "conn s' = conn s \<and> enroll s' = enroll s"
    unfolding s' by (rule generate_host_password_frame)
  have b: "keytab_file s' = keytab_file s \<and> trace s' = trace s"
    unfolding s' using generate_host_password_loop_outside [of "replicate (len + 1) 0" len 0 s]
    by (simp add: generate_host_password_def)
  from a b show ?thesis by simp
qed

lemma ensure_computer_password_frame:
  "ensure_computer_password w res s = (r, s') \<Longrightarrow> outside_prepare s' = outside_prepare s"
  by (auto simp: ensure_computer_password_def outside_prepare_def unprepared_def
      split: if_splits option.splits prod.splits host_password.splits
      dest!: generate_host_password_outside)

lemma ensure_host_keytab_frame:
  "ensure_host_keytab w res s = (r, s') \<Longrightarrow> outside_prepare s' = outside_prepare s"
  by (auto simp: ensure_host_keytab_def outside_prepare_def unprepared_def
      split: if_splits option.splits)

lemma ensure_service_names_frame:
  "ensure_service_names res s = (r, s') \<Longrightarrow> outside_prepare s' = outside_prepare s"
  by (auto simp: ensure_service_names_def outside_prepare_def unprepared_def split: if_splits)

lemma ensure_service_principals_frame:
  "ensure_service_principals w res s = (r, s') \<Longrightarrow> outside_prepare s' = outside_prepare s"
  by (auto simp: ensure_service_principals_def outside_prepare_def unprepared_def Let_def
      split: if_splits option.splits prod.splits)

lemma adcli_enroll_prepare_frame:
  assumes run: "adcli_enroll_prepare w flags s = (r, s')"
  shows "outside_prepare s' = outside_prepare s"
proof -
  let ?a = "ensure_host_fqdn ADCLI_SUCCESS s"
  let ?b = "next_stage ensure_computer_name ?a"
  let ?c = "next_stage (ensure_computer_sam w) ?b"
  let ?d = "next_stage (ensure_computer_password w) ?c"
  let ?e = "(if \<not> ADCLI_ENROLL_NO_KEYTAB flags then next_stage (ensure_host_keytab w)
            else (\<lambda>rs. rs)) ?d"
  let ?f = "next_stage ensure_service_names ?e"
  have a: "outside_prepare (snd ?a) = outside_prepare s"
    by (rule ensure_host_fqdn_frame [of ADCLI_SUCCESS s "fst ?a"]) simp
  have b: "outside_prepare (snd ?b) = outside_prepare (snd ?a)"
    by (rule next_stage_frame [of ensure_computer_name ?a "fst ?b"])
       (simp, rule ensure_computer_name_frame)
  have c: "outside_prepare (snd ?c) = outside_prepare (snd ?b)"
    by (rule next_stage_frame [of "ensure_computer_sam w" ?b "fst ?c"])
       (simp, rule ensure_computer_sam_frame)
  have d: "outside_prepare (snd ?d) = outside_prepare (snd ?c)"
    by (rule next_stage_frame [of "ensure_computer_password w" ?c "fst ?d"])
       (simp, rule ensure_computer_password_frame)
  have e: "outside_prepare (snd ?e) = outside_prepare (snd ?d)"
  proof (cases "ADCLI_ENROLL_NO_KEYTAB flags")
    case True
    then show ?thesis by simp
  next
    case False
    have "outside_prepare (snd (next_stage (ensure_host_keytab w) ?d)) =
        outside_prepare (snd ?d)"
      by (rule next_stage_frame [of "ensure_host_keytab w" ?d
            "fst (next_stage (ensure_host_keytab w) ?d)"])
         (simp, rule ensure_host_keytab_frame)
    then show ?thesis using False by simp
  qed
  have f: "outside_prepare (snd ?f) = outside_prepare (snd ?e)"
    by (rule next_stage_frame [of ensure_service_names ?e "fst ?f"])
       (simp, rule ensure_service_names_frame)
  have "next_stage (ensure_service_principals w) ?f = (r, s')"
    using run unfolding adcli_enroll_prepare_def .
  then have g: "outside_prepare s' = outside_prepare (snd ?f)"
    by (rule next_stage_frame) (rule ensure_service_principals_frame)
  show ?thesis
    unfolding g f e d c b a ..
qed

lemma unprepared_fields:
  assumes "unprepared e' = unprepared e"
  shows "kvno e' = kvno e" "computer_attributes e' = computer_attributes e"
    "computer_dn e' = computer_dn e" "keytab_enctypes e' = keytab_enctypes e"
    "preferred_ou e' = preferred_ou e" "computer_container e' = computer_container e"
proof -
  have k: "\<And>f. f (unprepared e') = f (unprepared e)" using assms by simp
  show "kvno e' = kvno e" using k [of kvno] by (simp add: unprepared_def)
  show "computer_attributes e' = computer_attributes e"
    using k [of computer_attributes] by (simp add: unprepared_def)
  show "computer_dn e' = computer_dn e" using k [of computer_dn] by (simp add: unprepared_def)
  show "keytab_enctypes e' = keytab_enctypes e"
    using k [of keytab_enctypes] by (simp add: unprepared_def)
  show "preferred_ou e' = preferred_ou e"
    using k [of preferred_ou] by (simp add: unprepared_def)
  show "computer_container e' = computer_container e"
    using k [of computer_container] by (simp add: unprepared_def)
qed

lemma adcli_enroll_prepare_outside:
  assumes run: "adcli_enroll_prepare w flags s = (r, s')"
  shows "kvno (enroll s') = kvno (enroll s) \<and> conn s' = conn s \<and>
    keytab_file s' = keytab_file s \<and> trace s' = trace s"
proof -
  from adcli_enroll_prepare_frame [OF run]
  have u: "unprepared (enroll s') = unprepared (enroll s)"
    and rest: "conn s' = conn s \<and> keytab_file s' = keytab_file s \<and> trace s' = trace s"
    by (simp_all add: outside_prepare_def)
  from unprepared_fields(1) [OF u] rest show ?thesis by simp
qed


lemma join_until_read_back_stages:
  "join_until_read_back w flags s = (Returned ADCLI_SUCCESS, s7) \<longleftrightarrow>
   (\<exists>s1 s2 s3 s4 s5 s6.
      conn_discover w (enroll_clear_state s) = (Returned ADCLI_SUCCESS, s1) \<and>
      adcli_enroll_prepare w flags s1 = (Returned ADCLI_SUCCESS, s2) \<and>
      conn_connect w s2 = (Returned ADCLI_SUCCESS, s3) \<and>
      place_computer_account w s3 = (Returned ADCLI_SUCCESS, s4) \<and>
      create_or_update_computer_account w (ADCLI_ENROLL_ALLOW_OVERWRITE flags) s4 =
        (Returned ADCLI_SUCCESS, s5) \<and>
      set_computer_password w s5 = (Returned ADCLI_SUCCESS, s6) \<and>
      retrieve_computer_account_info w s6 = (Returned ADCLI_SUCCESS, s7))"
  unfolding join_until_read_back_def and_then_success by blast




lemma keytab_event_simps:
  "keytab_event kv (KeytabClear princ kv)"
  "keytab_event kv (AsReq princ kv enctype key)"
  "keytab_event kv (KeytabAdd (new_entry w princ kv password salt enctype))"
  by (simp_all add: new_entry_def)

lemma add_principal_to_keytab_events:
  assumes "add_principal_to_keytab w princ which_salt s = ((r, which), s')"
  shows "logs (keytab_event (kvno (enroll s))) s s'"
  using add_principal_to_keytab_frame [OF assms]
  by (auto simp: keytab_event_simps new_entry_simps elim!: logs_mono)

lemma update_keytab_loop_events:
  "update_keytab_loop w princs which_salt s = (r, s') \<Longrightarrow>
   logs (keytab_event (kvno (enroll s))) s s'"
proof (induction princs arbitrary: which_salt s)
  case Nil
  then show ?case by (simp add: logs_same)
next
  case (Cons princ princs)
  obtain r1 wh s1 where a: "add_principal_to_keytab w princ which_salt s = ((r1, wh), s1)"
    by (cases "add_principal_to_keytab w princ which_salt s") auto
  note f = add_principal_to_keytab_frame [OF a]
  note l1 = add_principal_to_keytab_events [OF a]
  show ?case
  proof (cases "r1 = Returned ADCLI_SUCCESS")
    case True
    then have "update_keytab_loop w princs wh s1 = (r, s')"
      using Cons.prems a by simp
    from Cons.IH [OF this] have "logs (keytab_event (kvno (enroll s))) s1 s'"
      using f by simp
    with l1 show ?thesis by (rule logs_trans)
  next
    case False
    then have "s' = s1"
      using Cons.prems a by (cases r1; cases "case r1 of Returned x \<Rightarrow> x") auto
    then show ?thesis using l1 by simp
  qed
qed

lemma update_keytab_for_principals_events:
  assumes "update_keytab_for_principals w s = (r, s')"
  shows "enroll s' = enroll s \<and> conn s' = conn s \<and>
    logs (keytab_event (kvno (enroll s))) s s'"
proof (cases "keytab_principals (enroll s)")
  case None
  then show ?thesis using assms by (auto simp: update_keytab_for_principals_def logs_same)
next
  case (Some princs)
  show ?thesis
  proof (cases "conn_krb5_context (conn s)")
    case False
    then show ?thesis
      using assms Some by (auto simp: update_keytab_for_principals_def logs_same)
  next
    case True
    then have "update_keytab_loop w princs (- 1) s = (r, s')"
      using assms Some by (simp add: update_keytab_for_principals_def)
    then show ?thesis
      using update_keytab_loop_enroll update_keytab_loop_events by blast
  qed
qed


lemma synchronize_and_write_keytab_cases:
  assumes run: "synchronize_and_write_keytab w flags s = (r, s')"
  shows "\<exists>s3. enroll s3 = (enroll s)\<lparr>keytab_enctypes := keytab_enctypes (enroll s3)\<rparr> \<and>
    conn s3 = conn s \<and> keytab_file s3 = keytab_file s \<and> logs is_modify s s3 \<and>
    (r = Aborted \<and> s' = s3 \<or>
     ADCLI_ENROLL_NO_KEYTAB flags \<and> r = Returned ADCLI_SUCCESS \<and> s' = s3 \<or>
     \<not> ADCLI_ENROLL_NO_KEYTAB flags \<and> update_keytab_for_principals w s3 = (r, s'))"
proof -
  obtain o1 s1 where a1: "update_and_calculate_enctypes w s = (o1, s1)"
    by (cases "update_and_calculate_enctypes w s")
  obtain o2 s2 where a2: "update_dns_host_name w s1 = (o2, s2)"
    by (cases "update_dns_host_name w s1")
  obtain o3 s3 where a3: "update_service_principals w s2 = (o3, s3)"
    by (cases "update_service_principals w s2")
  note f1 = update_and_calculate_enctypes_frame [OF a1]
  note f2 = update_dns_host_name_frame [OF a2]
  note f3 = update_service_principals_frame [OF a3]
  have g1: "enroll s1 = (enroll s)\<lparr>keytab_enctypes := keytab_enctypes (enroll s1)\<rparr> \<and>
    conn s1 = conn s \<and> keytab_file s1 = keytab_file s \<and> logs is_modify s s1"
    using f1 by simp
  have g2: "enroll s2 = (enroll s)\<lparr>keytab_enctypes := keytab_enctypes (enroll s2)\<rparr> \<and>
    conn s2 = conn s \<and> keytab_file s2 = keytab_file s \<and> logs is_modify s s2"
    using f1 f2 by (auto intro: logs_trans)
  have g3: "enroll s3 = (enroll s)\<lparr>keytab_enctypes := keytab_enctypes (enroll s3)\<rparr> \<and>
    conn s3 = conn s \<and> keytab_file s3 = keytab_file s \<and> logs is_modify s s3"
    using g2 f3 by (auto intro: logs_trans)
  show ?thesis
  proof (cases o1)
    case Aborted
    then have "r = Aborted \<and> s' = s1"
      using run a1 by (simp add: synchronize_and_write_keytab_def)
    then show ?thesis using g1 by blast
  next
    case r1: (Returned x1)
    show ?thesis
    proof (cases o2)
      case Aborted
      then have "r = Aborted \<and> s' = s2"
        using run a1 a2 r1 by (simp add: synchronize_and_write_keytab_def)
      then show ?thesis using g2 by blast
    next
      case r2: (Returned x2)
      show ?thesis
      proof (cases o3)
        case Aborted
        then have "r = Aborted \<and> s' = s3"
          using run a1 a2 a3 r1 r2 by (simp add: synchronize_and_write_keytab_def)
        then show ?thesis using g3 by blast
      next
        case r3: (Returned x3)
        have "(if ADCLI_ENROLL_NO_KEYTAB flags then (Returned ADCLI_SUCCESS, s3)
               else update_keytab_for_principals w s3) = (r, s')"
          using run a1 a2 a3 r1 r2 r3 by (simp add: synchronize_and_write_keytab_def)
        then have "ADCLI_ENROLL_NO_KEYTAB flags \<and> r = Returned ADCLI_SUCCESS \<and> s' = s3 \<or>
          \<not> ADCLI_ENROLL_NO_KEYTAB flags \<and> update_keytab_for_principals w s3 = (r, s')"
          by (auto split: if_splits)
        then show ?thesis using g3 by blast
      qed
    qed
  qed
qed

lemma keytab_enctypes_update_fields:
  assumes "e' = e\<lparr>keytab_enctypes := x\<rparr>"
  shows "kvno e' = kvno e" "computer_password e' = computer_password e"
    "computer_name e' = computer_name e" "computer_sam e' = computer_sam e"
    "keytab_principals e' = keytab_principals e" "computer_dn e' = computer_dn e"
    "computer_attributes e' = computer_attributes e"
  using assms by simp_all

subsection \<open>The keytab after a join\<close>









subsection \<open>The order of the operations of a join\<close>

lemma retrieve_computer_account_info_valid:
  "retrieve_computer_account_info w s = (Returned ADCLI_SUCCESS, s') \<Longrightarrow>
   conn_ldap_connection (conn s') \<and>
   (\<forall>results v. kvno (enroll s) = 0 \<and> computer_attributes (enroll s') = Some results \<and>
      adcli_ldap_parse_value results ''msDS-KeyVersionNumber'' = Some v \<longrightarrow>
      snd (strtoul w v) = [])"
  by (auto simp: retrieve_computer_account_info_def ldap_search_def emit_def Let_def
      adcli_ldap_handle_failure_def LDAP_SUCCESS_def
      split: option.splits if_splits prod.splits)

lemma join_until_read_back_valid:
  assumes run: "join_until_read_back w flags s = (Returned ADCLI_SUCCESS, s7)"
  shows "conn_ldap_connection (conn s7) \<and>
   (\<forall>results v. kvno (enroll (enroll_clear_state s)) = 0 \<and>
      computer_attributes (enroll s7) = Some results \<and>
      adcli_ldap_parse_value results ''msDS-KeyVersionNumber'' = Some v \<longrightarrow>
      snd (strtoul w v) = [])"
proof -
  from run obtain s1 s2 s3 s4 s5 s6 where
    a1: "conn_discover w (enroll_clear_state s) = (Returned ADCLI_SUCCESS, s1)" and
    a2: "adcli_enroll_prepare w flags s1 = (Returned ADCLI_SUCCESS, s2)" and
    a3: "conn_connect w s2 = (Returned ADCLI_SUCCESS, s3)" and
    a4: "place_computer_account w s3 = (Returned ADCLI_SUCCESS, s4)" and
    a5: "create_or_update_computer_account w (ADCLI_ENROLL_ALLOW_OVERWRITE flags) s4 =
        (Returned ADCLI_SUCCESS, s5)" and
    a6: "set_computer_password w s5 = (Returned ADCLI_SUCCESS, s6)" and
    a7: "retrieve_computer_account_info w s6 = (Returned ADCLI_SUCCESS, s7)"
    unfolding join_until_read_back_stages by blast
  note f1 = conn_discover_frame [OF a1]
  note f2 = adcli_enroll_prepare_outside [OF a2]
  note f3 = conn_connect_frame [OF a3]
  note f4 = place_computer_account_frame [OF a4]
  note f5 = create_or_update_computer_account_frame [OF a5]
  note f6 = set_computer_password_frame [OF a6]
  have kv: "kvno (enroll s6) = kvno (enroll (enroll_clear_state s))"
    using f1 f2 f3 unplaced_fields(1) [of "enroll s4" "enroll s3"] f4 f5 f6 by simp
  from retrieve_computer_account_info_valid [OF a7] show ?thesis
    unfolding kv by blast
qed

lemma not_keytab_write:
  "is_directory_setup ev \<Longrightarrow> \<not> is_keytab_write ev"
  "is_modify ev \<Longrightarrow> \<not> is_keytab_write ev"
  by (cases ev; simp)+

lemma and_then_logs:
  assumes run: "and_then f g s = (r, s')"
    and first: "\<And>r1 s1. f s = (r1, s1) \<Longrightarrow> logs P s s1"
    and rest: "\<And>s1 r2 s2. g s1 = (r2, s2) \<Longrightarrow> logs P s1 s2"
  shows "logs P s s'"
  using and_then_cases [OF run] first rest by (blast intro: logs_trans)

lemma join_until_read_back_quiet:
  assumes run: "join_until_read_back w flags s = (r, s1)"
  shows "logs (\<lambda>ev. \<not> is_keytab_write ev) s s1 \<and> keytab_file s1 = keytab_file s"
proof -
  let ?P = "\<lambda>ev. \<not> is_keytab_write ev"
  let ?Q = "\<lambda>s s'. logs ?P s s' \<and> keytab_file s' = keytab_file s"
  have q_trans: "\<And>a b c. ?Q a b \<Longrightarrow> ?Q b c \<Longrightarrow> ?Q a c"
    by (auto intro: logs_trans)
  have chain: "\<And>f g s r s'. and_then f g s = (r, s') \<Longrightarrow>
      (\<And>r1 s1. f s = (r1, s1) \<Longrightarrow> ?Q s s1) \<Longrightarrow>
      (\<And>s1 r2 s2. g s1 = (r2, s2) \<Longrightarrow> ?Q s1 s2) \<Longrightarrow> ?Q s s'"
  proof -
    fix f g s r s'
    assume a: "and_then f g s = (r, s')"
      and b: "\<And>r1 s1. f s = (r1, s1) \<Longrightarrow> ?Q s s1"
      and c: "\<And>s1 r2 s2. g s1 = (r2, s2) \<Longrightarrow> ?Q s1 s2"
    from and_then_cases [OF a] show "?Q s s'"
    proof
      assume "f s = (r, s') \<and> r \<noteq> Returned ADCLI_SUCCESS"
      then show ?thesis using b by blast
    next
      assume "\<exists>s1. f s = (Returned ADCLI_SUCCESS, s1) \<and> g s1 = (r, s')"
      then obtain s1 where "f s = (Returned ADCLI_SUCCESS, s1)" "g s1 = (r, s')" by blast
      then have "?Q s s1" "?Q s1 s'" using b c by blast+
      then show ?thesis by (rule q_trans)
    qed
  qed
  have d: "\<And>s r s'. conn_discover w s = (r, s') \<Longrightarrow> ?Q s s'"
    using conn_discover_frame by (auto intro: logs_same)
  have p: "\<And>s r s'. adcli_enroll_prepare w flags s = (r, s') \<Longrightarrow> ?Q s s'"
    using adcli_enroll_prepare_outside by (auto intro: logs_same)
  have c: "\<And>s r s'. conn_connect w s = (r, s') \<Longrightarrow> ?Q s s'"
    using conn_connect_frame by (auto intro: logs_same)
  have pl: "\<And>s r s'. place_computer_account w s = (r, s') \<Longrightarrow> ?Q s s'"
    using place_computer_account_frame not_keytab_write(1) by (blast intro: logs_mono)
  have cr: "\<And>s r s'. create_or_update_computer_account w
      (ADCLI_ENROLL_ALLOW_OVERWRITE flags) s = (r, s') \<Longrightarrow> ?Q s s'"
    using create_or_update_computer_account_frame not_keytab_write(1)
    by (blast intro: logs_mono)
  have sp: "\<And>s r s'. set_computer_password w s = (r, s') \<Longrightarrow> ?Q s s'"
  proof -
    fix s r s'
    assume "set_computer_password w s = (r, s')"
    from set_computer_password_frame [OF this] show "?Q s s'"
      by (auto simp: logs_def)
  qed
  have rt: "\<And>s r s'. retrieve_computer_account_info w s = (r, s') \<Longrightarrow> ?Q s s'"
  proof -
    fix s r s'
    assume "retrieve_computer_account_info w s = (r, s')"
    from retrieve_computer_account_info_frame [OF this] show "?Q s s'"
      by (auto simp: logs_def)
  qed
  have q6: "\<And>s r s'. and_then (set_computer_password w)
      (retrieve_computer_account_info w) s = (r, s') \<Longrightarrow> ?Q s s'"
  proof -
    fix s r s'
    assume a: "and_then (set_computer_password w) (retrieve_computer_account_info w) s = (r, s')"
    show "?Q s s'" by (rule chain [OF a]) (erule sp, erule rt)
  qed
  have q5: "\<And>s r s'. and_then (create_or_update_computer_account w
      (ADCLI_ENROLL_ALLOW_OVERWRITE flags))
      (and_then (set_computer_password w) (retrieve_computer_account_info w)) s = (r, s')
      \<Longrightarrow> ?Q s s'"
  proof -
    fix s r s'
    assume a: "and_then (create_or_update_computer_account w
      (ADCLI_ENROLL_ALLOW_OVERWRITE flags))
      (and_then (set_computer_password w) (retrieve_computer_account_info w)) s = (r, s')"
    show "?Q s s'" by (rule chain [OF a]) (erule cr, erule q6)
  qed
  have q4: "\<And>s r s'. and_then (place_computer_account w)
      (and_then (create_or_update_computer_account w (ADCLI_ENROLL_ALLOW_OVERWRITE flags))
      (and_then (set_computer_password w) (retrieve_computer_account_info w))) s = (r, s')
      \<Longrightarrow> ?Q s s'"
  proof -
    fix s r s'
    assume a: "and_then (place_computer_account w)
      (and_then (create_or_update_computer_account w (ADCLI_ENROLL_ALLOW_OVERWRITE flags))
      (and_then (set_computer_password w) (retrieve_computer_account_info w))) s = (r, s')"
    show "?Q s s'" by (rule chain [OF a]) (erule pl, erule q5)
  qed
  have q3: "\<And>s r s'. and_then (conn_connect w) (and_then (place_computer_account w)
      (and_then (create_or_update_computer_account w (ADCLI_ENROLL_ALLOW_OVERWRITE flags))
      (and_then (set_computer_password w) (retrieve_computer_account_info w)))) s = (r, s')
      \<Longrightarrow> ?Q s s'"
  proof -
    fix s r s'
    assume a: "and_then (conn_connect w) (and_then (place_computer_account w)
      (and_then (create_or_update_computer_account w (ADCLI_ENROLL_ALLOW_OVERWRITE flags))
      (and_then (set_computer_password w) (retrieve_computer_account_info w)))) s = (r, s')"
    show "?Q s s'" by (rule chain [OF a]) (erule c, erule q4)
  qed
  have q2: "\<And>s r s'. and_then (adcli_enroll_prepare w flags)
      (and_then (conn_connect w) (and_then (place_computer_account w)
      (and_then (create_or_update_computer_account w (ADCLI_ENROLL_ALLOW_OVERWRITE flags))
      (and_then (set_computer_password w) (retrieve_computer_account_info w))))) s = (r, s')
      \<Longrightarrow> ?Q s s'"
  proof -
    fix s r s'
    assume a: "and_then (adcli_enroll_prepare w flags)
      (and_then (conn_connect w) (and_then (place_computer_account w)
      (and_then (create_or_update_computer_account w (ADCLI_ENROLL_ALLOW_OVERWRITE flags))
      (and_then (set_computer_password w) (retrieve_computer_account_info w))))) s = (r, s')"
    show "?Q s s'" by (rule chain [OF a]) (erule p, erule q3)
  qed
  have "?Q (enroll_clear_state s) s1"
    by (rule chain [OF run [unfolded join_until_read_back_def]]) (erule d, erule q2)
  then show ?thesis
    using enroll_clear_state_frame [of s] by (simp add: logs_def)
qed

lemma synchronize_and_write_keytab_trace:
  assumes run: "synchronize_and_write_keytab w flags s = (r, s')"
  shows "\<exists>mods writes. trace s' = trace s @ mods @ writes \<and>
    list_all is_modify mods \<and> list_all (keytab_event (kvno (enroll s))) writes \<and>
    (ADCLI_ENROLL_NO_KEYTAB flags \<longrightarrow> writes = []) \<and>
    kvno (enroll s') = kvno (enroll s) \<and> computer_name (enroll s') = computer_name (enroll s) \<and>
    computer_sam (enroll s') = computer_sam (enroll s)"
proof -
  from synchronize_and_write_keytab_cases [OF run] obtain s3 where
    e3: "enroll s3 = (enroll s)\<lparr>keytab_enctypes := keytab_enctypes (enroll s3)\<rparr>" and
    l3: "logs is_modify s s3" and
    c: "r = Aborted \<and> s' = s3 \<or>
     ADCLI_ENROLL_NO_KEYTAB flags \<and> r = Returned ADCLI_SUCCESS \<and> s' = s3 \<or>
     \<not> ADCLI_ENROLL_NO_KEYTAB flags \<and> update_keytab_for_principals w s3 = (r, s')"
    by blast
  note f = keytab_enctypes_update_fields [OF e3]
  from l3 obtain mods where m: "trace s3 = trace s @ mods" "list_all is_modify mods"
    unfolding logs_def by blast
  from c show ?thesis
  proof (elim disjE)
    assume "r = Aborted \<and> s' = s3"
    then have "trace s' = trace s @ mods @ []" using m by simp
    then show ?thesis using m(2) f \<open>r = Aborted \<and> s' = s3\<close>
      by (intro exI [of _ mods] exI [of _ "[]"]) simp
  next
    assume a: "ADCLI_ENROLL_NO_KEYTAB flags \<and> r = Returned ADCLI_SUCCESS \<and> s' = s3"
    then have "trace s' = trace s @ mods @ []" using m by simp
    then show ?thesis using m(2) f a
      by (intro exI [of _ mods] exI [of _ "[]"]) simp
  next
    assume a: "\<not> ADCLI_ENROLL_NO_KEYTAB flags \<and> update_keytab_for_principals w s3 = (r, s')"
    from update_keytab_for_principals_events [of w s3 r s'] a obtain writes where
      e: "enroll s' = enroll s3" and
      wr: "trace s' = trace s3 @ writes" "list_all (keytab_event (kvno (enroll s3))) writes"
      unfolding logs_def by blast
    have "trace s' = trace s @ mods @ writes" using wr(1) m(1) by simp
    moreover have "list_all (keytab_event (kvno (enroll s))) writes" using wr(2) f(1) by simp
    ultimately show ?thesis using m(2) f e a
      by (intro exI [of _ mods] exI [of _ writes]) simp
  qed
qed

end
